theory Spec2Isabelle
  imports Complex_Main
begin

section \<open>Configuration (config.js)\<close>

text \<open>
  JavaScript numbers are modelled as mathematical reals, with one exception:
  \<open>resolvePlayerCollision\<close>, whose specification speaks of exact equality of computed
  positions, is modelled in binary64 arithmetic, every operation followed by rounding to
  nearest-even.  The only non-finite value the program stores on purpose is the
  \<open>Infinity\<close> shot-clock option, which gets its own constructor below.  Rendering, audio
  and logging calls have no effect on the simulated state and are left out.
\<close>

definition COURT_WIDTH :: real where "COURT_WIDTH = 15"
definition COURT_LENGTH :: real where "COURT_LENGTH = 14"
definition THREE_POINT_RADIUS :: real where "THREE_POINT_RADIUS = 6.75"
definition FREE_THROW_DISTANCE :: real where "FREE_THROW_DISTANCE = 4.6"
definition RIM_RADIUS :: real where "RIM_RADIUS = 0.23"
definition RIM_HEIGHT :: real where "RIM_HEIGHT = 3.05"
definition BACKBOARD_WIDTH :: real where "BACKBOARD_WIDTH = 1.8"
definition BACKBOARD_HEIGHT :: real where "BACKBOARD_HEIGHT = 1.05"
definition BACKBOARD_DISTANCE :: real where "BACKBOARD_DISTANCE = 1.2"

definition WIN_SCORE :: nat where "WIN_SCORE = 11"
definition FOUL_FREE_THROW_POINTS :: nat where "FOUL_FREE_THROW_POINTS = 1"
definition STEAL_COOLDOWN :: real where "STEAL_COOLDOWN = 0.7"
definition STEPBACK_COOLDOWN :: real where "STEPBACK_COOLDOWN = 0.5"
definition STEPBACK_INVULN_TIME :: real where "STEPBACK_INVULN_TIME = 0.15"

record scoring =
  INSIDE :: nat
  THREE_POINT :: nat

definition SCORING_STREET :: scoring where
  "SCORING_STREET = \<lparr> INSIDE = 1, THREE_POINT = 2 \<rparr>"
definition SCORING_CLASSIC :: scoring where
  "SCORING_CLASSIC = \<lparr> INSIDE = 2, THREE_POINT = 3 \<rparr>"

definition BASE_SPEED :: real where "BASE_SPEED = 3.6"
definition SPRINT_MULTIPLIER :: real where "SPRINT_MULTIPLIER = 2.0"
definition ACCELERATION :: real where "ACCELERATION = 15.0"
definition FRICTION :: real where "FRICTION = 12.0"
definition STAMINA_MAX :: real where "STAMINA_MAX = 100"
definition STAMINA_SPRINT_DRAIN :: real where "STAMINA_SPRINT_DRAIN = 12"
definition STAMINA_REGEN :: real where "STAMINA_REGEN = 12"
definition STAMINA_MIN_FOR_SPRINT :: real where "STAMINA_MIN_FOR_SPRINT = 5"
definition PLAYER_RADIUS :: real where "PLAYER_RADIUS = 0.35"
definition LOW_STAMINA_THRESHOLD :: real where "LOW_STAMINA_THRESHOLD = 30"
definition LOW_STAMINA_SPEED_PENALTY :: real where "LOW_STAMINA_SPEED_PENALTY = 0.8"
definition LOW_STAMINA_ACCURACY_PENALTY :: real where "LOW_STAMINA_ACCURACY_PENALTY = 0.85"

definition BALL_RADIUS :: real where "BALL_RADIUS = 0.12"
definition GRAVITY :: real where "GRAVITY = 9.81"
definition BOUNCE_FACTOR :: real where "BOUNCE_FACTOR = 0.75"
definition FRICTION_GROUND :: real where "FRICTION_GROUND = 0.95"
definition FRICTION_AIR :: real where "FRICTION_AIR = 0.99"
definition MIN_SHOT_POWER :: real where "MIN_SHOT_POWER = 0.2"
definition MAX_SHOT_POWER :: real where "MAX_SHOT_POWER = 1.0"
definition POWER_CHARGE_RATE :: real where "POWER_CHARGE_RATE = 1.2"
definition MAGNETIC_WINDOW :: real where "MAGNETIC_WINDOW = 0.08"
definition SHOT_BASE_SPEED :: real where "SHOT_BASE_SPEED = 6.0"
definition SHOT_DISTANCE_FACTOR :: real where "SHOT_DISTANCE_FACTOR = 0.5"

record ai_params =
  REACTION_TIME :: real
  SHOT_ACCURACY :: real
  DEFENSE_DISTANCE :: real
  STEAL_CHANCE :: real
  DECISION_DELAY :: real

definition DIFF_CASUAL :: ai_params where
  "DIFF_CASUAL = \<lparr> REACTION_TIME = 0.5, SHOT_ACCURACY = 0.6, DEFENSE_DISTANCE = 1.5,
     STEAL_CHANCE = 0.15, DECISION_DELAY = 0.3 \<rparr>"
definition DIFF_STANDARD :: ai_params where
  "DIFF_STANDARD = \<lparr> REACTION_TIME = 0.3, SHOT_ACCURACY = 0.75, DEFENSE_DISTANCE = 1.2,
     STEAL_CHANCE = 0.25, DECISION_DELAY = 0.2 \<rparr>"
definition DIFF_COMPETITIVE :: ai_params where
  "DIFF_COMPETITIVE = \<lparr> REACTION_TIME = 0.15, SHOT_ACCURACY = 0.85, DEFENSE_DISTANCE = 0.9,
     STEAL_CHANCE = 0.35, DECISION_DELAY = 0.1 \<rparr>"

text \<open>\<open>CONFIG.AI.DIFFICULTIES[difficulty] || CONFIG.AI.DIFFICULTIES.STANDARD\<close>\<close>

definition DIFFICULTIES :: "string \<Rightarrow> ai_params" where
  "DIFFICULTIES d =
     (if d = ''CASUAL'' then DIFF_CASUAL
      else if d = ''STANDARD'' then DIFF_STANDARD
      else if d = ''COMPETITIVE'' then DIFF_COMPETITIVE
      else DIFF_STANDARD)"

definition DEFENSE_PRESS_DISTANCE :: real where "DEFENSE_PRESS_DISTANCE = 2.0"
definition CONTEST_DISTANCE :: real where "CONTEST_DISTANCE = 1.5"
definition FORCE_SHOT_TIME :: real where "FORCE_SHOT_TIME = 5.0"

text \<open>
  The shot clock is a number that may be the \<open>Infinity\<close> option of
  \<open>SHOT_CLOCK_OPTIONS\<close>.  Subtracting a finite step from \<open>Infinity\<close> gives
  \<open>Infinity\<close>, and \<open>Infinity\<close> is neither \<open>\<le> 0\<close> nor below any finite bound.
\<close>

datatype clock = Fin real | Infinity

fun clock_sub :: "clock \<Rightarrow> real \<Rightarrow> clock" where
  "clock_sub (Fin c) d = Fin (c - d)"
| "clock_sub Infinity d = Infinity"

fun clock_le :: "clock \<Rightarrow> real \<Rightarrow> bool" where
  "clock_le (Fin c) r = (c \<le> r)"
| "clock_le Infinity r = False"

fun clock_less :: "clock \<Rightarrow> real \<Rightarrow> bool" where
  "clock_less (Fin c) r = (c < r)"
| "clock_less Infinity r = False"

record GameSettings =
  difficulty :: string
  shotClockDuration :: clock
  scoringSystem :: string

definition getScoringSystem :: "GameSettings \<Rightarrow> scoring" where
  "getScoringSystem s =
     (if scoringSystem s = ''street'' then SCORING_STREET else SCORING_CLASSIC)"

section \<open>Math utilities (core/Math.js)\<close>

definition clamp :: "real \<Rightarrow> real \<Rightarrow> real \<Rightarrow> real" where
  "clamp v lo hi = min (max v lo) hi"

definition distance :: "real \<Rightarrow> real \<Rightarrow> real \<Rightarrow> real \<Rightarrow> real" where
  "distance x1 y1 x2 y2 =
     (let dx = x2 - x1; dy = y2 - y1 in sqrt (dx * dx + dy * dy))"

text \<open>\<open>Math.atan2(y, x)\<close>, written out by quadrant (signed zeros are not modelled).\<close>

definition atan2 :: "real \<Rightarrow> real \<Rightarrow> real" where
  "atan2 y x =
     (if 0 < x then arctan (y / x)
      else if x < 0 \<and> 0 \<le> y then arctan (y / x) + pi
      else if x < 0 \<and> y < 0 then arctan (y / x) - pi
      else if 0 < y then pi / 2
      else if y < 0 then - (pi / 2)
      else 0)"

definition angleTo :: "real \<Rightarrow> real \<Rightarrow> real \<Rightarrow> real \<Rightarrow> real" where
  "angleTo x1 y1 x2 y2 = atan2 (y2 - y1) (x2 - x1)"

definition circleIntersect :: "real \<Rightarrow> real \<Rightarrow> real \<Rightarrow> real \<Rightarrow> real \<Rightarrow> real \<Rightarrow> bool" where
  "circleIntersect x1 y1 r1 x2 y2 r2 = (distance x1 y1 x2 y2 < r1 + r2)"

section \<open>Binary64 arithmetic\<close>

text \<open>
  A JavaScript number is an IEEE-754 binary64 value, and every arithmetic operation returns
  the exact result rounded to the nearest representable value, ties to the even
  significand.  \<open>fl\<close> is that rounding on the reals: the spacing of the representable
  values around \<open>x\<close> is \<open>2 ^ ulp_exp x\<close>, which is \<open>2 ^ (e - 52)\<close> for
  \<open>2 ^ e \<le> \<bar>x\<bar> < 2 ^ (e + 1)\<close> and stays at \<open>2 ^ (- 1074)\<close> in the subnormal range.
  A number is representable when \<open>fl x = x\<close>.  Overflow to \<open>Infinity\<close>, \<open>NaN\<close> and the sign
  of zero are not modelled: \<open>fl\<close> of a real above the largest finite binary64 value is
  a large finite real where the machine yields \<open>Infinity\<close>.  \<open>Math.sqrt\<close> is taken to be
  correctly rounded, as IEEE-754 requires of the square root.
\<close>

definition round_even :: "real \<Rightarrow> int" where
  "round_even q =
     (let f = \<lfloor>q\<rfloor>; r = q - of_int f
      in if r < 1 / 2 then f
         else if r > 1 / 2 then f + 1
         else if even f then f else f + 1)"

definition ulp_exp :: "real \<Rightarrow> int" where
  "ulp_exp x = max \<lfloor>log 2 \<bar>x\<bar>\<rfloor> (- 1022) - 52"

definition fl :: "real \<Rightarrow> real" where
  "fl x = (if x = 0 then 0
           else of_int (round_even (x / 2 powr of_int (ulp_exp x))) * 2 powr of_int (ulp_exp x))"

text \<open>The unit roundoff and the smallest positive normal number.\<close>

definition eps :: real where "eps = 1 / 2 ^ 53"

definition tiny :: real where "tiny = 2 powr (- 1022)"

text \<open>\<open>near k x y\<close>: \<open>y\<close> is \<open>x\<close> up to \<open>k\<close> relative rounding errors.\<close>

definition near :: "nat \<Rightarrow> real \<Rightarrow> real \<Rightarrow> bool" where
  "near k x y = ((1 - eps) ^ k * x \<le> y \<and> y \<le> (1 + eps) ^ k * x)"

text \<open>\<open>distance\<close> of core/Math.js as the machine computes it: two subtractions, two
  products, one sum and one square root, each rounded.\<close>

definition distance_d :: "real \<Rightarrow> real \<Rightarrow> real \<Rightarrow> real \<Rightarrow> real" where
  "distance_d x1 y1 x2 y2 =
     (let dx = fl (x2 - x1); dy = fl (y2 - y1)
      in fl (sqrt (fl (fl (dx * dx) + fl (dy * dy)))))"

section \<open>Rules (game/Rules.js)\<close>

datatype side = SidePlayer | SideAI

datatype game_state = CheckBall | LiveBall | FreeThrow | GameOver

record stats =
  playerShots :: nat
  playerMakes :: nat
  aiShots :: nat
  aiMakes :: nat
  fouls :: nat

record Rules =
  settings :: GameSettings
  playerScore :: nat
  aiScore :: nat
  possession :: side
  needsCheckBall :: bool
  shotClock :: clock
  shotClockActive :: bool
  gameState :: game_state
  rstats :: stats

definition other_side :: "side \<Rightarrow> side" where
  "other_side s = (if s = SidePlayer then SideAI else SidePlayer)"

definition isThreePoint :: "real \<Rightarrow> real \<Rightarrow> bool" where
  "isThreePoint x y =
     (let rimX = COURT_WIDTH / 2; rimY = BACKBOARD_DISTANCE;
          dist = distance x y rimX rimY
      in dist \<ge> THREE_POINT_RADIUS)"

definition Rules_new :: "GameSettings \<Rightarrow> Rules" where
  "Rules_new st =
     \<lparr> settings = st, playerScore = 0, aiScore = 0, possession = SidePlayer,
       needsCheckBall = False, shotClock = shotClockDuration st, shotClockActive = False,
       gameState = CheckBall,
       rstats = \<lparr> playerShots = 0, playerMakes = 0, aiShots = 0, aiMakes = 0, fouls = 0 \<rparr> \<rparr>"

definition resetShotClock :: "Rules \<Rightarrow> Rules" where
  "resetShotClock r = r\<lparr> shotClock := shotClockDuration (settings r) \<rparr>"

definition changePossession :: "Rules \<Rightarrow> side \<Rightarrow> Rules" where
  "changePossession r newPossession =
     resetShotClock (r\<lparr> possession := newPossession, needsCheckBall := True \<rparr>)"

definition startLiveBall :: "Rules \<Rightarrow> Rules" where
  "startLiveBall r =
     resetShotClock (r\<lparr> gameState := LiveBall, needsCheckBall := False,
                         shotClockActive := True \<rparr>)"

definition resetToCheckBall :: "Rules \<Rightarrow> Rules" where
  "resetToCheckBall r =
     resetShotClock (r\<lparr> gameState := CheckBall, needsCheckBall := True,
                         shotClockActive := False \<rparr>)"

definition handleShotClockViolation :: "Rules \<Rightarrow> Rules" where
  "handleShotClockViolation r =
     (let newPossession = (if possession r = SidePlayer then SideAI else SidePlayer);
          r1 = changePossession r newPossession
      in r1\<lparr> gameState := CheckBall, shotClockActive := False \<rparr>)"

definition Rules_update :: "Rules \<Rightarrow> real \<Rightarrow> Rules" where
  "Rules_update r dt =
     (if shotClockActive r \<and> gameState r = LiveBall then
        (let r1 = r\<lparr> shotClock := clock_sub (shotClock r) dt \<rparr>
         in if clock_le (shotClock r1) 0 then handleShotClockViolation r1 else r1)
      else r)"

definition scorePoints :: "Rules \<Rightarrow> side \<Rightarrow> real \<Rightarrow> real \<Rightarrow> Rules" where
  "scorePoints r team shotX shotY =
     (let scoringSystem = getScoringSystem (settings r);
          points = (if isThreePoint shotX shotY then THREE_POINT scoringSystem
                    else INSIDE scoringSystem);
          r1 = (if team = SidePlayer
                then r\<lparr> playerScore := playerScore r + points,
                        rstats := (rstats r)\<lparr> playerMakes := playerMakes (rstats r) + 1 \<rparr> \<rparr>
                else r\<lparr> aiScore := aiScore r + points,
                        rstats := (rstats r)\<lparr> aiMakes := aiMakes (rstats r) + 1 \<rparr> \<rparr>);
          r2 = changePossession r1 team;
          r3 = r2\<lparr> needsCheckBall := True, gameState := CheckBall, shotClockActive := False \<rparr>
      in if playerScore r3 \<ge> WIN_SCORE then r3\<lparr> gameState := GameOver \<rparr>
         else if aiScore r3 \<ge> WIN_SCORE then r3\<lparr> gameState := GameOver \<rparr>
         else r3)"

definition registerShotAttempt :: "Rules \<Rightarrow> side \<Rightarrow> Rules" where
  "registerShotAttempt r team =
     (if team = SidePlayer
      then r\<lparr> rstats := (rstats r)\<lparr> playerShots := playerShots (rstats r) + 1 \<rparr> \<rparr>
      else r\<lparr> rstats := (rstats r)\<lparr> aiShots := aiShots (rstats r) + 1 \<rparr> \<rparr>)"

section \<open>Ball (game/Ball.js) and the geometry tests of game/Physics.js\<close>

datatype ball_state = Free | Held | InFlight

record Ball =
  b_x :: real
  b_y :: real
  b_z :: real
  b_vx :: real
  b_vy :: real
  b_vz :: real
  b_state :: ball_state
  holderId :: "side option"
  b_rimX :: real
  b_rimY :: real
  b_rimZ :: real
  hasScored :: bool
  isOutOfBounds :: bool
  justReleased :: bool
  dribbleTime :: real
  dribbleBounceHeight :: real

definition checkRimCollision :: "real \<Rightarrow> real \<Rightarrow> real \<Rightarrow> real \<Rightarrow> real \<Rightarrow> real \<Rightarrow> bool" where
  "checkRimCollision ballX ballY ballZ rimX rimY rimZ =
     (let heightDiff = \<bar>ballZ - rimZ\<bar>
      in if heightDiff > BALL_RADIUS * 2 then False
         else (let dist2D = distance ballX ballY rimX rimY;
                   threshold = RIM_RADIUS + MAGNETIC_WINDOW
               in dist2D \<le> threshold))"

definition checkBackboardCollision :: "real \<Rightarrow> real \<Rightarrow> real \<Rightarrow> real \<Rightarrow> real \<Rightarrow> bool" where
  "checkBackboardCollision ballX ballY ballZ boardX boardY =
     (let halfWidth = BACKBOARD_WIDTH / 2;
          boardMinY = boardY - 0.1;
          boardMaxY = boardY + 0.1
      in if ballY < boardMinY \<or> ballY > boardMaxY then False
         else if \<bar>ballX - boardX\<bar> > halfWidth then False
         else (let boardBottom = RIM_HEIGHT;
                   boardTop = boardBottom + BACKBOARD_HEIGHT
               in if ballZ < boardBottom \<or> ballZ > boardTop then False else True))"

definition reflectFromBackboard :: "real \<times> real \<times> real \<Rightarrow> real \<times> real \<times> real" where
  "reflectFromBackboard v = (case v of (vx, vy, vz) \<Rightarrow> (vx, - vy * 0.6, vz * 0.8))"

definition calculateOptimalShotPower :: "real \<Rightarrow> real" where
  "calculateOptimalShotPower dst = SHOT_BASE_SPEED + dst * SHOT_DISTANCE_FACTOR"

definition Ball_new :: Ball where
  "Ball_new =
     \<lparr> b_x = COURT_WIDTH / 2, b_y = COURT_LENGTH / 2, b_z = 0,
       b_vx = 0, b_vy = 0, b_vz = 0, b_state = Free, holderId = None,
       b_rimX = COURT_WIDTH / 2, b_rimY = BACKBOARD_DISTANCE, b_rimZ = RIM_HEIGHT,
       hasScored = False, isOutOfBounds = False, justReleased = False,
       dribbleTime = 0, dribbleBounceHeight = 0.3 \<rparr>"

definition attachTo :: "Ball \<Rightarrow> side \<Rightarrow> real \<Rightarrow> real \<Rightarrow> Ball" where
  "attachTo b playerId x y =
     b\<lparr> b_state := Held, holderId := Some playerId, b_x := x, b_y := y, b_z := 1.2,
        b_vx := 0, b_vy := 0, b_vz := 0, hasScored := False, isOutOfBounds := False,
        justReleased := False,
        dribbleTime := (if dribbleTime b = 0 then 0 else dribbleTime b) \<rparr>"

text \<open>\<open>release\<close> keeps \<open>holderId\<close>: the shooter is credited after the ball has left.\<close>

definition release :: "Ball \<Rightarrow> real \<Rightarrow> real \<Rightarrow> real \<Rightarrow> Ball" where
  "release b vx vy vz =
     b\<lparr> b_state := InFlight, b_vx := vx, b_vy := vy, b_vz := vz, hasScored := False,
        justReleased := True \<rparr>"

definition checkBounds :: "Ball \<Rightarrow> Ball" where
  "checkBounds b =
     (let margin = 0.3
      in if b_x b < - margin \<or> b_x b > COURT_WIDTH + margin \<or>
            b_y b < - margin \<or> b_y b > COURT_LENGTH + margin
         then b\<lparr> isOutOfBounds := True \<rparr> else b)"

text \<open>
  \<open>Ball.update\<close> is a sequence of blocks on the same object; each block of the source is
  one function here and \<open>Ball_update\<close> runs them in the source's order.
\<close>

definition ball_dribble :: "Ball \<Rightarrow> real \<Rightarrow> Ball" where
  "ball_dribble b dt =
     (let t = dribbleTime b + dt;
          bounceFrequency = 2.0
      in b\<lparr> dribbleTime := t,
            b_z := 1.2 + \<bar>sin (t * bounceFrequency * pi)\<bar> * dribbleBounceHeight b \<rparr>)"

definition ball_integrate :: "Ball \<Rightarrow> real \<Rightarrow> Ball" where
  "ball_integrate b dt =
     (let vz1 = b_vz b - GRAVITY * dt
      in b\<lparr> b_vz := vz1,
            b_x := b_x b + b_vx b * dt,
            b_y := b_y b + b_vy b * dt,
            b_z := b_z b + vz1 * dt,
            b_vx := b_vx b * FRICTION_AIR,
            b_vy := b_vy b * FRICTION_AIR \<rparr>)"

definition ball_ground :: "Ball \<Rightarrow> Ball" where
  "ball_ground b =
     (if b_z b \<le> BALL_RADIUS then
        (let b1 = b\<lparr> b_z := BALL_RADIUS,
                     b_vz := - b_vz b * BOUNCE_FACTOR,
                     justReleased := False,
                     b_vx := b_vx b * FRICTION_GROUND,
                     b_vy := b_vy b * FRICTION_GROUND \<rparr>
         in if \<bar>b_vz b1\<bar> < 0.5
            then b1\<lparr> b_vz := 0, b_z := BALL_RADIUS, b_state := Free \<rparr>
            else b1)
      else b)"

definition ball_rim :: "Ball \<Rightarrow> Ball" where
  "ball_rim b =
     (if b_state b = InFlight \<and> b_vz b < 0 \<and> \<not> hasScored b then
        (if checkRimCollision (b_x b) (b_y b) (b_z b) (b_rimX b) (b_rimY b) (b_rimZ b)
         then b\<lparr> hasScored := True, b_vz := b_vz b * 0.7 \<rparr>
         else b)
      else b)"

definition ball_backboard :: "Ball \<Rightarrow> Ball" where
  "ball_backboard b =
     (if b_state b = InFlight then
        (if checkBackboardCollision (b_x b) (b_y b) (b_z b) (b_rimX b) (b_rimY b)
         then (case reflectFromBackboard (b_vx b, b_vy b, b_vz b) of
                 (rx, ry, rz) \<Rightarrow> b\<lparr> b_vx := rx, b_vy := ry, b_vz := rz \<rparr>)
         else b)
      else b)"

definition Ball_update :: "Ball \<Rightarrow> real \<Rightarrow> Ball" where
  "Ball_update b dt =
     (if b_state b = Held then ball_dribble b dt
      else checkBounds (ball_backboard (ball_rim (ball_ground (ball_integrate b dt)))))"

definition isScore :: "Ball \<Rightarrow> bool" where
  "isScore b = (hasScored b \<and> b_z b < b_rimZ b)"

text \<open>
  A flight is a run of \<open>Ball.update\<close> calls with no \<open>release\<close>, \<open>attachTo\<close> or
  \<open>reset\<close> in between; \<open>scoreEvents b dts\<close> counts the calls of the flight that
  switch \<open>hasScored\<close> from false to true.
\<close>

fun scoreEvents :: "Ball \<Rightarrow> real list \<Rightarrow> nat" where
  "scoreEvents b [] = 0"
| "scoreEvents b (dt # dts) =
     (if \<not> hasScored b \<and> hasScored (Ball_update b dt) then 1 else 0)
       + scoreEvents (Ball_update b dt) dts"

section \<open>Player (game/Player.js)\<close>

datatype anim = AnimIdle | AnimRun | AnimDribble | AnimShoot

record Player =
  p_id :: side
  team :: side
  p_x :: real
  p_y :: real
  p_z :: real
  p_vx :: real
  p_vy :: real
  facing :: real
  stamina :: real
  isSprinting :: bool
  hasBall :: bool
  p_state :: anim
  p_stateTime :: real
  shotPower :: real
  shotCharging :: bool
  shotAngle :: real
  stealCooldown :: real
  stepBackCooldown :: real
  invulnerableTime :: real
  p_rimX :: real
  p_rimY :: real

record shot =
  s_vx :: real
  s_vy :: real
  s_vz :: real
  power :: real

definition Player_new :: "side \<Rightarrow> side \<Rightarrow> real \<Rightarrow> real \<Rightarrow> Player" where
  "Player_new ident tm x y =
     \<lparr> p_id = ident, team = tm, p_x = x, p_y = y, p_z = 0, p_vx = 0, p_vy = 0,
       facing = 0, stamina = STAMINA_MAX, isSprinting = False, hasBall = False,
       p_state = AnimIdle, p_stateTime = 0, shotPower = 0, shotCharging = False,
       shotAngle = 0, stealCooldown = 0, stepBackCooldown = 0, invulnerableTime = 0,
       p_rimX = COURT_WIDTH / 2, p_rimY = BACKBOARD_DISTANCE \<rparr>"

definition updateStamina :: "Player \<Rightarrow> real \<Rightarrow> Player" where
  "updateStamina p dt =
     (if isSprinting p then
        (let p1 = p\<lparr> stamina := stamina p - STAMINA_SPRINT_DRAIN * dt \<rparr>
         in if stamina p1 < 0 then p1\<lparr> stamina := 0, isSprinting := False \<rparr> else p1)
      else
        (let p1 = p\<lparr> stamina := stamina p + STAMINA_REGEN * dt \<rparr>
         in if stamina p1 > STAMINA_MAX then p1\<lparr> stamina := STAMINA_MAX \<rparr> else p1))"

definition updateState :: "Player \<Rightarrow> real \<Rightarrow> Player" where
  "updateState p dt =
     (let speed = sqrt (p_vx p * p_vx p + p_vy p * p_vy p)
      in if shotCharging p then p\<lparr> p_state := AnimShoot \<rparr>
         else if speed > 0.5 then p\<lparr> p_state := (if hasBall p then AnimDribble else AnimRun) \<rparr>
         else p\<lparr> p_state := AnimIdle \<rparr>)"

definition Player_update :: "Player \<Rightarrow> real \<Rightarrow> Player" where
  "Player_update p dt =
     (let p1 = p\<lparr> p_stateTime := p_stateTime p + dt,
                  stealCooldown := max 0 (stealCooldown p - dt),
                  stepBackCooldown := max 0 (stepBackCooldown p - dt),
                  invulnerableTime := max 0 (invulnerableTime p - dt) \<rparr>;
          p2 = p1\<lparr> p_vx := p_vx p1 * (1 - FRICTION * dt),
                   p_vy := p_vy p1 * (1 - FRICTION * dt) \<rparr>;
          p3 = p2\<lparr> p_x := p_x p2 + p_vx p2 * dt, p_y := p_y p2 + p_vy p2 * dt \<rparr>
      in updateState (updateStamina p3 dt) dt)"

definition getEffectiveSpeed :: "Player \<Rightarrow> real" where
  "getEffectiveSpeed p =
     (let speed0 = BASE_SPEED;
          speed1 = (if isSprinting p \<and> stamina p > STAMINA_MIN_FOR_SPRINT
                    then speed0 * SPRINT_MULTIPLIER else speed0)
      in if stamina p < LOW_STAMINA_THRESHOLD
         then speed1 * LOW_STAMINA_SPEED_PENALTY else speed1)"

definition applyMovement :: "Player \<Rightarrow> real \<Rightarrow> real \<Rightarrow> Player" where
  "applyMovement p dirX dirY =
     (let speed = getEffectiveSpeed p;
          accel = ACCELERATION;
          p1 = p\<lparr> p_vx := p_vx p + dirX * accel * (1 / 60),
                  p_vy := p_vy p + dirY * accel * (1 / 60) \<rparr>;
          currentSpeed = sqrt (p_vx p1 * p_vx p1 + p_vy p1 * p_vy p1);
          p2 = (if currentSpeed > speed
                then p1\<lparr> p_vx := (p_vx p1 / currentSpeed) * speed,
                         p_vy := (p_vy p1 / currentSpeed) * speed \<rparr>
                else p1)
      in if dirX \<noteq> 0 \<or> dirY \<noteq> 0 then p2\<lparr> facing := atan2 dirY dirX \<rparr> else p2)"

definition startShot :: "Player \<Rightarrow> real \<Rightarrow> Player" where
  "startShot p angle =
     (if \<not> hasBall p then p
      else p\<lparr> shotCharging := True, shotPower := 0, shotAngle := angle \<rparr>)"

definition chargeShot :: "Player \<Rightarrow> real \<Rightarrow> Player" where
  "chargeShot p dt =
     (if \<not> shotCharging p then p
      else p\<lparr> shotPower :=
                clamp (shotPower p + POWER_CHARGE_RATE * dt) MIN_SHOT_POWER MAX_SHOT_POWER \<rparr>)"

text \<open>
  \<open>executeShot\<close> returns the launch data or \<open>null\<close> (\<open>None\<close>) together with the updated
  player.  It has no access to the ball: the caller passes the result to \<open>Ball.release\<close>.
\<close>

definition executeShot :: "Player \<Rightarrow> Player \<times> shot option" where
  "executeShot p =
     (if \<not> shotCharging p \<or> \<not> hasBall p then (p, None)
      else
        (let distToRim = distance (p_x p) (p_y p) (p_rimX p) (p_rimY p);
             optimalPower = calculateOptimalShotPower distToRim;
             accuracy = (if stamina p < LOW_STAMINA_THRESHOLD
                         then LOW_STAMINA_ACCURACY_PENALTY else 1.0);
             angleToRim = angleTo (p_x p) (p_y p) (p_rimX p) (p_rimY p);
             horizontalSpeed = shotPower p * optimalPower * accuracy;
             vx = cos angleToRim * horizontalSpeed;
             vy = sin angleToRim * horizontalSpeed;
             vz = sqrt (2 * GRAVITY * RIM_HEIGHT) * (0.8 + shotPower p * 0.4)
         in (p\<lparr> shotCharging := False, hasBall := False \<rparr>,
             Some \<lparr> s_vx = vx, s_vy = vy, s_vz = vz, power = shotPower p \<rparr>)))"

definition performStepBack :: "Player \<Rightarrow> Player \<times> bool" where
  "performStepBack p =
     (if stepBackCooldown p > 0 then (p, False)
      else
        (let backAngle = facing p + pi;
             stepDistance = 1.5
         in (p\<lparr> p_x := p_x p + cos backAngle * stepDistance,
                p_y := p_y p + sin backAngle * stepDistance,
                stepBackCooldown := STEPBACK_COOLDOWN,
                invulnerableTime := STEPBACK_INVULN_TIME \<rparr>, True)))"

text \<open>
  \<open>attemptSteal\<close> draws \<open>Math.random()\<close> once when the attempt is not rejected; the draw
  is the parameter \<open>roll\<close>, a number in \<open>[0, 1)\<close>.  The result is the updated attacker
  and the returned boolean.
\<close>

definition stealChance :: "real \<Rightarrow> real" where
  "stealChance d = 0.3 * (1 - d / (PLAYER_RADIUS * 3))"

definition attemptSteal :: "real \<Rightarrow> Player \<Rightarrow> Player \<Rightarrow> Player \<times> bool" where
  "attemptSteal roll p target =
     (if stealCooldown p > 0 then (p, False)
      else if \<not> hasBall target then (p, False)
      else if invulnerableTime target > 0 then (p, False)
      else
        (let d = distance (p_x p) (p_y p) (p_x target) (p_y target)
         in if d > PLAYER_RADIUS * 3 then (p, False)
            else (let p1 = p\<lparr> stealCooldown := STEAL_COOLDOWN \<rparr>;
                      successChance = stealChance d
                  in (p1, roll < successChance))))"

definition getBallPosition :: "Player \<Rightarrow> real \<times> real \<times> real" where
  "getBallPosition p = (p_x p, p_y p, 1.2)"

section \<open>Collisions and bounds (game/Physics.js)\<close>

definition checkPlayerCollision :: "Player \<Rightarrow> Player \<Rightarrow> bool" where
  "checkPlayerCollision p1 p2 =
     circleIntersect (p_x p1) (p_y p1) PLAYER_RADIUS (p_x p2) (p_y p2) PLAYER_RADIUS"

text \<open>
  \<open>resolvePlayerCollision\<close> in binary64 arithmetic.  A JavaScript division by zero does
  not raise; it yields a non-finite number that would then be stored in the positions.
  \<open>js_div\<close> makes that outcome visible as \<open>None\<close>; a quotient with a nonzero divisor is
  rounded like every other result.  The literal \<open>0.35\<close> of \<open>CONFIG.PLAYER.RADIUS\<close> is read
  as the nearest binary64 value; \<open>0.5\<close> is representable.  When a square in \<open>distance\<close>
  overflows, the machine distance is \<open>Infinity\<close> and the model's is a large finite number:
  both fail the test \<open>dist < minDist\<close>, and the positions are left as they are.  The
  coordinates a player carries are binary64 values; the function is defined on all reals,
  and the statements that need it assume \<open>fl x = x\<close> of the coordinates.
\<close>

definition js_div :: "real \<Rightarrow> real \<Rightarrow> real option" where
  "js_div a b = (if b = 0 then None else Some (fl (a / b)))"

definition resolvePlayerCollision :: "Player \<Rightarrow> Player \<Rightarrow> (Player \<times> Player) option" where
  "resolvePlayerCollision p1 p2 =
     (let d = distance_d (p_x p1) (p_y p1) (p_x p2) (p_y p2);
          minDist = fl (fl PLAYER_RADIUS * 2)
      in if d < minDist \<and> d > 0 then
           (case js_div (fl (p_x p2 - p_x p1)) d of
              None \<Rightarrow> None
            | Some nx \<Rightarrow>
               (case js_div (fl (p_y p2 - p_y p1)) d of
                  None \<Rightarrow> None
                | Some ny \<Rightarrow>
                   (let overlap = fl (minDist - d);
                        pushX = fl (fl (nx * overlap) * 0.5);
                        pushY = fl (fl (ny * overlap) * 0.5)
                    in Some (p1\<lparr> p_x := fl (p_x p1 - pushX), p_y := fl (p_y p1 - pushY) \<rparr>,
                             p2\<lparr> p_x := fl (p_x p2 + pushX), p_y := fl (p_y p2 + pushY) \<rparr>))))
         else Some (p1, p2))"

text \<open>The names used to state what \<open>resolvePlayerCollision\<close> does: \<open>minDist_d\<close> is its
  \<open>minDist\<close>, \<open>push_d a d\<close> is its \<open>pushX\<close> (or \<open>pushY\<close>) for the coordinate difference
  \<open>a\<close> and the computed distance \<open>d\<close>, and \<open>court_d p\<close> says that both coordinates of
  \<open>p\<close> are representable and lie in \<open>[1/4, 16]\<close>, a range that contains every position
  \<open>clampToCourtBounds\<close> lets through.\<close>

definition minDist_d :: real where
  "minDist_d = fl (fl PLAYER_RADIUS * 2)"

definition push_d :: "real \<Rightarrow> real \<Rightarrow> real" where
  "push_d a dc = fl (fl (fl (fl a / dc) * fl (minDist_d - dc)) * 0.5)"

definition court_d :: "Player \<Rightarrow> bool" where
  "court_d p = (fl (p_x p) = p_x p \<and> fl (p_y p) = p_y p
      \<and> 1 / 4 \<le> p_x p \<and> p_x p \<le> 16 \<and> 1 / 4 \<le> p_y p \<and> p_y p \<le> 16)"

definition clampToCourtBounds :: "Player \<Rightarrow> Player" where
  "clampToCourtBounds e =
     (let margin = PLAYER_RADIUS;
          maxX = COURT_WIDTH - margin;
          maxY = COURT_LENGTH - margin;
          e1 = (if p_x e < margin then e\<lparr> p_x := margin \<rparr> else e);
          e2 = (if p_x e1 > maxX then e1\<lparr> p_x := maxX \<rparr> else e1);
          e3 = (if p_y e2 < margin then e2\<lparr> p_y := margin \<rparr> else e2)
      in if p_y e3 > maxY then e3\<lparr> p_y := maxY \<rparr> else e3)"

section \<open>AIController (game/AIController.js)\<close>

datatype ai_state =
  Idle | AttackDrive | AttackProbe | Shoot | Layup | DefendPress | DefendContest | Rebound

text \<open>
  The controller keeps a reference to the AI's \<open>Player\<close> object and is handed the ball and
  the opponent each tick.  Here every operation takes the objects it reads and returns
  the ones it writes.  The calls to \<open>Math.random()\<close> of one tick are the fields of
  \<open>draws\<close>, each a number in \<open>[0, 1)\<close>.
\<close>

record draws =
  steal_roll :: real
  shoot_roll :: real
  probe_roll :: real

record AIController =
  c_difficulty :: string
  params :: ai_params
  c_state :: ai_state
  c_stateTime :: real
  decisionTimer :: real
  targetX :: real
  targetY :: real
  c_rimX :: real
  c_rimY :: real

definition AIController_new :: "Player \<Rightarrow> string \<Rightarrow> AIController" where
  "AIController_new p d =
     \<lparr> c_difficulty = d, params = DIFFICULTIES d, c_state = Idle, c_stateTime = 0,
       decisionTimer = 0, targetX = p_x p, targetY = p_y p,
       c_rimX = COURT_WIDTH / 2, c_rimY = BACKBOARD_DISTANCE \<rparr>"

definition calculateShootChance :: "real \<Rightarrow> real \<Rightarrow> real" where
  "calculateShootChance distToRim distToOpponent =
     (let chance0 = 0.3;
          chance1 = (if distToRim < 4.0 then chance0 + 0.3
                     else if distToRim < 6.0 then chance0 + 0.2 else chance0);
          chance2 = (if distToOpponent > 2.5 then chance1 + 0.2 else chance1)
      in min chance2 0.8)"

definition calculateOptimalPowerForDistance :: "AIController \<Rightarrow> real \<Rightarrow> real" where
  "calculateOptimalPowerForDistance c dst =
     (let baseSpeed = calculateOptimalShotPower dst;
          normalized = baseSpeed / (SHOT_BASE_SPEED + 7 * SHOT_DISTANCE_FACTOR)
      in min (normalized * SHOT_ACCURACY (params c)) MAX_SHOT_POWER)"

text \<open>\<open>globalRandom.choice(angles)\<close> is \<open>angles[Math.floor(Math.random() * angles.length)]\<close>.\<close>

definition chooseProbeTarget :: "AIController \<Rightarrow> Player \<Rightarrow> real \<Rightarrow> AIController" where
  "chooseProbeTarget c p roll =
     (let angles = [-45, -30, 0, 30, 45];
          chosenAngle = (angles ! nat \<lfloor>roll * real (length angles)\<rfloor>) * pi / 180;
          angleToRim = angleTo (p_x p) (p_y p) (c_rimX c) (c_rimY c);
          finalAngle = angleToRim + chosenAngle;
          d = 1.5
      in c\<lparr> targetX := p_x p + cos finalAngle * d, targetY := p_y p + sin finalAngle * d \<rparr>)"

definition decideOffense :: "AIController \<Rightarrow> Player \<Rightarrow> Player \<Rightarrow> clock \<Rightarrow> draws \<Rightarrow> AIController" where
  "decideOffense c p opponent clk rnd =
     (let distToRim = distance (p_x p) (p_y p) (c_rimX c) (c_rimY c);
          distToOpponent = distance (p_x p) (p_y p) (p_x opponent) (p_y opponent)
      in if clock_less clk FORCE_SHOT_TIME then c\<lparr> c_state := Shoot \<rparr>
         else if distToRim < 2.0 \<and> distToOpponent > 1.5 then c\<lparr> c_state := Layup \<rparr>
         else
           (let isOpen = distToOpponent > CONTEST_DISTANCE;
                inRange = distToRim < 7.0
            in if isOpen \<and> inRange
                  \<and> shoot_roll rnd < calculateShootChance distToRim distToOpponent
               then c\<lparr> c_state := Shoot \<rparr>
               else if distToRim > 3.0
               then c\<lparr> c_state := AttackDrive, targetX := c_rimX c, targetY := c_rimY c + 2.0 \<rparr>
               else chooseProbeTarget (c\<lparr> c_state := AttackProbe \<rparr>) p (probe_roll rnd)))"

definition decideDefense :: "AIController \<Rightarrow> Player \<Rightarrow> Ball \<Rightarrow> Player \<Rightarrow> AIController" where
  "decideDefense c p ball opponent =
     (let distToOpponent = distance (p_x p) (p_y p) (p_x opponent) (p_y opponent)
      in if b_state ball = Free
         then c\<lparr> c_state := Rebound, targetX := b_x ball, targetY := b_y ball \<rparr>
         else if hasBall opponent then
           (if shotCharging opponent
            then c\<lparr> c_state := DefendContest, targetX := p_x opponent, targetY := p_y opponent \<rparr>
            else if distToOpponent > DEFENSE_PRESS_DISTANCE
            then c\<lparr> c_state := DefendPress, targetX := p_x opponent, targetY := p_y opponent \<rparr>
            else
              (let angleToRim = angleTo (p_x opponent) (p_y opponent) (c_rimX c) (c_rimY c)
               in c\<lparr> c_state := DefendPress,
                     targetX := p_x opponent + cos angleToRim * 1.2,
                     targetY := p_y opponent + sin angleToRim * 1.2 \<rparr>))
         else c)"

definition makeDecision :: "AIController \<Rightarrow> Player \<Rightarrow> Ball \<Rightarrow> Player \<Rightarrow> clock \<Rightarrow> draws \<Rightarrow> AIController" where
  "makeDecision c p ball opponent clk rnd =
     (if hasBall p then decideOffense c p opponent clk rnd
      else decideDefense c p ball opponent)"

definition moveToTarget :: "AIController \<Rightarrow> Player \<Rightarrow> Player" where
  "moveToTarget c p =
     (let d = distance (p_x p) (p_y p) (targetX c) (targetY c)
      in if d < 0.5 then p
         else
           (let angle = angleTo (p_x p) (p_y p) (targetX c) (targetY c);
                dirX = cos angle;
                dirY = sin angle
            in applyMovement (p\<lparr> isSprinting := (d > 3.0) \<rparr>) dirX dirY))"

definition executeShoot :: "AIController \<Rightarrow> Player \<Rightarrow> Ball \<Rightarrow> AIController \<times> Player \<times> Ball" where
  "executeShoot c p ball =
     (if \<not> hasBall p then (c\<lparr> c_state := Idle \<rparr>, p, ball)
      else
        (let p1 = (if \<not> shotCharging p
                   then startShot p (angleTo (p_x p) (p_y p) (c_rimX c) (c_rimY c)) else p);
             distToRim = distance (p_x p1) (p_y p1) (c_rimX c) (c_rimY c);
             optimalPower = calculateOptimalPowerForDistance c distToRim;
             p2 = chargeShot p1 (1 / 60)
         in if shotPower p2 \<ge> optimalPower - 0.1 then
              (case executeShot p2 of
                 (p3, Some shotData) \<Rightarrow>
                   (c\<lparr> c_state := Idle \<rparr>, p3,
                    release ball (s_vx shotData) (s_vy shotData) (s_vz shotData))
               | (p3, None) \<Rightarrow> (c, p3, ball))
            else (c, p2, ball)))"

definition executeLayup :: "AIController \<Rightarrow> Player \<Rightarrow> Ball \<Rightarrow> AIController \<times> Player \<times> Ball" where
  "executeLayup c p ball =
     (if \<not> hasBall p then (c\<lparr> c_state := Idle \<rparr>, p, ball)
      else
        (let c1 = c\<lparr> targetX := c_rimX c, targetY := c_rimY c + 0.5 \<rparr>;
             p1 = moveToTarget c1 p;
             distToRim = distance (p_x p1) (p_y p1) (c_rimX c1) (c_rimY c1)
         in if distToRim < 1.5 then
              (let angleToRim = angleTo (p_x p1) (p_y p1) (c_rimX c1) (c_rimY c1);
                   p2 = (startShot p1 angleToRim)\<lparr> shotPower := 0.6 \<rparr>
               in case executeShot p2 of
                    (p3, Some shotData) \<Rightarrow>
                      (c1\<lparr> c_state := Idle \<rparr>, p3,
                       release ball (s_vx shotData) (s_vy shotData) (s_vz shotData))
                  | (p3, None) \<Rightarrow> (c1, p3, ball))
            else (c1, p1, ball)))"

definition executeState :: "AIController \<Rightarrow> Player \<Rightarrow> Ball \<Rightarrow> AIController \<times> Player \<times> Ball" where
  "executeState c p ball =
     (case c_state c of
        AttackDrive \<Rightarrow> (c, moveToTarget c p, ball)
      | AttackProbe \<Rightarrow> (c, moveToTarget c p, ball)
      | DefendPress \<Rightarrow> (c, moveToTarget c p, ball)
      | DefendContest \<Rightarrow> (c, moveToTarget c p, ball)
      | Rebound \<Rightarrow> (c, moveToTarget c p, ball)
      | Shoot \<Rightarrow> executeShoot c p ball
      | Layup \<Rightarrow> executeLayup c p ball
      | Idle \<Rightarrow> (c, p, ball))"

definition AIController_update ::
  "AIController \<Rightarrow> Player \<Rightarrow> Ball \<Rightarrow> Player \<Rightarrow> clock \<Rightarrow> draws \<Rightarrow> real
     \<Rightarrow> AIController \<times> Player \<times> Ball" where
  "AIController_update c p ball opponent clk rnd dt =
     (let c1 = c\<lparr> c_stateTime := c_stateTime c + dt, decisionTimer := decisionTimer c - dt \<rparr>;
          c2 = (if decisionTimer c1 \<le> 0
                then (makeDecision c1 p ball opponent clk rnd)
                       \<lparr> decisionTimer := DECISION_DELAY (params c1) \<rparr>
                else c1)
      in executeState c2 p ball)"

section \<open>GameScene (scenes/GameScene.js): the per-tick orchestrator\<close>

record input =
  dirX :: real
  dirY :: real
  sprintPressed :: bool
  pointerIsDown :: bool
  rightJustPressed :: bool

record GameScene =
  player :: Player
  ai :: Player
  ball :: Ball
  aiController :: AIController
  rules :: Rules
  outOfBoundsTimer :: "real option"
  checkBallTimer :: "real option"
  sneakerSoundTimer :: real

definition setupInitialPositions :: "GameScene \<Rightarrow> GameScene" where
  "setupInitialPositions sc =
     (let checkX = COURT_WIDTH / 2;
          checkY = FREE_THROW_DISTANCE + BACKBOARD_DISTANCE;
          pl = (player sc)\<lparr> hasBall := False \<rparr>;
          a = (ai sc)\<lparr> hasBall := False \<rparr>;
          currentPossession = possession (rules sc)
      in if currentPossession = SidePlayer then
           (let pl1 = pl\<lparr> p_x := checkX, p_y := checkY + 2 \<rparr>;
                a1 = a\<lparr> p_x := checkX, p_y := checkY - 2 \<rparr>;
                pl2 = pl1\<lparr> hasBall := True \<rparr>
            in case getBallPosition pl2 of
                 (bx, by', bz) \<Rightarrow>
                   sc\<lparr> player := pl2, ai := a1, ball := attachTo (ball sc) SidePlayer bx by' \<rparr>)
         else
           (let a1 = a\<lparr> p_x := checkX, p_y := checkY + 2 \<rparr>;
                pl1 = pl\<lparr> p_x := checkX, p_y := checkY - 2 \<rparr>;
                a2 = a1\<lparr> hasBall := True \<rparr>
            in case getBallPosition a2 of
                 (bx, by', bz) \<Rightarrow>
                   sc\<lparr> player := pl1, ai := a2, ball := attachTo (ball sc) SideAI bx by' \<rparr>))"

text \<open>\<open>enter\<close>: create the entities and the rules, then place everybody for the check ball.\<close>

definition GameScene_enter :: "GameSettings \<Rightarrow> GameScene" where
  "GameScene_enter st =
     (let pl = Player_new SidePlayer SidePlayer (COURT_WIDTH / 2) (COURT_LENGTH * 0.7);
          a = Player_new SideAI SideAI (COURT_WIDTH / 2) (COURT_LENGTH * 0.3)
      in setupInitialPositions
           \<lparr> player = pl, ai = a, ball = Ball_new,
             aiController = AIController_new a (difficulty st),
             rules = Rules_new st, outOfBoundsTimer = None, checkBallTimer = None,
             sneakerSoundTimer = 0 \<rparr>)"

text \<open>
  \<open>handlePlayerInput\<close> has four blocks, run in this order: movement, sprint, shot (left
  button) and special action (right button: step-back with the ball, steal without).
\<close>

definition input_movement :: "GameScene \<Rightarrow> input \<Rightarrow> real \<Rightarrow> GameScene" where
  "input_movement sc inp dt =
     (if dirX inp \<noteq> 0 \<or> dirY inp \<noteq> 0 then
        (let t = sneakerSoundTimer sc - dt
         in sc\<lparr> player := applyMovement (player sc) (dirX inp) (dirY inp),
                sneakerSoundTimer := (if t \<le> 0 then 1.2 else t) \<rparr>)
      else sc\<lparr> sneakerSoundTimer := 0 \<rparr>)"

definition input_sprint :: "GameScene \<Rightarrow> input \<Rightarrow> GameScene" where
  "input_sprint sc inp =
     sc\<lparr> player := (player sc)
          \<lparr> isSprinting := (sprintPressed inp
                \<and> stamina (player sc) > STAMINA_MIN_FOR_SPRINT) \<rparr> \<rparr>"

definition input_shot :: "GameScene \<Rightarrow> input \<Rightarrow> real \<Rightarrow> GameScene" where
  "input_shot sc inp dt =
     (if hasBall (player sc) then
        (let pl1 = (if pointerIsDown inp \<and> \<not> shotCharging (player sc)
                    then startShot (player sc)
                           (atan2 (b_rimY (ball sc) - p_y (player sc))
                                  (b_rimX (ball sc) - p_x (player sc)))
                    else player sc)
         in if shotCharging pl1 then
              (if pointerIsDown inp
               then sc\<lparr> player := chargeShot pl1 dt \<rparr>
               else (case executeShot pl1 of
                       (pl2, Some shotData) \<Rightarrow>
                         sc\<lparr> player := pl2,
                             rules := registerShotAttempt (rules sc) SidePlayer,
                             ball := release (ball sc) (s_vx shotData)
                                       (s_vy shotData) (s_vz shotData) \<rparr>
                     | (pl2, None) \<Rightarrow> sc\<lparr> player := pl2 \<rparr>))
            else sc\<lparr> player := pl1 \<rparr>)
      else sc)"

definition input_special :: "GameScene \<Rightarrow> input \<Rightarrow> draws \<Rightarrow> GameScene" where
  "input_special sc inp rnd =
     (if rightJustPressed inp then
        (if hasBall (player sc)
         then sc\<lparr> player := fst (performStepBack (player sc)) \<rparr>
         else (case attemptSteal (steal_roll rnd) (player sc) (ai sc) of
                 (pl1, True) \<Rightarrow>
                   sc\<lparr> ai := (ai sc)\<lparr> hasBall := False \<rparr>,
                       player := pl1\<lparr> hasBall := True \<rparr>,
                       ball := (ball sc)\<lparr> b_state := Held, holderId := Some SidePlayer \<rparr> \<rparr>
               | (pl1, False) \<Rightarrow> sc\<lparr> player := pl1 \<rparr>))
      else sc)"

definition handlePlayerInput :: "GameScene \<Rightarrow> input \<Rightarrow> draws \<Rightarrow> real \<Rightarrow> GameScene" where
  "handlePlayerInput sc inp rnd dt =
     input_special (input_shot (input_sprint (input_movement sc inp dt) inp) inp dt) inp rnd"

definition updateBallPosition :: "GameScene \<Rightarrow> GameScene" where
  "updateBallPosition sc =
     (if hasBall (player sc) \<and> b_state (ball sc) = Held then
        (case getBallPosition (player sc) of
           (bx, by', bz) \<Rightarrow> sc\<lparr> ball := (ball sc)\<lparr> b_x := bx, b_y := by' \<rparr> \<rparr>)
      else if hasBall (ai sc) \<and> b_state (ball sc) = Held then
        (case getBallPosition (ai sc) of
           (bx, by', bz) \<Rightarrow> sc\<lparr> ball := (ball sc)\<lparr> b_x := bx, b_y := by' \<rparr> \<rparr>)
      else if hasBall (player sc) \<and> b_state (ball sc) \<noteq> Held then
        (case getBallPosition (player sc) of
           (bx, by', bz) \<Rightarrow> sc\<lparr> ball := attachTo (ball sc) SidePlayer bx by' \<rparr>)
      else if hasBall (ai sc) \<and> b_state (ball sc) \<noteq> Held then
        (case getBallPosition (ai sc) of
           (bx, by', bz) \<Rightarrow> sc\<lparr> ball := attachTo (ball sc) SideAI bx by' \<rparr>)
      else sc)"

definition handleBallPickup :: "GameScene \<Rightarrow> GameScene" where
  "handleBallPickup sc =
     (let pickupRadius = PLAYER_RADIUS * 3;
          distToPlayer = distance (b_x (ball sc)) (b_y (ball sc))
                           (p_x (player sc)) (p_y (player sc));
          sc1 = (if distToPlayer < pickupRadius then
                   (let s = sc\<lparr> player := (player sc)\<lparr> hasBall := True \<rparr>,
                                ai := (ai sc)\<lparr> hasBall := False \<rparr>,
                                ball := (ball sc)\<lparr> b_state := Held,
                                          holderId := Some SidePlayer,
                                          isOutOfBounds := False \<rparr> \<rparr>
                    in if possession (rules s) \<noteq> SidePlayer
                       then s\<lparr> rules := changePossession (rules s) SidePlayer \<rparr> else s)
                 else sc);
          distToAI = distance (b_x (ball sc1)) (b_y (ball sc1)) (p_x (ai sc1)) (p_y (ai sc1))
      in if distToAI < pickupRadius then
           (let s = sc1\<lparr> ai := (ai sc1)\<lparr> hasBall := True \<rparr>,
                         player := (player sc1)\<lparr> hasBall := False \<rparr>,
                         ball := (ball sc1)\<lparr> b_state := Held, holderId := Some SideAI,
                                   isOutOfBounds := False \<rparr> \<rparr>
            in if possession (rules s) \<noteq> SideAI
               then s\<lparr> rules := changePossession (rules s) SideAI \<rparr> else s)
         else sc1)"

definition run_ai :: "GameScene \<Rightarrow> draws \<Rightarrow> real \<Rightarrow> GameScene" where
  "run_ai sc rnd dt =
     (case AIController_update (aiController sc) (ai sc) (ball sc) (player sc)
             (shotClock (rules sc)) rnd dt of
        (c, a, b) \<Rightarrow> sc\<lparr> aiController := c, ai := a, ball := b \<rparr>)"

text \<open>
  The blocks of \<open>handleCheckBall\<close> and \<open>handleLiveBall\<close>, each a function on the scene;
  the two handlers run them in the source's order.
\<close>

definition checkBall_ai :: "GameScene \<Rightarrow> draws \<Rightarrow> real \<Rightarrow> GameScene" where
  "checkBall_ai sc rnd dt =
     (if possession (rules sc) = SideAI then run_ai sc rnd dt
      else
        (let defenseX = COURT_WIDTH / 2;
             defenseY = BACKBOARD_DISTANCE + 3.0;
             d = distance (p_x (ai sc)) (p_y (ai sc)) defenseX defenseY
         in if d > 0.5 then
              (let angle = atan2 (defenseY - p_y (ai sc)) (defenseX - p_x (ai sc))
               in sc\<lparr> ai := applyMovement (ai sc) (cos angle) (sin angle) \<rparr>)
            else sc))"

definition update_players :: "GameScene \<Rightarrow> real \<Rightarrow> GameScene" where
  "update_players sc dt =
     sc\<lparr> player := Player_update (player sc) dt, ai := Player_update (ai sc) dt \<rparr>"

text \<open>The collision resolver never yields \<open>None\<close>; the players are kept as they are in
  that case.\<close>

definition collide_players :: "GameScene \<Rightarrow> GameScene" where
  "collide_players sc =
     (if checkPlayerCollision (player sc) (ai sc) then
        (case resolvePlayerCollision (player sc) (ai sc) of
           Some (pl, a) \<Rightarrow> sc\<lparr> player := pl, ai := a \<rparr>
         | None \<Rightarrow> sc)
      else sc)"

definition clamp_players :: "GameScene \<Rightarrow> GameScene" where
  "clamp_players sc =
     sc\<lparr> player := clampToCourtBounds (player sc), ai := clampToCourtBounds (ai sc) \<rparr>"

definition checkBall_start :: "GameScene \<Rightarrow> real \<Rightarrow> GameScene" where
  "checkBall_start sc dt =
     (if possession (rules sc) = SidePlayer \<and> hasBall (player sc) then
        (let speed = sqrt (p_vx (player sc) * p_vx (player sc)
                           + p_vy (player sc) * p_vy (player sc))
         in if speed > 0.5 then sc\<lparr> rules := startLiveBall (rules sc) \<rparr> else sc)
      else if possession (rules sc) = SideAI \<and> hasBall (ai sc) then
        (let t0 = (case checkBallTimer sc of None \<Rightarrow> 1.0 | Some t \<Rightarrow> t);
             t1 = t0 - dt
         in if t1 \<le> 0
            then sc\<lparr> rules := startLiveBall (rules sc), checkBallTimer := None \<rparr>
            else sc\<lparr> checkBallTimer := Some t1 \<rparr>)
      else sc)"

definition update_ball :: "GameScene \<Rightarrow> real \<Rightarrow> GameScene" where
  "update_ball sc dt =
     (let sc1 = updateBallPosition sc in sc1\<lparr> ball := Ball_update (ball sc1) dt \<rparr>)"

definition pickup_if_free :: "GameScene \<Rightarrow> GameScene" where
  "pickup_if_free sc = (if b_state (ball sc) = Free then handleBallPickup sc else sc)"

definition handleCheckBall :: "GameScene \<Rightarrow> input \<Rightarrow> draws \<Rightarrow> real \<Rightarrow> GameScene" where
  "handleCheckBall sc inp rnd dt =
     pickup_if_free
       (update_ball
          (checkBall_start
             (clamp_players
                (update_players (checkBall_ai (handlePlayerInput sc inp rnd dt) rnd dt) dt))
             dt)
          dt)"

text \<open>
  \<open>handleLiveBall\<close> first advances the world (input, AI, kinematics, collision, bounds,
  ball) and then evaluates the out-of-bounds timer, the score predicate and the pickup.
  The two halves are \<open>liveBall_advance\<close> and \<open>liveBall_referee\<close>.
\<close>

definition liveBall_advance :: "GameScene \<Rightarrow> input \<Rightarrow> draws \<Rightarrow> real \<Rightarrow> GameScene" where
  "liveBall_advance sc inp rnd dt =
     update_ball
       (clamp_players
          (collide_players
             (update_players (run_ai (handlePlayerInput sc inp rnd dt) rnd dt) dt)))
       dt"

definition outOfBounds_expired :: "GameScene \<Rightarrow> GameScene" where
  "outOfBounds_expired sc =
     (let lastPossession = (case holderId (ball sc) of
                              Some h \<Rightarrow> h
                            | None \<Rightarrow> possession (rules sc));
          newPossession = (if lastPossession = SidePlayer then SideAI else SidePlayer);
          sc1 = sc\<lparr> rules := changePossession (rules sc) newPossession \<rparr>;
          sc2 = sc1\<lparr> player := (player sc1)\<lparr> hasBall := False \<rparr>,
                      ai := (ai sc1)\<lparr> hasBall := False \<rparr> \<rparr>;
          sc3 = setupInitialPositions sc2
      in sc3\<lparr> outOfBoundsTimer := None \<rparr>)"

definition score_and_pickup :: "GameScene \<Rightarrow> GameScene" where
  "score_and_pickup sc =
     (if isScore (ball sc) then
        (let shooter = (case holderId (ball sc) of
                          Some h \<Rightarrow> h
                        | None \<Rightarrow> (if hasBall (player sc) then SidePlayer else SideAI));
             shooterEntity = (if shooter = SidePlayer then player sc else ai sc);
             sc1 = sc\<lparr> rules := scorePoints (rules sc) shooter
                                     (p_x shooterEntity) (p_y shooterEntity) \<rparr>;
             sc2 = sc1\<lparr> player := (player sc1)\<lparr> hasBall := False \<rparr>,
                         ai := (ai sc1)\<lparr> hasBall := False \<rparr>,
                         outOfBoundsTimer := None \<rparr>
         in setupInitialPositions sc2)
      else pickup_if_free sc)"

definition liveBall_referee :: "GameScene \<Rightarrow> real \<Rightarrow> GameScene" where
  "liveBall_referee sc dt =
     (if isOutOfBounds (ball sc) then
        (case outOfBoundsTimer sc of
           None \<Rightarrow> score_and_pickup (sc\<lparr> outOfBoundsTimer := Some 3.0 \<rparr>)
         | Some t \<Rightarrow>
            (let sc1 = sc\<lparr> outOfBoundsTimer := Some (t - dt) \<rparr>
             in if t - dt \<le> 0 then outOfBounds_expired sc1 else score_and_pickup sc1))
      else score_and_pickup (sc\<lparr> outOfBoundsTimer := None \<rparr>))"

definition handleLiveBall :: "GameScene \<Rightarrow> input \<Rightarrow> draws \<Rightarrow> real \<Rightarrow> GameScene" where
  "handleLiveBall sc inp rnd dt = liveBall_referee (liveBall_advance sc inp rnd dt) dt"

text \<open>
  \<open>update\<close>: one tick.  When the game is over the scene manager is asked to switch
  scenes and the state is left as it is.
\<close>

definition GameScene_update :: "GameScene \<Rightarrow> input \<Rightarrow> draws \<Rightarrow> real \<Rightarrow> GameScene" where
  "GameScene_update sc inp rnd dt =
     (if gameState (rules sc) = GameOver then sc
      else
        (let prevState = gameState (rules sc);
             sc1 = sc\<lparr> rules := Rules_update (rules sc) dt \<rparr>;
             sc2 = (if prevState = LiveBall \<and> gameState (rules sc1) = CheckBall
                    then setupInitialPositions sc1 else sc1)
         in if gameState (rules sc2) = CheckBall then handleCheckBall sc2 inp rnd dt
            else if gameState (rules sc2) = LiveBall then handleLiveBall sc2 inp rnd dt
            else sc2))"

text \<open>The key handler: \<open>Escape\<close> opens the pause scene, \<open>R\<close> is the manual ball reset.\<close>

datatype key = Escape | KeyR | OtherKey

definition handlePause :: "GameScene \<Rightarrow> key \<Rightarrow> GameScene" where
  "handlePause sc e =
     (if e = KeyR then
        (let lastPossession =
               (if hasBall (player sc) then SidePlayer
                else if hasBall (ai sc) then SideAI
                else (case holderId (ball sc) of
                        Some h \<Rightarrow> h
                      | None \<Rightarrow>
                         (if b_state (ball sc) = Held then
                            (let distToPlayer =
                                   sqrt ((b_x (ball sc) - p_x (player sc))\<^sup>2
                                         + (b_y (ball sc) - p_y (player sc))\<^sup>2);
                                 distToAI =
                                   sqrt ((b_x (ball sc) - p_x (ai sc))\<^sup>2
                                         + (b_y (ball sc) - p_y (ai sc))\<^sup>2)
                             in if distToPlayer < distToAI then SidePlayer else SideAI)
                          else possession (rules sc))));
             newPossession = (if lastPossession = SidePlayer then SideAI else SidePlayer);
             currentPossession = newPossession;
             pl = (player sc)\<lparr> hasBall := False, p_vx := 0, p_vy := 0 \<rparr>;
             a = (ai sc)\<lparr> hasBall := False, p_vx := 0, p_vy := 0 \<rparr>;
             b = (ball sc)\<lparr> b_vx := 0, b_vy := 0, b_vz := 0, isOutOfBounds := False,
                            hasScored := False \<rparr>;
             r = resetToCheckBall ((rules sc)\<lparr> possession := currentPossession \<rparr>);
             sc1 = sc\<lparr> player := pl, ai := a, ball := b, rules := r \<rparr>;
             sc2 = (if currentPossession = SidePlayer then
                      (let pl1 = (player sc1)\<lparr> hasBall := True \<rparr>
                       in case getBallPosition pl1 of
                            (bx, by', bz) \<Rightarrow>
                              sc1\<lparr> player := pl1,
                                   ball := attachTo (ball sc1) SidePlayer bx by' \<rparr>)
                    else
                      (let a1 = (ai sc1)\<lparr> hasBall := True \<rparr>
                       in case getBallPosition a1 of
                            (bx, by', bz) \<Rightarrow>
                              sc1\<lparr> ai := a1, ball := attachTo (ball sc1) SideAI bx by' \<rparr>))
         in sc2\<lparr> checkBallTimer := None, outOfBoundsTimer := None \<rparr>)
      else sc)"

text \<open>
  The states the scene can be in: the state after \<open>enter\<close>, and every state obtained from
  a reachable one by a tick (any input, any random draws, any step) or a key press.
\<close>

inductive reachable :: "GameScene \<Rightarrow> bool" where
  enter: "reachable (GameScene_enter st)"
| tick: "reachable sc \<Longrightarrow> reachable (GameScene_update sc inp rnd dt)"
| keydown: "reachable sc \<Longrightarrow> reachable (handlePause sc e)"

text \<open>At most one of the two players holds the ball.\<close>

definition oneHolder :: "GameScene \<Rightarrow> bool" where
  "oneHolder sc = (\<not> (hasBall (player sc) \<and> hasBall (ai sc)))"

text \<open>
  A player is \<open>stale\<close> when \<open>shotCharging\<close> is set without the ball.  The other
  predicates name the situations the traces below go through.
\<close>

definition holds :: "Player \<Rightarrow> bool" where
  "holds p = (hasBall p \<and> shotCharging p)"

definition stale :: "Player \<Rightarrow> bool" where
  "stale p = (shotCharging p \<and> \<not> hasBall p)"

definition charging_with_ball :: "GameScene \<Rightarrow> bool" where
  "charging_with_ball sc =
     (hasBall (player sc) \<and> shotCharging (player sc) \<and> b_state (ball sc) = Held)"

definition after_steal :: "GameScene \<Rightarrow> bool" where
  "after_steal sc =
     (hasBall (player sc) \<and> stale (ai sc) \<and> b_state (ball sc) = Held
      \<and> \<not> hasScored (ball sc) \<and> \<not> isOutOfBounds (ball sc))"

section \<open>Concrete inputs used by the examples below\<close>

definition settings_default :: GameSettings where
  "settings_default =
     \<lparr> difficulty = ''STANDARD'', shotClockDuration = Fin 24, scoringSystem = ''street'' \<rparr>"

definition rules_expiring :: Rules where
  "rules_expiring =
     (Rules_new settings_default)
       \<lparr> shotClock := Fin (1 / 100), shotClockActive := True, gameState := LiveBall \<rparr>"

definition thief :: Player where
  "thief = Player_new SidePlayer SidePlayer 7 5"
definition carrier :: Player where
  "carrier = (Player_new SideAI SideAI 7.35 5)\<lparr> hasBall := True \<rparr>"

definition shooter :: Player where
  "shooter = (Player_new SidePlayer SidePlayer 7.5 4.2)
               \<lparr> hasBall := True, shotCharging := True, shotPower := 0.5 \<rparr>"

definition ball_at_rim :: Ball where
  "ball_at_rim = Ball_new\<lparr> b_x := 7.5, b_y := 1.2, b_z := 3.1, b_vz := -1,
                            b_state := InFlight, holderId := Some SidePlayer \<rparr>"

definition input_idle :: input where
  "input_idle = \<lparr> dirX = 0, dirY = 0, sprintPressed = False, pointerIsDown = False,
                   rightJustPressed = False \<rparr>"

definition draws_zero :: draws where
  "draws_zero = \<lparr> steal_roll = 0, shoot_roll = 0, probe_roll = 0 \<rparr>"

definition scene_pickup :: GameScene where
  "scene_pickup =
     (GameScene_enter settings_default)
       \<lparr> player := Player_new SidePlayer SidePlayer 7.5 5.5,
         ai := Player_new SideAI SideAI 7.5 4.5,
         ball := Ball_new\<lparr> b_x := 7.5, b_y := 5, b_z := 0.12 \<rparr> \<rparr>"

definition input_hold :: input where
  "input_hold = input_idle\<lparr> pointerIsDown := True \<rparr>"

definition input_right :: input where
  "input_right = input_idle\<lparr> rightJustPressed := True \<rparr>"

definition scene_ball_out :: GameScene where
  "scene_ball_out =
     (GameScene_enter settings_default)
       \<lparr> player := Player_new SidePlayer SidePlayer 7.5 7.8,
         ai := Player_new SideAI SideAI 7.5 3.8,
         ball := Ball_new\<lparr> b_x := -1, b_y := 7, b_z := 0.12, b_state := Free,
                          holderId := Some SidePlayer, isOutOfBounds := True \<rparr>,
         aiController := (AIController_new (Player_new SideAI SideAI 7.5 4.2) ''STANDARD'')
                           \<lparr> decisionTimer := 0.1 \<rparr>,
         rules := (Rules_new settings_default)
                    \<lparr> gameState := LiveBall, shotClockActive := True \<rparr>,
         outOfBoundsTimer := Some 0.01 \<rparr>"

definition scene_after_reset :: GameScene where
  "scene_after_reset =
     handlePause (GameScene_update (GameScene_enter settings_default) input_hold draws_zero (1 / 60))
       KeyR"

definition scene_steal :: GameScene where
  "scene_steal =
     (GameScene_enter settings_default)
       \<lparr> player := Player_new SidePlayer SidePlayer 7.5 5.7,
         ai := (Player_new SideAI SideAI 7.5 5)
                 \<lparr> hasBall := True, shotCharging := True, shotPower := 0.3 \<rparr>,
         ball := attachTo Ball_new SideAI 7.5 5,
         aiController := (AIController_new (Player_new SideAI SideAI 7.5 4.2) ''STANDARD'')
                           \<lparr> c_state := Shoot, decisionTimer := 0.1 \<rparr>,
         rules := (Rules_new settings_default)
                    \<lparr> possession := SideAI, gameState := LiveBall, shotClockActive := True \<rparr> \<rparr>"

definition scene_scored :: GameScene where
  "scene_scored =
     scene_pickup\<lparr> ball := (ball scene_pickup)
                      \<lparr> b_state := InFlight, holderId := Some SideAI, hasScored := True,
                        b_z := 2.9, b_vz := -3 \<rparr> \<rparr>"

text \<open>Two overlapping players, a quarter of a metre apart on the line \<open>y = 5\<close>.\<close>

definition c9_p1 :: Player where "c9_p1 = Player_new SidePlayer SidePlayer 3.75 5"
definition c9_p2 :: Player where "c9_p2 = Player_new SideAI SideAI 4 5"

section \<open>Facts about the configuration\<close>

lemmas config_defs =
  COURT_WIDTH_def COURT_LENGTH_def THREE_POINT_RADIUS_def FREE_THROW_DISTANCE_def
  RIM_RADIUS_def RIM_HEIGHT_def BACKBOARD_WIDTH_def BACKBOARD_HEIGHT_def
  BACKBOARD_DISTANCE_def WIN_SCORE_def FOUL_FREE_THROW_POINTS_def STEAL_COOLDOWN_def
  STEPBACK_COOLDOWN_def STEPBACK_INVULN_TIME_def SCORING_STREET_def SCORING_CLASSIC_def
  BASE_SPEED_def SPRINT_MULTIPLIER_def ACCELERATION_def FRICTION_def STAMINA_MAX_def
  STAMINA_SPRINT_DRAIN_def STAMINA_REGEN_def STAMINA_MIN_FOR_SPRINT_def PLAYER_RADIUS_def
  LOW_STAMINA_THRESHOLD_def LOW_STAMINA_SPEED_PENALTY_def LOW_STAMINA_ACCURACY_PENALTY_def
  BALL_RADIUS_def GRAVITY_def BOUNCE_FACTOR_def FRICTION_GROUND_def FRICTION_AIR_def
  MIN_SHOT_POWER_def MAX_SHOT_POWER_def POWER_CHARGE_RATE_def MAGNETIC_WINDOW_def
  SHOT_BASE_SPEED_def SHOT_DISTANCE_FACTOR_def DEFENSE_PRESS_DISTANCE_def
  CONTEST_DISTANCE_def FORCE_SHOT_TIME_def

section \<open>Rules: shot clock and scoring\<close>

text \<open>
  C3 (as stated: \<open>Rules.update(dt)\<close> lowers the shot clock by \<open>dt\<close> exactly when the clock
  is active in \<open>liveBall\<close>).  On the tick where the lowered clock reaches zero the
  violation handler runs inside the same call and the clock comes back at the configured
  duration: with 0.01 s left and a step of 1/60 s the clock reads 24 afterwards, not
  0.01 - 1/60.
\<close>

theorem C3_counterexample:
  "shotClockActive rules_expiring \<and> gameState rules_expiring = LiveBall
   \<and> shotClock rules_expiring = Fin (1 / 100)
   \<and> shotClock (Rules_update rules_expiring (1 / 60)) = Fin 24
   \<and> shotClock (Rules_update rules_expiring (1 / 60))
        \<noteq> clock_sub (shotClock rules_expiring) (1 / 60)"
  by (simp add: rules_expiring_def Rules_new_def settings_default_def Rules_update_def
        handleShotClockViolation_def changePossession_def resetShotClock_def Let_def)

text \<open>
  C3 (amended): \<open>Rules.update(dt)\<close> leaves the shot clock unchanged unless the clock is
  active and the game is in \<open>liveBall\<close>; in that case it subtracts \<open>dt\<close> (an unlimited
  clock stays unlimited), and when the result is \<open>\<le> 0\<close> the violation handler resets it
  to the configured duration in the same call.  \<open>changePossession\<close> always resets the
  clock to the configured duration and does not touch the settings, so an unlimited
  configuration stays unlimited.
\<close>

theorem C3_shot_clock:
  "shotClock (Rules_update r dt) =
     (if shotClockActive r \<and> gameState r = LiveBall
      then (if clock_le (clock_sub (shotClock r) dt) 0
            then shotClockDuration (settings r)
            else clock_sub (shotClock r) dt)
      else shotClock r)
   \<and> shotClock (changePossession r s) = shotClockDuration (settings r)
   \<and> settings (changePossession r s) = settings r
   \<and> settings (Rules_update r dt) = settings r"
  by (simp add: Rules_update_def handleShotClockViolation_def changePossession_def
        resetShotClock_def Let_def)

text \<open>
  C4: \<open>scorePoints(team, x, y)\<close> adds the preset's \<open>THREE_POINT\<close> value when the shot
  location is at distance \<open>\<ge> THREE_POINT_RADIUS\<close> from the rim and its \<open>INSIDE\<close> value
  otherwise, to the scoring team only; credits one make to that team; gives possession to
  the scoring team; disarms the shot clock; and leaves the game in \<open>gameOver\<close> when
  either updated score has reached \<open>WIN_SCORE\<close>, in \<open>checkBall\<close> otherwise.
\<close>

theorem C4_scorePoints:
  "let r' = scorePoints r tm x y;
       pts = (if distance x y (COURT_WIDTH / 2) BACKBOARD_DISTANCE \<ge> THREE_POINT_RADIUS
              then THREE_POINT (getScoringSystem (settings r))
              else INSIDE (getScoringSystem (settings r)))
   in playerScore r' = playerScore r + (if tm = SidePlayer then pts else 0)
    \<and> aiScore r' = aiScore r + (if tm = SideAI then pts else 0)
    \<and> playerMakes (rstats r') = playerMakes (rstats r) + (if tm = SidePlayer then 1 else 0)
    \<and> aiMakes (rstats r') = aiMakes (rstats r) + (if tm = SideAI then 1 else 0)
    \<and> possession r' = tm
    \<and> \<not> shotClockActive r'
    \<and> gameState r' =
        (if playerScore r' \<ge> WIN_SCORE \<or> aiScore r' \<ge> WIN_SCORE then GameOver else CheckBall)"
  by (cases tm)
     (simp_all add: scorePoints_def isThreePoint_def changePossession_def resetShotClock_def
        Let_def)

section \<open>Geometry helpers\<close>

lemma distance_nonneg: "0 \<le> distance x1 y1 x2 y2"
  by (simp add: distance_def Let_def)

lemma distance_sq: "(distance x1 y1 x2 y2)\<^sup>2 = (x2 - x1)\<^sup>2 + (y2 - y1)\<^sup>2"
  by (simp add: distance_def Let_def power2_eq_square)

lemma distance_same_y: "distance x1 y x2 y = \<bar>x2 - x1\<bar>"
  by (simp add: distance_def Let_def)

lemma distance_same_x: "distance x y1 x y2 = \<bar>y2 - y1\<bar>"
  by (simp add: distance_def Let_def)

lemma cos_sin_scaled: "sqrt ((cos a * h) * (cos a * h) + (sin a * h) * (sin a * h)) = \<bar>h\<bar>"
proof -
  have "(cos a * h) * (cos a * h) + (sin a * h) * (sin a * h) = ((cos a)\<^sup>2 + (sin a)\<^sup>2) * (h * h)"
    unfolding power2_eq_square by (simp only: algebra_simps)
  also have "\<dots> = h * h" by simp
  finally show ?thesis by simp
qed

section \<open>Ball: score detection\<close>

lemma hasScored_pre_rim [simp]:
  "hasScored (ball_integrate b dt) = hasScored b"
  "hasScored (ball_ground b) = hasScored b"
  "hasScored (ball_backboard b) = hasScored b"
  "hasScored (checkBounds b) = hasScored b"
  "hasScored (ball_dribble b dt) = hasScored b"
  by (simp_all add: ball_integrate_def ball_ground_def ball_backboard_def checkBounds_def
        ball_dribble_def reflectFromBackboard_def Let_def)

lemma b_state_steps [simp]:
  "b_state (ball_integrate b dt) = b_state b"
  "b_state (ball_rim b) = b_state b"
  "b_state (ball_backboard b) = b_state b"
  "b_state (checkBounds b) = b_state b"
  by (simp_all add: ball_integrate_def ball_rim_def ball_backboard_def checkBounds_def
        reflectFromBackboard_def Let_def)

lemma ball_ground_state: "b_state (ball_ground b) = InFlight \<Longrightarrow> b_state b = InFlight"
  by (simp add: ball_ground_def Let_def split: if_splits)

lemma ball_rim_keeps: "hasScored b \<Longrightarrow> ball_rim b = b"
  by (simp add: ball_rim_def)

lemma ball_rim_sets:
  "(\<not> hasScored m \<and> hasScored (ball_rim m)) =
     (b_state m = InFlight \<and> b_vz m < 0 \<and> \<not> hasScored m
      \<and> \<bar>b_z m - b_rimZ m\<bar> \<le> BALL_RADIUS * 2
      \<and> distance (b_x m) (b_y m) (b_rimX m) (b_rimY m) \<le> RIM_RADIUS + MAGNETIC_WINDOW)"
  by (auto simp add: ball_rim_def checkRimCollision_def Let_def)

lemma ball_rim_effect:
  "\<not> hasScored m \<Longrightarrow> hasScored (ball_rim m) \<Longrightarrow>
     ball_rim m = m\<lparr> hasScored := True, b_vz := b_vz m * 0.7 \<rparr>"
  by (simp add: ball_rim_def split: if_splits)

lemma hasScored_mono: "hasScored b \<Longrightarrow> hasScored (Ball_update b dt)"
  by (simp add: Ball_update_def ball_rim_keeps)

lemma backboard_vz:
  "b_vz (checkBounds (ball_backboard m)) =
     (if b_state m = InFlight \<and> checkBackboardCollision (b_x m) (b_y m) (b_z m) (b_rimX m) (b_rimY m)
      then b_vz m * 0.8 else b_vz m)"
  by (simp add: checkBounds_def ball_backboard_def reflectFromBackboard_def Let_def)

lemma scoreEvents_done: "hasScored b \<Longrightarrow> scoreEvents b dts = 0"
  by (induction dts arbitrary: b) (simp_all add: hasScored_mono)

lemma scoreEvents_le: "scoreEvents b dts \<le> 1"
proof (induction dts arbitrary: b)
  case Nil
  show ?case by simp
next
  case (Cons dt dts)
  show ?case
  proof (cases "hasScored (Ball_update b dt)")
    case True
    then show ?thesis by (simp add: scoreEvents_done)
  next
    case False
    with Cons.IH [of "Ball_update b dt"] show ?thesis by simp
  qed
qed

text \<open>
  C5: \<open>isScore()\<close> is true exactly when \<open>hasScored\<close> is set and the ball is below rim
  height.  An update switches \<open>hasScored\<close> on only for a ball in flight that, after the
  gravity and ground steps of that update, is descending, has not scored, lies within
  \<open>RIM_RADIUS + MAGNETIC_WINDOW\<close> of the rim centre in the plane and within twice the
  ball radius of rim height; the rim contact then only sets the flag and multiplies
  \<open>vz\<close> by 0.7, so the ball stays in flight and keeps falling.  Once the flag is set the
  rim test is skipped, so along any sequence of updates of one flight the flag is
  switched on at most once.
\<close>

theorem C5_score_detection:
  "isScore b = (hasScored b \<and> b_z b < b_rimZ b)
   \<and> (let m = ball_ground (ball_integrate b dt);
           b' = Ball_update b dt
       in (\<not> hasScored b \<and> hasScored b' \<longrightarrow>
             b_state b = InFlight \<and> b_state m = InFlight \<and> b_vz m < 0 \<and> \<not> hasScored m
           \<and> distance (b_x m) (b_y m) (b_rimX m) (b_rimY m) \<le> RIM_RADIUS + MAGNETIC_WINDOW
           \<and> \<bar>b_z m - b_rimZ m\<bar> \<le> 2 * BALL_RADIUS
           \<and> ball_rim m = m\<lparr> hasScored := True, b_vz := b_vz m * 0.7 \<rparr>
           \<and> b_state b' = InFlight \<and> b_vz b' < 0)
        \<and> (hasScored b \<longrightarrow> hasScored b' \<and> ball_rim m = m))
   \<and> scoreEvents b dts \<le> 1"
proof -
  define m where "m = ball_ground (ball_integrate b dt)"
  have hm: "hasScored m = hasScored b" by (simp add: m_def)
  have upd: "b_state b \<noteq> Held \<Longrightarrow> Ball_update b dt = checkBounds (ball_backboard (ball_rim m))"
    by (simp add: Ball_update_def m_def)
  have held: "b_state b = Held \<Longrightarrow> hasScored (Ball_update b dt) = hasScored b"
    by (simp add: Ball_update_def)
  have set: "b_state b = InFlight \<and> b_state m = InFlight \<and> b_vz m < 0 \<and> \<not> hasScored m
           \<and> distance (b_x m) (b_y m) (b_rimX m) (b_rimY m) \<le> RIM_RADIUS + MAGNETIC_WINDOW
           \<and> \<bar>b_z m - b_rimZ m\<bar> \<le> 2 * BALL_RADIUS
           \<and> ball_rim m = m\<lparr> hasScored := True, b_vz := b_vz m * 0.7 \<rparr>
           \<and> b_state (Ball_update b dt) = InFlight \<and> b_vz (Ball_update b dt) < 0"
    if a: "\<not> hasScored b" "hasScored (Ball_update b dt)"
  proof -
    from a held have nh: "b_state b \<noteq> Held" by auto
    from a upd[OF nh] hm have s: "\<not> hasScored m \<and> hasScored (ball_rim m)" by simp
    then have c: "b_state m = InFlight" "b_vz m < 0"
      "\<bar>b_z m - b_rimZ m\<bar> \<le> BALL_RADIUS * 2"
      "distance (b_x m) (b_y m) (b_rimX m) (b_rimY m) \<le> RIM_RADIUS + MAGNETIC_WINDOW"
      unfolding ball_rim_sets by simp_all
    from c(1) have pre: "b_state b = InFlight"
      using ball_ground_state[of "ball_integrate b dt"] by (simp add: m_def)
    from s have eff: "ball_rim m = m\<lparr> hasScored := True, b_vz := b_vz m * 0.7 \<rparr>"
      by (simp add: ball_rim_effect)
    have vz: "b_vz (Ball_update b dt) < 0"
      using c(2) by (simp add: upd[OF nh] backboard_vz eff)
    show ?thesis
      using s c pre eff vz by (simp add: upd[OF nh] mult.commute)
  qed
  have keep: "hasScored (Ball_update b dt) \<and> ball_rim m = m" if "hasScored b"
    using that hm by (simp add: hasScored_mono ball_rim_keeps)
  show ?thesis
    unfolding Let_def m_def[symmetric]
    using set keep scoreEvents_le[of b dts] by (simp add: isScore_def)
qed

theorem C5_witness:
  "\<not> hasScored ball_at_rim \<and> hasScored (Ball_update ball_at_rim (1 / 60))
   \<and> b_state ball_at_rim = InFlight
   \<and> b_state (Ball_update ball_at_rim (1 / 60)) = InFlight
   \<and> b_vz (Ball_update ball_at_rim (1 / 60)) < 0
   \<and> hasScored (Ball_update (Ball_update ball_at_rim (1 / 60)) (1 / 60))
   \<and> scoreEvents ball_at_rim [1 / 60, 1 / 60] \<le> 1"
proof -
  have s: "hasScored (Ball_update ball_at_rim (1 / 60))"
    by (simp add: ball_at_rim_def Ball_new_def Ball_update_def ball_integrate_def
          ball_ground_def ball_rim_def checkRimCollision_def distance_def Let_def config_defs)
  have n: "\<not> hasScored ball_at_rim" by (simp add: ball_at_rim_def Ball_new_def)
  from s n C5_score_detection [of ball_at_rim "1 / 60" "[1 / 60, 1 / 60]"]
       C5_score_detection [of "Ball_update ball_at_rim (1 / 60)" "1 / 60" "[]"]
  show ?thesis by (simp add: Let_def)
qed

section \<open>Player: shooting and stealing\<close>

text \<open>
  C6: \<open>executeShot()\<close> returns \<open>null\<close> and leaves the player as it is unless
  \<open>shotCharging\<close> and \<open>hasBall\<close> both hold; otherwise it returns a launch vector
  pointing at the rim whose horizontal speed is \<open>shotPower\<close> times
  \<open>SHOT_BASE_SPEED + distance * SHOT_DISTANCE_FACTOR\<close> times the accuracy factor (the
  low-stamina penalty exactly when stamina is below the threshold, 1 otherwise), and
  clears \<open>hasBall\<close> and \<open>shotCharging\<close> and nothing else.  The function has the player
  as its only state, so no field of the ball is written.
\<close>

theorem C6_executeShot:
  "let p' = fst (executeShot p);
       res = snd (executeShot p);
       d = distance (p_x p) (p_y p) (p_rimX p) (p_rimY p);
       accuracy = (if stamina p < LOW_STAMINA_THRESHOLD then LOW_STAMINA_ACCURACY_PENALTY else 1);
       h = shotPower p * (SHOT_BASE_SPEED + d * SHOT_DISTANCE_FACTOR) * accuracy
   in (\<not> (shotCharging p \<and> hasBall p) \<longrightarrow> res = None \<and> p' = p)
    \<and> (shotCharging p \<and> hasBall p \<longrightarrow>
         (\<exists>s. res = Some s
            \<and> s_vx s = cos (angleTo (p_x p) (p_y p) (p_rimX p) (p_rimY p)) * h
            \<and> s_vy s = sin (angleTo (p_x p) (p_y p) (p_rimX p) (p_rimY p)) * h
            \<and> sqrt (s_vx s * s_vx s + s_vy s * s_vy s) = \<bar>h\<bar>
            \<and> (0 \<le> shotPower p \<longrightarrow> sqrt (s_vx s * s_vx s + s_vy s * s_vy s) = h)
            \<and> power s = shotPower p)
         \<and> p' = p\<lparr> shotCharging := False, hasBall := False \<rparr>)"
proof -
  define d where "d = distance (p_x p) (p_y p) (p_rimX p) (p_rimY p)"
  define a where
    "a = (if stamina p < LOW_STAMINA_THRESHOLD then LOW_STAMINA_ACCURACY_PENALTY else 1)"
  define h where "h = shotPower p * (SHOT_BASE_SPEED + d * SHOT_DISTANCE_FACTOR) * a"
  define ang where "ang = angleTo (p_x p) (p_y p) (p_rimX p) (p_rimY p)"
  have "0 \<le> d" by (simp add: d_def distance_nonneg)
  then have b: "0 \<le> SHOT_BASE_SPEED + d * SHOT_DISTANCE_FACTOR"
    by (simp add: SHOT_BASE_SPEED_def SHOT_DISTANCE_FACTOR_def)
  have a: "0 \<le> a" by (simp add: a_def LOW_STAMINA_ACCURACY_PENALTY_def)
  have hh: "0 \<le> shotPower p \<Longrightarrow> \<bar>h\<bar> = h"
    using a b by (simp add: h_def)
  have no: "\<not> (shotCharging p \<and> hasBall p) \<Longrightarrow> executeShot p = (p, None)"
    by (auto simp add: executeShot_def)
  have yes: "shotCharging p \<and> hasBall p \<Longrightarrow>
      executeShot p = (p\<lparr> shotCharging := False, hasBall := False \<rparr>,
         Some \<lparr> s_vx = cos ang * h, s_vy = sin ang * h,
                s_vz = sqrt (2 * GRAVITY * RIM_HEIGHT) * (0.8 + shotPower p * 0.4),
                power = shotPower p \<rparr>)"
    by (simp add: executeShot_def calculateOptimalShotPower_def Let_def h_def d_def a_def ang_def)
  show ?thesis
    unfolding Let_def d_def[symmetric] a_def[symmetric] h_def[symmetric] ang_def[symmetric]
    using no yes hh by (cases "shotCharging p \<and> hasBall p") (simp_all add: cos_sin_scaled)
qed

theorem C6_witness:
  "(\<exists>s. snd (executeShot shooter) = Some s
        \<and> sqrt (s_vx s * s_vx s + s_vy s * s_vy s) = 3.75 \<and> power s = 0.5)
   \<and> fst (executeShot shooter) = shooter\<lparr> shotCharging := False, hasBall := False \<rparr>
   \<and> executeShot (shooter\<lparr> shotCharging := False \<rparr>) = (shooter\<lparr> shotCharging := False \<rparr>, None)"
  using C6_executeShot [of shooter] C6_executeShot [of "shooter\<lparr> shotCharging := False \<rparr>"]
  by (auto simp add: shooter_def Player_new_def distance_same_x Let_def prod_eq_iff config_defs)

text \<open>
  C7: \<open>attemptSteal(target)\<close> returns false with the attacker's cooldown unchanged
  exactly when the attempt is rejected (cooldown active, target without the ball, target
  invulnerable, or distance above three player radii); a rejected attempt changes
  nothing.  Otherwise the cooldown is set to \<open>STEAL_COOLDOWN\<close> and the attempt succeeds
  exactly when the uniform draw is below \<open>0.3 * (1 - distance / (3 * radius))\<close>, a
  chance between 0 and 0.3 that is linear in the distance and 0 at the cutoff.
\<close>

theorem C7_attemptSteal:
  "let d = distance (p_x p) (p_y p) (p_x t) (p_y t);
       rejected = (stealCooldown p > 0 \<or> \<not> hasBall t \<or> invulnerableTime t > 0
                   \<or> d > 3 * PLAYER_RADIUS);
       chance = 0.3 * (1 - d / (3 * PLAYER_RADIUS));
       p' = fst (attemptSteal roll p t);
       ok = snd (attemptSteal roll p t)
   in ((\<not> ok \<and> stealCooldown p' = stealCooldown p) = rejected)
    \<and> (rejected \<longrightarrow> p' = p \<and> \<not> ok)
    \<and> (\<not> rejected \<longrightarrow>
          p' = p\<lparr> stealCooldown := STEAL_COOLDOWN \<rparr>
        \<and> ok = (roll < chance)
        \<and> 0 \<le> chance \<and> chance \<le> 0.3
        \<and> (d = 3 * PLAYER_RADIUS \<longrightarrow> chance = 0))"
  by (auto simp add: attemptSteal_def stealChance_def Let_def PLAYER_RADIUS_def
        STEAL_COOLDOWN_def distance_nonneg mult_ac)

theorem C7_witness:
  "snd (attemptSteal 0.1 thief carrier)
   \<and> fst (attemptSteal 0.1 thief carrier) = thief\<lparr> stealCooldown := 0.7 \<rparr>
   \<and> \<not> snd (attemptSteal 0.25 thief carrier)
   \<and> fst (attemptSteal 0.25 thief carrier) = thief\<lparr> stealCooldown := 0.7 \<rparr>
   \<and> attemptSteal 0.1 (thief\<lparr> stealCooldown := 0.3 \<rparr>) carrier
        = (thief\<lparr> stealCooldown := 0.3 \<rparr>, False)"
  using C7_attemptSteal [of thief carrier "0.1"] C7_attemptSteal [of thief carrier "0.25"]
        C7_attemptSteal [of "thief\<lparr> stealCooldown := 0.3 \<rparr>" carrier "0.1"]
  by (simp add: thief_def carrier_def Player_new_def distance_same_y PLAYER_RADIUS_def
        STEAL_COOLDOWN_def Let_def prod_eq_iff)

section \<open>Player-player collision\<close>

subsection \<open>Rounding to binary64\<close>

lemma round_even_err: "\<bar>of_int (round_even q) - q\<bar> \<le> 1 / 2"
  unfolding round_even_def Let_def by (auto; linarith)

lemma round_even_unique: "\<bar>q - of_int n\<bar> < 1 / 2 \<Longrightarrow> round_even q = n"
proof -
  assume a: "\<bar>q - of_int n\<bar> < 1 / 2"
  have "\<bar>of_int (round_even q) - q\<bar> \<le> 1 / 2" by (rule round_even_err)
  with a have "\<bar>(of_int (round_even q) :: real) - of_int n\<bar> < 1" by linarith
  then have "\<bar>round_even q - n\<bar> < 1" by (metis of_int_abs of_int_diff of_int_less_1_iff)
  then show ?thesis by simp
qed

lemma round_even_int [simp]: "round_even (of_int n) = n"
  by (rule round_even_unique) simp

lemma fl_zero [simp]: "fl 0 = 0"
  by (simp add: fl_def)

lemma fl_err_ulp: "\<bar>fl x - x\<bar> \<le> 2 powr of_int (ulp_exp x) / 2"
proof (cases "x = 0")
  case True
  then show ?thesis by simp
next
  case False
  define w :: real where "w = 2 powr of_int (ulp_exp x)"
  have w: "0 < w" by (simp add: w_def)
  have "fl x - x = (of_int (round_even (x / w)) - x / w) * w"
    using False w by (simp add: fl_def w_def[symmetric] field_simps)
  then have "\<bar>fl x - x\<bar> = \<bar>of_int (round_even (x / w)) - x / w\<bar> * w"
    using w by (simp add: abs_mult)
  also have "\<dots> \<le> 1 / 2 * w"
    using w round_even_err[of "x / w"] by (intro mult_right_mono) simp_all
  finally show ?thesis by (simp add: w_def)
qed

lemma fl_rel:
  assumes "tiny \<le> \<bar>x\<bar>"
  shows "\<bar>fl x - x\<bar> \<le> eps * \<bar>x\<bar>"
proof -
  have "0 < tiny" by (simp add: tiny_def)
  with assms have pos: "0 < \<bar>x\<bar>" by linarith
  have "- 1022 \<le> log 2 \<bar>x\<bar>"
    using assms pos by (simp add: tiny_def le_log_iff)
  then have "- 1022 \<le> \<lfloor>log 2 \<bar>x\<bar>\<rfloor>" by (simp add: le_floor_iff)
  then have e: "ulp_exp x = \<lfloor>log 2 \<bar>x\<bar>\<rfloor> - 52" by (simp add: ulp_exp_def)
  have "(2::real) powr of_int \<lfloor>log 2 \<bar>x\<bar>\<rfloor> \<le> 2 powr log 2 \<bar>x\<bar>"
    by (intro powr_mono) simp_all
  also have "\<dots> = \<bar>x\<bar>" using pos by simp
  finally have p: "(2::real) powr of_int \<lfloor>log 2 \<bar>x\<bar>\<rfloor> \<le> \<bar>x\<bar>" .
  have "(2::real) powr of_int (ulp_exp x) = 2 powr of_int \<lfloor>log 2 \<bar>x\<bar>\<rfloor> * 2 powr (- 52)"
    by (simp add: e powr_diff powr_minus field_simps)
  also have "\<dots> \<le> \<bar>x\<bar> * 2 powr (- 52)"
    using p by (intro mult_right_mono) simp_all
  finally have "(2::real) powr of_int (ulp_exp x) / 2 \<le> \<bar>x\<bar> * 2 powr (- 52) / 2" by simp
  also have "\<dots> = eps * \<bar>x\<bar>" by (simp add: eps_def powr_neg_numeral)
  finally show ?thesis using fl_err_ulp[of x] by linarith
qed

lemma fl_abs: "\<bar>fl x - x\<bar> \<le> eps * (\<bar>x\<bar> + tiny)"
proof (cases "tiny \<le> \<bar>x\<bar>")
  case True
  have "0 \<le> eps * tiny" by (simp add: eps_def tiny_def)
  with fl_rel[OF True] show ?thesis by (simp add: algebra_simps)
next
  case False
  show ?thesis
  proof (cases "x = 0")
    case True
    then show ?thesis by (simp add: eps_def tiny_def)
  next
    case nz: False
    have "\<bar>x\<bar> < 2 powr (- 1022)" using False by (simp add: tiny_def)
    then have "log 2 \<bar>x\<bar> < - 1022"
      using nz by (simp add: log_less_iff)
    then have "\<lfloor>log 2 \<bar>x\<bar>\<rfloor> \<le> - 1022" by (simp add: floor_le_iff)
    then have e: "ulp_exp x = - 1074" by (simp add: ulp_exp_def)
    have "(2::real) powr of_int (ulp_exp x) / 2 = eps * tiny"
      by (simp add: e eps_def tiny_def powr_neg_numeral)
    then have "\<bar>fl x - x\<bar> \<le> eps * tiny" using fl_err_ulp[of x] by simp
    moreover have "0 \<le> eps * \<bar>x\<bar>" by (simp add: eps_def)
    ultimately show ?thesis by (simp add: algebra_simps)
  qed
qed

lemma ulp_exp_eval:
  assumes "2 powr of_int e \<le> \<bar>x\<bar>" "\<bar>x\<bar> < 2 powr (of_int e + 1)" "- 1022 \<le> e"
  shows "ulp_exp x = e - 52"
proof -
  have "(0::real) < 2 powr of_int e" by simp
  with assms(1) have pos: "0 < \<bar>x\<bar>" by linarith
  have "\<lfloor>log 2 \<bar>x\<bar>\<rfloor> = e"
    using assms(1,2) pos by (simp add: floor_eq_iff le_log_iff log_less_iff)
  then show ?thesis using assms(3) by (simp add: ulp_exp_def)
qed

lemma fl_eval:
  assumes "2 powr of_int e \<le> \<bar>x\<bar>" "\<bar>x\<bar> < 2 powr (of_int e + 1)" "- 1022 \<le> e"
    and "round_even (x / 2 powr of_int (e - 52)) = n"
  shows "fl x = of_int n * 2 powr of_int (e - 52)"
proof -
  have "(0::real) < 2 powr of_int e" by simp
  with assms(1) have "x \<noteq> 0" by auto
  then show ?thesis
    using assms(4) by (simp add: fl_def ulp_exp_eval[OF assms(1-3)])
qed

lemma round_even_frac:
  "round_even (numeral a / numeral b) =
     (let f = (numeral a :: int) div numeral b; r2 = 2 * ((numeral a :: int) mod numeral b)
      in if r2 < numeral b then f else if r2 > numeral b then f + 1
         else if even f then f else f + 1)"
proof -
  define A :: int where "A = numeral a"
  define B :: int where "B = numeral b"
  have B: "0 < B" by (simp add: B_def)
  have fl: "\<lfloor>real_of_int A / real_of_int B\<rfloor> = A div B"
    by (simp add: floor_divide_of_int_eq)
  have "A = A div B * B + A mod B" by simp
  then have "real_of_int A = real_of_int (A div B * B + A mod B)" by (rule arg_cong)
  also have "\<dots> = real_of_int (A div B) * real_of_int B + real_of_int (A mod B)"
    by (simp only: of_int_add of_int_mult)
  finally have fr: "real_of_int A / real_of_int B - real_of_int (A div B)
                      = real_of_int (A mod B) / real_of_int B"
    using B by (simp add: field_simps)
  have h: "(real_of_int (A mod B) * 2 < real_of_int B) = (2 * (A mod B) < B)"
          "(real_of_int B < real_of_int (A mod B) * 2) = (B < 2 * (A mod B))"
    unfolding of_int_less_iff[symmetric, where ?'a = real] by (simp_all add: mult.commute)
  have c1: "(real_of_int (A mod B) / real_of_int B < 1 / 2) = (2 * (A mod B) < B)"
    using B h by (simp add: field_simps)
  have c2: "(real_of_int (A mod B) / real_of_int B > 1 / 2) = (2 * (A mod B) > B)"
    using B h by (simp add: field_simps)
  have "round_even (real_of_int A / real_of_int B) =
     (let f = A div B; r2 = 2 * (A mod B)
      in if r2 < B then f else if r2 > B then f + 1 else if even f then f else f + 1)"
    unfolding round_even_def Let_def fl fr c1 c2 by simp
  then show ?thesis unfolding A_def B_def of_int_numeral .
qed

lemma fl_035: "fl 0.35 = 6305039478318694 / 2 ^ 54"
proof -
  have "fl 0.35 = of_int 6305039478318694 * 2 powr of_int (- 2 - 52)"
    by (rule fl_eval) (simp_all add: powr_neg_numeral round_even_frac Let_def)
  then show ?thesis by (simp add: powr_neg_numeral)
qed

lemma round_even_numeral [simp]: "round_even (numeral n) = numeral n"
  using round_even_int [of "numeral n"] by simp

lemma round_even_one [simp]: "round_even 1 = 1"
  using round_even_int [of 1] by simp

subsection \<open>The example, evaluated in binary64\<close>

lemma fl_quarter: "fl (1 / 4) = 1 / 4"
proof -
  have "fl (1 / 4) = of_int 4503599627370496 * 2 powr of_int (- 2 - 52)"
    by (rule fl_eval) (simp_all add: powr_neg_numeral round_even_frac Let_def)
  then show ?thesis by (simp add: powr_neg_numeral)
qed

lemma fl_sixteenth: "fl (1 / 16) = 1 / 16"
proof -
  have "fl (1 / 16) = of_int 4503599627370496 * 2 powr of_int (- 4 - 52)"
    by (rule fl_eval) (simp_all add: powr_neg_numeral round_even_frac Let_def)
  then show ?thesis by (simp add: powr_neg_numeral)
qed

lemma fl_one: "fl 1 = 1"
proof -
  have "fl 1 = of_int 4503599627370496 * 2 powr of_int (0 - 52)"
    by (rule fl_eval) (simp_all add: powr_neg_numeral round_even_frac Let_def)
  then show ?thesis by (simp add: powr_neg_numeral)
qed

lemma fl_five: "fl 5 = 5"
proof -
  have "fl 5 = of_int 5629499534213120 * 2 powr of_int (2 - 52)"
    by (rule fl_eval) (simp_all add: powr_neg_numeral round_even_frac Let_def)
  then show ?thesis by (simp add: powr_neg_numeral)
qed

lemma sqrt_sixteenth: "sqrt (1 / 16) = 1 / 4"
  by (rule real_sqrt_unique) (simp_all add: power2_eq_square)

lemma fl_radius: "fl (7 / 20) = 3152519739159347 / 2 ^ 53"
proof -
  have "fl (7 / 20) = of_int 6305039478318694 * 2 powr of_int (- 2 - 52)"
    by (rule fl_eval) (simp_all add: powr_neg_numeral round_even_frac Let_def)
  then show ?thesis by (simp add: powr_neg_numeral)
qed

lemma fl_minDist: "fl (3152519739159347 / 2 ^ 52) = 3152519739159347 / 2 ^ 52"
proof -
  have "fl (3152519739159347 / 2 ^ 52) = of_int 6305039478318694 * 2 powr of_int (- 1 - 52)"
    by (rule fl_eval) (simp_all add: powr_neg_numeral round_even_frac Let_def)
  then show ?thesis by (simp add: powr_neg_numeral)
qed

lemma minDist_value: "fl (fl (7 / 20) * 2) = 3152519739159347 / 2 ^ 52"
  using fl_minDist by (simp add: fl_radius)

lemma dist_c9: "distance_d (15 / 4) 5 4 5 = 1 / 4"
  by (simp add: distance_d_def Let_def fl_quarter fl_sixteenth sqrt_sixteenth)

lemma fl_overlap: "fl (2026619832316723 / 4503599627370496) = 2026619832316723 / 4503599627370496"
proof -
  have "fl (2026619832316723 / 4503599627370496)
          = of_int 8106479329266892 * 2 powr of_int (- 2 - 52)"
    by (rule fl_eval) (simp_all add: powr_neg_numeral round_even_frac Let_def)
  then show ?thesis by (simp add: powr_neg_numeral)
qed

lemma fl_push: "fl (2026619832316723 / 9007199254740992) = 2026619832316723 / 9007199254740992"
proof -
  have "fl (2026619832316723 / 9007199254740992)
          = of_int 8106479329266892 * 2 powr of_int (- 3 - 52)"
    by (rule fl_eval) (simp_all add: powr_neg_numeral round_even_frac Let_def)
  then show ?thesis by (simp add: powr_neg_numeral)
qed

lemma fl_left: "fl (31750377372961997 / 9007199254740992) = 7937594343240499 / 2 ^ 51"
proof -
  have "fl (31750377372961997 / 9007199254740992)
          = of_int 7937594343240499 * 2 powr of_int (1 - 52)"
    by (rule fl_eval) (simp_all add: powr_neg_numeral round_even_frac Let_def)
  then show ?thesis by (simp add: powr_neg_numeral)
qed

lemma fl_right: "fl (38055416851280691 / 9007199254740992) = 4756927106410086 / 2 ^ 50"
proof -
  have "fl (38055416851280691 / 9007199254740992)
          = of_int 4756927106410086 * 2 powr of_int (2 - 52)"
    by (rule fl_eval) (simp_all add: powr_neg_numeral round_even_frac Let_def)
  then show ?thesis by (simp add: powr_neg_numeral)
qed

lemma resolve_c9:
  "resolvePlayerCollision c9_p1 c9_p2 =
     Some (c9_p1\<lparr> p_x := 7937594343240499 / 2 ^ 51 \<rparr>,
           c9_p2\<lparr> p_x := 4756927106410086 / 2 ^ 50 \<rparr>)"
  by (simp add: resolvePlayerCollision_def Let_def js_div_def PLAYER_RADIUS_def
      c9_p1_def c9_p2_def Player_new_def dist_c9 minDist_value fl_quarter fl_one fl_five
      fl_overlap fl_push fl_left fl_right)

subsection \<open>Accumulated relative error\<close>

lemma eps_bounds: "0 < eps" "eps < 1" "0 \<le> 1 - eps" "0 < 1 - eps" "1 - eps \<le> 1"
  by (simp_all add: eps_def)

lemma tiny_small: "tiny \<le> 1 / 2 ^ 200" "0 < tiny" "tiny \<le> 1"
  by (simp_all add: tiny_def powr_neg_numeral)

lemma fl_rel_or: "x = 0 \<or> 1 / 2 ^ 200 \<le> \<bar>x\<bar> \<Longrightarrow> \<bar>fl x - x\<bar> \<le> eps * \<bar>x\<bar>"
proof (cases "x = 0")
  case True
  then show ?thesis by simp
next
  case False
  assume "x = 0 \<or> 1 / 2 ^ 200 \<le> \<bar>x\<bar>"
  with False have "1 / 2 ^ 200 \<le> \<bar>x\<bar>" by simp
  with tiny_small(1) have "tiny \<le> \<bar>x\<bar>" by linarith
  then show ?thesis by (rule fl_rel)
qed

lemma fl_abs_le: "\<bar>x\<bar> \<le> B \<Longrightarrow> \<bar>fl x - x\<bar> \<le> eps * (B + 1)"
proof -
  assume a: "\<bar>x\<bar> \<le> B"
  have "\<bar>fl x - x\<bar> \<le> eps * (\<bar>x\<bar> + tiny)" by (rule fl_abs)
  also have "\<dots> \<le> eps * (B + 1)"
    using a tiny_small(3) eps_bounds(1) by (intro mult_left_mono) simp_all
  finally show ?thesis .
qed

lemma near_nonneg: "near k x y \<Longrightarrow> 0 \<le> x \<Longrightarrow> 0 \<le> y"
proof -
  assume a: "near k x y" "0 \<le> x"
  have "0 \<le> (1 - eps) ^ k * x" using a(2) eps_bounds(3) by simp
  with a(1) show ?thesis by (simp add: near_def)
qed

lemma near_zero: "near k 0 y \<Longrightarrow> y = 0"
  by (simp add: near_def)

lemma near_refl: "near 0 x x"
  by (simp add: near_def)

lemma near_fl_pos:
  assumes w: "near k x y" and x: "0 \<le> x" and s: "y = 0 \<or> 1 / 2 ^ 200 \<le> y"
  shows "near (Suc k) x (fl y)"
proof -
  have y: "0 \<le> y" using w x by (rule near_nonneg)
  have "\<bar>fl y - y\<bar> \<le> eps * \<bar>y\<bar>" using s y by (intro fl_rel_or) auto
  then have f: "(1 - eps) * y \<le> fl y" "fl y \<le> (1 + eps) * y"
    using y by (simp_all add: algebra_simps abs_le_iff)
  have "(1 - eps) ^ Suc k * x = (1 - eps) * ((1 - eps) ^ k * x)" by simp
  also have "\<dots> \<le> (1 - eps) * y"
    using w eps_bounds(3) by (intro mult_left_mono) (simp_all add: near_def)
  finally have lo: "(1 - eps) ^ Suc k * x \<le> fl y" using f(1) by linarith
  have "fl y \<le> (1 + eps) * y" by (rule f(2))
  also have "\<dots> \<le> (1 + eps) * ((1 + eps) ^ k * x)"
    using w eps_bounds(1) by (intro mult_left_mono) (simp_all add: near_def)
  finally have hi: "fl y \<le> (1 + eps) ^ Suc k * x" by (simp add: mult.assoc)
  from lo hi show ?thesis by (simp add: near_def)
qed

lemma near_fl_abs:
  assumes s: "a = 0 \<or> 1 / 2 ^ 200 \<le> \<bar>a\<bar>"
  shows "near 1 \<bar>a\<bar> \<bar>fl a\<bar>"
proof -
  have "\<bar>fl a - a\<bar> \<le> eps * \<bar>a\<bar>" using s by (rule fl_rel_or)
  then show ?thesis by (simp add: near_def algebra_simps abs_le_iff) linarith
qed

lemma near_add:
  "near k x1 y1 \<Longrightarrow> near k x2 y2 \<Longrightarrow> near k (x1 + x2) (y1 + y2)"
  by (simp add: near_def algebra_simps) 

lemma near_square:
  assumes "near k x y" "0 \<le> x"
  shows "near (2 * k) (x * x) (y * y)"
proof -
  have y: "0 \<le> y" using assms by (rule near_nonneg)
  have lo0: "0 \<le> (1 - eps) ^ k * x" using assms(2) eps_bounds(3) by simp
  have "((1 - eps) ^ k * x) * ((1 - eps) ^ k * x) \<le> y * y"
    using assms(1) lo0 by (intro mult_mono) (simp_all add: near_def)
  moreover have "y * y \<le> ((1 + eps) ^ k * x) * ((1 + eps) ^ k * x)"
    using assms(1) y by (intro mult_mono) (simp_all add: near_def)
  ultimately show ?thesis
    by (simp add: near_def power_mult power2_eq_square algebra_simps)
qed

lemma sqrt_even_power: "0 \<le> c \<Longrightarrow> sqrt (c ^ (2 * k) * x) = c ^ k * sqrt x"
proof -
  assume c: "0 \<le> c"
  have "c ^ (2 * k) = (c ^ k)\<^sup>2" by (simp add: power_even_eq)
  then have "sqrt (c ^ (2 * k) * x) = sqrt ((c ^ k)\<^sup>2) * sqrt x" by (simp add: real_sqrt_mult)
  also have "\<dots> = c ^ k * sqrt x" using c by simp
  finally show ?thesis .
qed

lemma near_sqrt:
  assumes "near (2 * k) x y" "0 \<le> x"
  shows "near k (sqrt x) (sqrt y)"
proof -
  have a: "sqrt ((1 - eps) ^ (2 * k) * x) = (1 - eps) ^ k * sqrt x"
    using eps_bounds(3) by (rule sqrt_even_power)
  have b: "sqrt ((1 + eps) ^ (2 * k) * x) = (1 + eps) ^ k * sqrt x"
    using eps_bounds(1) by (intro sqrt_even_power) simp
  have "sqrt ((1 - eps) ^ (2 * k) * x) \<le> sqrt y" "sqrt y \<le> sqrt ((1 + eps) ^ (2 * k) * x)"
    using assms(1) by (simp_all add: near_def)
  then show ?thesis by (simp add: near_def a b)
qed

lemma pow_lower: "k \<le> 8 \<Longrightarrow> 1 / 2 \<le> (1 - eps) ^ k"
proof -
  assume k: "k \<le> 8"
  have "1 + real k * (- eps) \<le> (1 + (- eps)) ^ k"
    using eps_bounds by (intro Bernoulli_inequality) simp
  moreover have "real k * eps \<le> 8 * eps"
    using k eps_bounds(1) by (intro mult_right_mono) simp_all
  moreover have "8 * eps \<le> 1 / 2" by (simp add: eps_def)
  ultimately show ?thesis by simp
qed

lemma near_lower: "near k x y \<Longrightarrow> k \<le> 8 \<Longrightarrow> 0 \<le> x \<Longrightarrow> x / 2 \<le> y"
proof -
  assume a: "near k x y" "k \<le> 8" "0 \<le> x"
  have "1 / 2 * x \<le> (1 - eps) ^ k * x"
    using pow_lower[OF a(2)] a(3) by (intro mult_right_mono) simp_all
  with a(1) show ?thesis by (simp add: near_def)
qed

lemma near_S:
  assumes "near k x y" "k \<le> 8" "x = 0 \<or> 1 / 2 ^ 199 \<le> x"
  shows "y = 0 \<or> 1 / 2 ^ 200 \<le> y"
proof (cases "x = 0")
  case True
  with assms(1) show ?thesis by (simp add: near_zero)
next
  case False
  with assms(3) have x: "1 / 2 ^ 199 \<le> x" by simp
  then have "0 \<le> x" by (rule order_trans[rotated]) simp
  from near_lower[OF assms(1,2) this] x show ?thesis by simp
qed

subsection \<open>The computed distance\<close>

lemma grid_weaken: "x = 0 \<or> L \<le> x \<Longrightarrow> L' \<le> L \<Longrightarrow> x = 0 \<or> L' \<le> x"
  for x :: real
  by auto

lemma grid_S: "a = 0 \<or> 1 / 2 ^ 54 \<le> \<bar>a\<bar> \<Longrightarrow> a = 0 \<or> 1 / 2 ^ 200 \<le> \<bar>a\<bar>"
  for a :: real
proof -
  assume g: "a = 0 \<or> 1 / 2 ^ 54 \<le> \<bar>a\<bar>"
  have "(1::real) / 2 ^ 200 \<le> 1 / 2 ^ 54" by simp
  with g show ?thesis by linarith
qed

lemma grid_square: "a = 0 \<or> 1 / 2 ^ 54 \<le> \<bar>a\<bar> \<Longrightarrow> a * a = 0 \<or> 1 / 2 ^ 108 \<le> a * a"
  for a :: real
proof (cases "a = 0")
  case True
  then show ?thesis by simp
next
  case False
  assume "a = 0 \<or> 1 / 2 ^ 54 \<le> \<bar>a\<bar>"
  with False have g: "1 / 2 ^ 54 \<le> \<bar>a\<bar>" by simp
  have "(1 / 2 ^ 54) * (1 / 2 ^ 54) \<le> \<bar>a\<bar> * \<bar>a\<bar>"
    using g by (intro mult_mono) simp_all
  then show ?thesis by simp
qed

lemma square_near:
  assumes g: "a = 0 \<or> 1 / 2 ^ 54 \<le> \<bar>a\<bar>"
  shows "near 3 (a * a) (fl (fl a * fl a))"
proof -
  have n1: "near 1 \<bar>a\<bar> \<bar>fl a\<bar>" using grid_S[OF g] by (rule near_fl_abs)
  have "near (2 * 1) (\<bar>a\<bar> * \<bar>a\<bar>) (\<bar>fl a\<bar> * \<bar>fl a\<bar>)"
    using n1 by (rule near_square) simp
  then have n2: "near 2 (a * a) (fl a * fl a)" by simp
  have h: "a * a = 0 \<or> 1 / 2 ^ 199 \<le> a * a"
    by (rule grid_weaken[OF grid_square[OF g]]) simp
  have s: "fl a * fl a = 0 \<or> 1 / 2 ^ 200 \<le> fl a * fl a"
    by (rule near_S[OF n2 _ h]) simp
  have "near (Suc 2) (a * a) (fl (fl a * fl a))"
    using n2 _ s by (rule near_fl_pos) simp
  then show ?thesis by (simp add: numeral_3_eq_3)
qed

lemma distance_d_near:
  assumes ga: "x2 - x1 = 0 \<or> 1 / 2 ^ 54 \<le> \<bar>x2 - x1\<bar>"
      and gb: "y2 - y1 = 0 \<or> 1 / 2 ^ 54 \<le> \<bar>y2 - y1\<bar>"
  shows "near 3 (distance x1 y1 x2 y2) (distance_d x1 y1 x2 y2)"
    and "distance x1 y1 x2 y2 = 0 \<or> 1 / 2 ^ 54 \<le> distance x1 y1 x2 y2"
proof -
  define a where "a = x2 - x1"
  define b where "b = y2 - y1"
  define X where "X = fl (fl a * fl a)"
  define Y where "Y = fl (fl b * fl b)"
  have ga': "a = 0 \<or> 1 / 2 ^ 54 \<le> \<bar>a\<bar>" and gb': "b = 0 \<or> 1 / 2 ^ 54 \<le> \<bar>b\<bar>"
    using ga gb by (simp_all add: a_def b_def)
  have nX: "near 3 (a * a) X" and nY: "near 3 (b * b) Y"
    using ga' gb' by (simp_all add: X_def Y_def square_near)
  have n3: "near 3 (a * a + b * b) (X + Y)" using nX nY by (rule near_add)
  have sq: "0 \<le> a * a + b * b" by simp
  have g2: "a * a + b * b = 0 \<or> 1 / 2 ^ 108 \<le> a * a + b * b"
  proof -
    have "0 \<le> a * a" "0 \<le> b * b" by simp_all
    with grid_square[OF ga'] grid_square[OF gb'] show ?thesis
      by linarith
  qed
  have h3: "a * a + b * b = 0 \<or> 1 / 2 ^ 199 \<le> a * a + b * b"
    by (rule grid_weaken[OF g2]) simp
  have s3: "X + Y = 0 \<or> 1 / 2 ^ 200 \<le> X + Y"
    by (rule near_S[OF n3 _ h3]) simp
  have "near (Suc 3) (a * a + b * b) (fl (X + Y))"
    using n3 sq s3 by (rule near_fl_pos)
  then have "near (2 * 2) (a * a + b * b) (fl (X + Y))" by (simp add: eval_nat_numeral)
  then have n5: "near 2 (sqrt (a * a + b * b)) (sqrt (fl (X + Y)))"
    using sq by (rule near_sqrt)
  have d: "distance x1 y1 x2 y2 = sqrt (a * a + b * b)"
    by (simp add: distance_def a_def b_def Let_def)
  show g: "distance x1 y1 x2 y2 = 0 \<or> 1 / 2 ^ 54 \<le> distance x1 y1 x2 y2"
  proof (cases "a * a + b * b = 0")
    case True
    then show ?thesis by (simp add: d)
  next
    case False
    with g2 have "1 / 2 ^ 108 \<le> a * a + b * b" by blast
    then have "sqrt (1 / 2 ^ 108) \<le> sqrt (a * a + b * b)" by (rule real_sqrt_le_mono)
    moreover have "sqrt (1 / 2 ^ 108) = 1 / 2 ^ 54"
      by (rule real_sqrt_unique) (simp_all add: power2_eq_square)
    ultimately have "1 / 2 ^ 54 \<le> sqrt (a * a + b * b)" by (simp only:)
    then show ?thesis unfolding d by (rule disjI2)
  qed
  have h5: "sqrt (a * a + b * b) = 0 \<or> 1 / 2 ^ 199 \<le> sqrt (a * a + b * b)"
    by (rule grid_weaken[OF g[unfolded d]]) simp
  have s5: "sqrt (fl (X + Y)) = 0 \<or> 1 / 2 ^ 200 \<le> sqrt (fl (X + Y))"
    by (rule near_S[OF n5 _ h5]) simp
  have "near (Suc 2) (sqrt (a * a + b * b)) (fl (sqrt (fl (X + Y))))"
    using n5 _ s5 by (rule near_fl_pos) simp
  then show "near 3 (distance x1 y1 x2 y2) (distance_d x1 y1 x2 y2)"
    by (simp add: d distance_d_def Let_def X_def Y_def a_def b_def numeral_3_eq_3)
qed

lemma near3_abs:
  assumes "near 3 x y" "0 \<le> x"
  shows "\<bar>y - x\<bar> \<le> 4 * eps * x"
proof -
  have hi: "(1 + eps) ^ 3 \<le> 1 + 4 * eps"
    by (simp add: eps_def power3_eq_cube)
  have "1 + real 3 * (- eps) \<le> (1 + (- eps)) ^ 3"
    using eps_bounds by (intro Bernoulli_inequality) simp
  then have lo: "1 - 4 * eps \<le> (1 - eps) ^ 3" using eps_bounds(1) by simp
  have "(1 - 4 * eps) * x \<le> (1 - eps) ^ 3 * x"
    using lo assms(2) by (rule mult_right_mono)
  moreover have "(1 + eps) ^ 3 * x \<le> (1 + 4 * eps) * x"
    using hi assms(2) by (rule mult_right_mono)
  ultimately show ?thesis
    using assms(1) by (simp add: near_def algebra_simps abs_le_iff)
qed

subsection \<open>The computed push\<close>

lemma prod_err:
  fixes x y a b :: real
  assumes "\<bar>x - a\<bar> \<le> e" "\<bar>y - b\<bar> \<le> f" "\<bar>a\<bar> \<le> A" "\<bar>y\<bar> \<le> Y"
  shows "\<bar>x * y - a * b\<bar> \<le> Y * e + A * f"
proof -
  have e0: "0 \<le> e" and f0: "0 \<le> f" using assms(1,2) by linarith+
  have "x * y - a * b = (x - a) * y + a * (y - b)" by (simp add: algebra_simps)
  then have "\<bar>x * y - a * b\<bar> \<le> \<bar>(x - a) * y\<bar> + \<bar>a * (y - b)\<bar>"
    by (simp add: abs_triangle_ineq)
  also have "\<dots> = \<bar>x - a\<bar> * \<bar>y\<bar> + \<bar>a\<bar> * \<bar>y - b\<bar>" by (simp add: abs_mult)
  also have "\<dots> \<le> e * Y + A * f"
    using assms e0 f0 by (intro add_mono mult_mono) simp_all
  finally show ?thesis by (simp add: mult.commute)
qed

lemma push_axis:
  fixes a d dc m :: real
  assumes d: "0 < d" "d \<le> 1" and a: "\<bar>a\<bar> \<le> d"
      and ga: "a = 0 \<or> 1 / 2 ^ 54 \<le> \<bar>a\<bar>"
      and e2: "\<bar>dc - d\<bar> \<le> 4 * eps * d" and dpos: "0 < dc" and dm: "dc < m" and m: "m \<le> 1"
  shows "\<bar>fl (fl (fl (fl a / dc) * fl (m - dc)) * (1 / 2)) - a / d * (m - d) / 2\<bar> \<le> 20 * eps"
    and "\<bar>fl (fl (fl (fl a / dc) * fl (m - dc)) * (1 / 2))\<bar> \<le> 1"
proof -
  have e: "0 < eps" "eps \<le> 1 / 2 ^ 53" by (simp_all add: eps_def)
  define dx where "dx = fl a"
  have dx: "\<bar>dx - a\<bar> \<le> eps * \<bar>a\<bar>"
    unfolding dx_def using grid_S[OF ga] by (rule fl_rel_or)
  have dxd: "\<bar>dx - a\<bar> \<le> eps * d"
  proof -
    have "eps * \<bar>a\<bar> \<le> eps * d" using a e(1) by (intro mult_left_mono) simp_all
    with dx show ?thesis by linarith
  qed
  have dd: "0 \<le> d * d" "0 < d * d" using d by simp_all
  have "4 * eps * d \<le> d / 2"
  proof -
    have "4 * eps \<le> 1 / 2" by (simp add: eps_def)
    then have "4 * eps * d \<le> 1 / 2 * d" using d(1) by (intro mult_right_mono) simp_all
    then show ?thesis by simp
  qed
  with e2 have dclo: "d / 2 \<le> dc" by linarith
  define rho where "rho = dx / dc"
  have num: "\<bar>(dx - a) * d - a * (dc - d)\<bar> \<le> 5 * eps * (d * d)"
  proof -
    have "\<bar>(dx - a) * d - a * (dc - d)\<bar> \<le> \<bar>(dx - a) * d\<bar> + \<bar>a * (dc - d)\<bar>"
      by (rule abs_triangle_ineq4)
    also have "\<dots> = \<bar>dx - a\<bar> * d + \<bar>a\<bar> * \<bar>dc - d\<bar>"
      using d(1) by (simp add: abs_mult)
    also have "\<dots> \<le> (eps * d) * d + d * (4 * eps * d)"
      using dxd a e2 d(1) e(1) by (intro add_mono mult_mono) simp_all
    finally show ?thesis by (simp add: algebra_simps)
  qed
  have rho_eq: "rho - a / d = ((dx - a) * d - a * (dc - d)) / (dc * d)"
    using d(1) dpos by (simp add: rho_def field_simps)
  have den: "d * d / 2 \<le> dc * d"
  proof -
    have "d / 2 * d \<le> dc * d" using dclo d(1) by (intro mult_right_mono) simp_all
    then show ?thesis by simp
  qed
  have rho_err: "\<bar>rho - a / d\<bar> \<le> 10 * eps"
  proof -
    have pos: "0 < dc * d" using d(1) dpos by simp
    have "\<bar>rho - a / d\<bar> = \<bar>(dx - a) * d - a * (dc - d)\<bar> / (dc * d)"
      unfolding rho_eq abs_divide using pos by simp
    also have "\<dots> \<le> (5 * eps * (d * d)) / (dc * d)"
      using num pos by (intro divide_right_mono) simp_all
    also have "\<dots> \<le> (5 * eps * (d * d)) / (d * d / 2)"
      using den dd e(1) by (intro divide_left_mono) simp_all
    also have "\<dots> = 10 * eps" using d(1) by simp
    finally show ?thesis .
  qed
  have ad: "\<bar>a / d\<bar> \<le> 1" using a d(1) by simp
  have eps10: "10 * eps \<le> 1" "12 * eps \<le> 1" "6 * eps \<le> 1" "35 * eps \<le> 1"
    "20 * eps \<le> 1 / 2"
    by (simp_all add: eps_def)
  have rho_le: "\<bar>rho\<bar> \<le> 2" using rho_err ad eps10 by linarith
  have rho_S: "rho = 0 \<or> 1 / 2 ^ 200 \<le> \<bar>rho\<bar>"
  proof (cases "a = 0")
    case True
    then show ?thesis by (simp add: rho_def dx_def)
  next
    case False
    with ga have g: "1 / 2 ^ 54 \<le> \<bar>a\<bar>" by simp
    have "eps * \<bar>a\<bar> \<le> 1 / 2 * \<bar>a\<bar>"
      by (intro mult_right_mono) (simp_all add: eps_def)
    with dx have "\<bar>a\<bar> / 2 \<le> \<bar>dx\<bar>" by linarith
    with g have l: "1 / 2 ^ 55 \<le> \<bar>dx\<bar>" by simp
    have dc1: "dc \<le> 1" using dm m by simp
    have "\<bar>dx\<bar> \<le> \<bar>dx\<bar> / dc"
      using dpos dc1 by (simp add: field_simps mult_left_le_one_le)
    with l have "1 / 2 ^ 55 \<le> \<bar>dx\<bar> / dc" by linarith
    then have "1 / 2 ^ 55 \<le> \<bar>rho\<bar>" using dpos by (simp only: rho_def abs_divide abs_of_pos)
    then have "1 / 2 ^ 200 \<le> \<bar>rho\<bar>" by simp
    then show ?thesis by (rule disjI2)
  qed
  define nx where "nx = fl rho"
  have "\<bar>nx - rho\<bar> \<le> eps * \<bar>rho\<bar>" unfolding nx_def using rho_S by (rule fl_rel_or)
  also have "\<dots> \<le> eps * 2" using rho_le e(1) by (intro mult_left_mono) simp_all
  finally have nx_rho: "\<bar>nx - rho\<bar> \<le> 2 * eps" by simp
  have nx_err: "\<bar>nx - a / d\<bar> \<le> 12 * eps" using nx_rho rho_err by linarith
  define ov where "ov = fl (m - dc)"
  have "\<bar>m - dc\<bar> \<le> 1" using dm m dpos by simp
  then have "\<bar>ov - (m - dc)\<bar> \<le> eps * (1 + 1)" unfolding ov_def by (rule fl_abs_le)
  then have "\<bar>ov - (m - dc)\<bar> \<le> 2 * eps" by simp
  moreover have "\<bar>dc - d\<bar> \<le> 4 * eps"
  proof -
    have "4 * eps * d \<le> 4 * eps * 1" using d e(1) by (intro mult_left_mono) simp_all
    with e2 show ?thesis by simp
  qed
  ultimately have ov_err: "\<bar>ov - (m - d)\<bar> \<le> 6 * eps" by linarith
  have md: "\<bar>m - d\<bar> \<le> 1" using d dm dpos m by linarith
  have ov_le: "\<bar>ov\<bar> \<le> 2" using ov_err md eps10 by linarith
  have nx_le: "\<bar>nx\<bar> \<le> 2" using nx_err ad eps10 by linarith
  have "\<bar>nx * ov - a / d * (m - d)\<bar> \<le> 2 * (12 * eps) + 1 * (6 * eps)"
    using nx_err ov_err ad ov_le by (rule prod_err)
  then have pr: "\<bar>nx * ov - a / d * (m - d)\<bar> \<le> 30 * eps" by simp
  have "\<bar>nx * ov\<bar> \<le> 2 * 2" unfolding abs_mult using nx_le ov_le by (intro mult_mono) simp_all
  then have "\<bar>nx * ov\<bar> \<le> 4" by simp
  define t where "t = fl (nx * ov)"
  have "\<bar>t - nx * ov\<bar> \<le> eps * (4 + 1)"
    unfolding t_def using \<open>\<bar>nx * ov\<bar> \<le> 4\<close> by (rule fl_abs_le)
  then have "\<bar>t - nx * ov\<bar> \<le> 5 * eps" by simp
  with pr have t_err: "\<bar>t - a / d * (m - d)\<bar> \<le> 35 * eps" by linarith
  have ideal: "\<bar>a / d * (m - d)\<bar> \<le> 1"
  proof -
    have "\<bar>a / d * (m - d)\<bar> = \<bar>a / d\<bar> * \<bar>m - d\<bar>" by (rule abs_mult)
    also have "\<dots> \<le> 1 * 1" using ad md by (intro mult_mono) simp_all
    finally show ?thesis by simp
  qed
  have t_le: "\<bar>t * (1 / 2)\<bar> \<le> 1" using t_err ideal eps10 by linarith
  define pX where "pX = fl (t * (1 / 2))"
  have "\<bar>pX - t * (1 / 2)\<bar> \<le> eps * (1 + 1)" unfolding pX_def using t_le by (rule fl_abs_le)
  then have "\<bar>pX - t / 2\<bar> \<le> 2 * eps" by simp
  moreover define I where "I = a / d * (m - d)"
  ultimately have pI: "\<bar>pX - I / 2\<bar> \<le> 20 * eps" using t_err e(1) by linarith
  then have p_err: "\<bar>pX - a / d * (m - d) / 2\<bar> \<le> 20 * eps" by (simp only: I_def)
  have "\<bar>I\<bar> \<le> 1" using ideal by (simp only: I_def)
  then have p_le: "\<bar>pX\<bar> \<le> 1" using pI eps10(5) by linarith
  show "\<bar>fl (fl (fl (fl a / dc) * fl (m - dc)) * (1 / 2)) - a / d * (m - d) / 2\<bar> \<le> 20 * eps"
    using p_err by (simp add: pX_def t_def nx_def ov_def rho_def dx_def)
  show "\<bar>fl (fl (fl (fl a / dc) * fl (m - dc)) * (1 / 2))\<bar> \<le> 1"
    using p_le by (simp add: pX_def t_def nx_def ov_def rho_def dx_def)
qed

subsection \<open>The positions after the push\<close>

lemma repr_grid:
  assumes r: "fl x = x" and lo: "1 / 4 \<le> x"
  shows "\<exists>n::int. x = of_int n / 2 ^ 54"
proof -
  have x0: "x \<noteq> 0" "0 < x" using lo by simp_all
  define e where "e = ulp_exp x"
  have "(2::real) powr (of_int (- 2)) \<le> x" using lo by (simp add: powr_neg_numeral)
  then have "of_int (- 2) \<le> log 2 x" using x0 by (simp add: le_log_iff)
  then have "- 2 \<le> \<lfloor>log 2 x\<rfloor>" by (simp only: le_floor_iff)
  then have "- 2 \<le> \<lfloor>log 2 \<bar>x\<bar>\<rfloor>" using x0(2) by (simp only: abs_of_pos)
  then have e54: "- 54 \<le> e" unfolding e_def ulp_exp_def by linarith
  define k where "k = nat (e + 54)"
  have ek: "of_int e = real k - 54" using e54 by (simp add: k_def)
  have "(2::real) powr of_int e = 2 powr (real k) / 2 powr 54" by (simp add: ek powr_diff)
  also have "\<dots> = 2 ^ k / 2 ^ 54" by (simp add: powr_realpow)
  finally have p: "(2::real) powr of_int e = 2 ^ k / 2 ^ 54" .
  define N where "N = round_even (x / 2 powr of_int e)"
  have "x = of_int N * 2 powr of_int e"
    using r x0 by (simp add: fl_def N_def e_def)
  then have "x = of_int (N * 2 ^ k) / 2 ^ 54" by (simp add: p)
  then show ?thesis by blast
qed

lemma grid_diff:
  fixes x y :: real
  assumes "\<exists>n::int. x = of_int n / 2 ^ 54" "\<exists>n::int. y = of_int n / 2 ^ 54"
  shows "y - x = 0 \<or> 1 / 2 ^ 54 \<le> \<bar>y - x\<bar>"
proof -
  from assms obtain n m :: int where x: "x = of_int n / 2 ^ 54" and y: "y = of_int m / 2 ^ 54"
    by blast
  have yx: "y - x = of_int (m - n) / 2 ^ 54" by (simp add: x y diff_divide_distrib)
  show ?thesis
  proof (cases "m = n")
    case True
    then show ?thesis by (simp add: yx)
  next
    case False
    then have "1 \<le> \<bar>m - n\<bar>" by simp
    then have "(1::real) \<le> \<bar>of_int (m - n)\<bar>" by (simp only: of_int_abs[symmetric] of_int_1_le_iff)
    then have "1 / 2 ^ 54 \<le> \<bar>of_int (m - n)\<bar> / (2 ^ 54 :: real)" by (simp add: divide_right_mono)
    then have "1 / 2 ^ 54 \<le> \<bar>y - x\<bar>" by (simp add: yx)
    then show ?thesis by (rule disjI2)
  qed
qed

lemma distance_perturb:
  "\<bar>distance X1 Y1 X2 Y2 - sqrt (A\<^sup>2 + B\<^sup>2)\<bar> \<le> \<bar>X2 - X1 - A\<bar> + \<bar>Y2 - Y1 - B\<bar>"
proof -
  define u where "u = X2 - X1 - A"
  define v where "v = Y2 - Y1 - B"
  have D: "distance X1 Y1 X2 Y2 = sqrt ((A + u)\<^sup>2 + (B + v)\<^sup>2)"
    by (simp add: distance_def Let_def u_def v_def power2_eq_square)
  have s: "sqrt (u\<^sup>2 + v\<^sup>2) \<le> \<bar>u\<bar> + \<bar>v\<bar>" by (rule sqrt_sum_squares_le_sum_abs)
  have 1: "sqrt ((A + u)\<^sup>2 + (B + v)\<^sup>2) \<le> sqrt (A\<^sup>2 + B\<^sup>2) + sqrt (u\<^sup>2 + v\<^sup>2)"
    by (rule real_sqrt_sum_squares_triangle_ineq)
  have "sqrt (((A + u) + (- u))\<^sup>2 + ((B + v) + (- v))\<^sup>2)
          \<le> sqrt ((A + u)\<^sup>2 + (B + v)\<^sup>2) + sqrt ((- u)\<^sup>2 + (- v)\<^sup>2)"
    by (rule real_sqrt_sum_squares_triangle_ineq)
  then have 2: "sqrt (A\<^sup>2 + B\<^sup>2) \<le> sqrt ((A + u)\<^sup>2 + (B + v)\<^sup>2) + sqrt (u\<^sup>2 + v\<^sup>2)"
    by simp
  from 1 2 s show ?thesis unfolding D u_def[symmetric] v_def[symmetric] by linarith
qed

lemma ideal_distance:
  fixes a b m :: real
  assumes d: "d = sqrt (a\<^sup>2 + b\<^sup>2)" and pos: "0 < d" and m: "0 \<le> m"
  shows "sqrt ((a * m / d)\<^sup>2 + (b * m / d)\<^sup>2) = m"
proof -
  have dsq: "d\<^sup>2 = a\<^sup>2 + b\<^sup>2" unfolding d by simp
  have "(a * m / d)\<^sup>2 + (b * m / d)\<^sup>2 = (a\<^sup>2 + b\<^sup>2) * m\<^sup>2 / d\<^sup>2"
    by (simp add: power_divide power_mult_distrib add_divide_distrib algebra_simps)
  also have "\<dots> = m\<^sup>2" using pos by (simp add: dsq[symmetric])
  finally show ?thesis using m by simp
qed

lemma mid_err:
  fixes p q x y t e :: real
  assumes "\<bar>p - (x - t)\<bar> \<le> e" "\<bar>q - (y + t)\<bar> \<le> e"
  shows "\<bar>(p + q) / 2 - (x + y) / 2\<bar> \<le> e"
proof -
  define s where "s = p + q - (x + y)"
  have s: "\<bar>s\<bar> \<le> 2 * e" unfolding s_def using assms by linarith
  have "(p + q) / 2 - (x + y) / 2 = s / 2" unfolding s_def by (simp only: diff_divide_distrib)
  moreover have "\<bar>s / 2\<bar> \<le> e" using s by simp
  ultimately show ?thesis by (simp only:)
qed

lemma gap_err:
  fixes p q x y t i e f :: real
  assumes "\<bar>p - (x - t)\<bar> \<le> e" "\<bar>q - (y + t)\<bar> \<le> e" "\<bar>t - i / 2\<bar> \<le> f"
  shows "\<bar>q - p - (y - x + i)\<bar> \<le> 2 * e + 2 * f"
  using assms by linarith

lemma minDist_d_value: "minDist_d = 3152519739159347 / 2 ^ 52"
  by (simp add: minDist_d_def PLAYER_RADIUS_def minDist_value)

lemma resolve_bound:
  fixes x1 y1 x2 y2 :: real
  assumes ga: "x2 - x1 = 0 \<or> 1 / 2 ^ 54 \<le> \<bar>x2 - x1\<bar>"
      and gb: "y2 - y1 = 0 \<or> 1 / 2 ^ 54 \<le> \<bar>y2 - y1\<bar>"
      and bnd: "\<bar>x1\<bar> \<le> 16" "\<bar>y1\<bar> \<le> 16" "\<bar>x2\<bar> \<le> 16" "\<bar>y2\<bar> \<le> 16"
      and dc: "dc = distance_d x1 y1 x2 y2" and g: "0 < dc" "dc < minDist_d"
      and pX: "pX = push_d (x2 - x1) dc" and pY: "pY = push_d (y2 - y1) dc"
  shows "\<bar>distance (fl (x1 - pX)) (fl (y1 - pY)) (fl (x2 + pX)) (fl (y2 + pY)) - minDist_d\<bar>
           \<le> 1 / 2 ^ 45"
    and "\<bar>(fl (x1 - pX) + fl (x2 + pX)) / 2 - (x1 + x2) / 2\<bar> \<le> 1 / 2 ^ 48"
    and "\<bar>(fl (y1 - pY) + fl (y2 + pY)) / 2 - (y1 + y2) / 2\<bar> \<le> 1 / 2 ^ 48"
proof -
  define a where "a = x2 - x1"
  define b where "b = y2 - y1"
  define d where "d = distance x1 y1 x2 y2"
  define m where "m = minDist_d"
  have m1: "m \<le> 1" "0 \<le> m" "m \<le> 71 / 100" by (simp_all add: m_def minDist_d_value)
  have d_eq: "d = sqrt (a\<^sup>2 + b\<^sup>2)"
    by (simp add: d_def distance_def Let_def a_def b_def power2_eq_square)
  have d0: "0 \<le> d" unfolding d_eq by simp
  have n3: "near 3 d dc" unfolding d_def dc using ga gb by (rule distance_d_near(1))
  have dpos: "0 < d"
  proof (rule ccontr)
    assume "\<not> 0 < d"
    with d0 have "d = 0" by simp
    with n3 have "dc = 0" by (simp add: near_zero)
    with g(1) show False by simp
  qed
  have e2: "\<bar>dc - d\<bar> \<le> 4 * eps * d" using n3 d0 by (rule near3_abs)
  have eps4: "4 * eps \<le> 1 / 10" by (simp add: eps_def)
  have d1: "d \<le> 1"
  proof (rule ccontr)
    assume "\<not> d \<le> 1"
    then have "1 < d" by simp
    have "4 * eps * d \<le> 1 / 10 * d" using eps4 dpos by (intro mult_right_mono) simp_all
    with e2 have "d - d / 10 \<le> dc" by linarith
    with \<open>1 < d\<close> g(2) m1(3) show False by (simp add: m_def[symmetric])
  qed
  have ad: "\<bar>a\<bar> \<le> d" unfolding d_eq by (rule real_le_rsqrt) simp
  have bd: "\<bar>b\<bar> \<le> d" unfolding d_eq by (rule real_le_rsqrt) simp
  have half: "(0.5::real) = 1 / 2" by simp
  have px: "\<bar>pX - a / d * (m - d) / 2\<bar> \<le> 20 * eps" "\<bar>pX\<bar> \<le> 1"
    unfolding pX push_d_def half a_def[symmetric] m_def[symmetric]
    using dpos d1 ad ga[folded a_def] e2 g(1) g(2)[folded m_def] m1(1) by (rule push_axis)+
  have py: "\<bar>pY - b / d * (m - d) / 2\<bar> \<le> 20 * eps" "\<bar>pY\<bar> \<le> 1"
    unfolding pY push_d_def half b_def[symmetric] m_def[symmetric]
    using dpos d1 bd gb[folded b_def] e2 g(1) g(2)[folded m_def] m1(1) by (rule push_axis)+
  have r: "\<bar>fl z - z\<bar> \<le> 18 * eps" if "\<bar>z\<bar> \<le> 17" for z
  proof -
    from that have "\<bar>fl z - z\<bar> \<le> eps * (17 + 1)" by (rule fl_abs_le)
    then show ?thesis by simp
  qed
  have q1x: "\<bar>fl (x1 - pX) - (x1 - pX)\<bar> \<le> 18 * eps" using bnd px(2) by (intro r) linarith
  have q2x: "\<bar>fl (x2 + pX) - (x2 + pX)\<bar> \<le> 18 * eps" using bnd px(2) by (intro r) linarith
  have q1y: "\<bar>fl (y1 - pY) - (y1 - pY)\<bar> \<le> 18 * eps" using bnd py(2) by (intro r) linarith
  have q2y: "\<bar>fl (y2 + pY) - (y2 + pY)\<bar> \<le> 18 * eps" using bnd py(2) by (intro r) linarith
  have e36: "18 * eps \<le> 1 / 2 ^ 48" "152 * eps \<le> 1 / 2 ^ 45" by (simp_all add: eps_def)
  have "\<bar>(fl (x1 - pX) + fl (x2 + pX)) / 2 - (x1 + x2) / 2\<bar> \<le> 18 * eps"
    using q1x q2x by (rule mid_err)
  then show "\<bar>(fl (x1 - pX) + fl (x2 + pX)) / 2 - (x1 + x2) / 2\<bar> \<le> 1 / 2 ^ 48"
    using e36(1) by (rule order_trans)
  have "\<bar>(fl (y1 - pY) + fl (y2 + pY)) / 2 - (y1 + y2) / 2\<bar> \<le> 18 * eps"
    using q1y q2y by (rule mid_err)
  then show "\<bar>(fl (y1 - pY) + fl (y2 + pY)) / 2 - (y1 + y2) / 2\<bar> \<le> 1 / 2 ^ 48"
    using e36(1) by (rule order_trans)
  define Ix where "Ix = a / d * (m - d)"
  define Iy where "Iy = b / d * (m - d)"
  have Ax: "a * m / d = a + Ix" using dpos by (simp add: Ix_def field_simps)
  have Ay: "b * m / d = b + Iy" using dpos by (simp add: Iy_def field_simps)
  have pxI: "\<bar>pX - Ix / 2\<bar> \<le> 20 * eps" using px(1) by (simp only: Ix_def)
  have pyI: "\<bar>pY - Iy / 2\<bar> \<le> 20 * eps" using py(1) by (simp only: Iy_def)
  have "\<bar>fl (x2 + pX) - fl (x1 - pX) - (x2 - x1 + Ix)\<bar> \<le> 2 * (18 * eps) + 2 * (20 * eps)"
    using q1x q2x pxI by (rule gap_err)
  then have "\<bar>fl (x2 + pX) - fl (x1 - pX) - (a + Ix)\<bar> \<le> 76 * eps"
    by (simp add: a_def)
  then have ux: "\<bar>fl (x2 + pX) - fl (x1 - pX) - a * m / d\<bar> \<le> 76 * eps"
    by (simp only: Ax)
  have "\<bar>fl (y2 + pY) - fl (y1 - pY) - (y2 - y1 + Iy)\<bar> \<le> 2 * (18 * eps) + 2 * (20 * eps)"
    using q1y q2y pyI by (rule gap_err)
  then have "\<bar>fl (y2 + pY) - fl (y1 - pY) - (b + Iy)\<bar> \<le> 76 * eps"
    by (simp add: b_def)
  then have uy: "\<bar>fl (y2 + pY) - fl (y1 - pY) - b * m / d\<bar> \<le> 76 * eps"
    by (simp only: Ay)
  have "\<bar>distance (fl (x1 - pX)) (fl (y1 - pY)) (fl (x2 + pX)) (fl (y2 + pY))
          - sqrt ((a * m / d)\<^sup>2 + (b * m / d)\<^sup>2)\<bar>
        \<le> \<bar>fl (x2 + pX) - fl (x1 - pX) - a * m / d\<bar> + \<bar>fl (y2 + pY) - fl (y1 - pY) - b * m / d\<bar>"
    by (rule distance_perturb)
  also have "\<dots> \<le> 76 * eps + 76 * eps" using ux uy by (rule add_mono)
  also have "\<dots> \<le> 1 / 2 ^ 45" using e36(2) by simp
  finally have "\<bar>distance (fl (x1 - pX)) (fl (y1 - pY)) (fl (x2 + pX)) (fl (y2 + pY)) - m\<bar>
           \<le> 1 / 2 ^ 45"
    by (simp only: ideal_distance[OF d_eq dpos m1(2)])
  then show "\<bar>distance (fl (x1 - pX)) (fl (y1 - pY)) (fl (x2 + pX)) (fl (y2 + pY)) - minDist_d\<bar>
           \<le> 1 / 2 ^ 45"
    by (simp only: m_def)
qed

lemma fl_four: "fl 4 = 4"
proof -
  have "fl 4 = of_int 4503599627370496 * 2 powr of_int (2 - 52)"
    by (rule fl_eval) (simp_all add: powr_neg_numeral round_even_frac Let_def)
  then show ?thesis by (simp add: powr_neg_numeral)
qed

lemma fl_15_4: "fl (15 / 4) = 15 / 4"
proof -
  have "fl (15 / 4) = of_int 8444249301319680 * 2 powr of_int (1 - 52)"
    by (rule fl_eval) (simp_all add: powr_neg_numeral round_even_frac Let_def)
  then show ?thesis by (simp add: powr_neg_numeral)
qed

lemma court_c9: "court_d c9_p1" "court_d c9_p2"
  by (simp_all add: court_d_def c9_p1_def c9_p2_def Player_new_def fl_four fl_five fl_15_4)

lemma minDist_d_near: "\<bar>minDist_d - PLAYER_RADIUS * 2\<bar> \<le> 1 / 2 ^ 54"
  by (simp add: minDist_d_value PLAYER_RADIUS_def)

lemma court_grid:
  assumes "court_d p1" "court_d p2"
  shows "p_x p2 - p_x p1 = 0 \<or> 1 / 2 ^ 54 \<le> \<bar>p_x p2 - p_x p1\<bar>"
    and "p_y p2 - p_y p1 = 0 \<or> 1 / 2 ^ 54 \<le> \<bar>p_y p2 - p_y p1\<bar>"
    and "\<bar>p_x p1\<bar> \<le> 16" "\<bar>p_y p1\<bar> \<le> 16" "\<bar>p_x p2\<bar> \<le> 16" "\<bar>p_y p2\<bar> \<le> 16"
proof -
  have x1: "\<exists>n::int. p_x p1 = of_int n / 2 ^ 54" using assms(1) by (intro repr_grid) (simp_all add: court_d_def)
  have x2: "\<exists>n::int. p_x p2 = of_int n / 2 ^ 54" using assms(2) by (intro repr_grid) (simp_all add: court_d_def)
  have y1: "\<exists>n::int. p_y p1 = of_int n / 2 ^ 54" using assms(1) by (intro repr_grid) (simp_all add: court_d_def)
  have y2: "\<exists>n::int. p_y p2 = of_int n / 2 ^ 54" using assms(2) by (intro repr_grid) (simp_all add: court_d_def)
  show "p_x p2 - p_x p1 = 0 \<or> 1 / 2 ^ 54 \<le> \<bar>p_x p2 - p_x p1\<bar>" using x1 x2 by (rule grid_diff)
  show "p_y p2 - p_y p1 = 0 \<or> 1 / 2 ^ 54 \<le> \<bar>p_y p2 - p_y p1\<bar>" using y1 y2 by (rule grid_diff)
  show "\<bar>p_x p1\<bar> \<le> 16" "\<bar>p_y p1\<bar> \<le> 16" "\<bar>p_x p2\<bar> \<le> 16" "\<bar>p_y p2\<bar> \<le> 16"
    using assms by (simp_all add: court_d_def abs_le_iff)
qed

lemma resolve_apart:
  assumes "\<not> (0 < distance_d (p_x p1) (p_y p1) (p_x p2) (p_y p2)
              \<and> distance_d (p_x p1) (p_y p1) (p_x p2) (p_y p2) < minDist_d)"
  shows "resolvePlayerCollision p1 p2 = Some (p1, p2)"
  using assms by (auto simp add: resolvePlayerCollision_def Let_def minDist_d_def)

lemma resolve_overlap:
  assumes "0 < distance_d (p_x p1) (p_y p1) (p_x p2) (p_y p2)"
      and "distance_d (p_x p1) (p_y p1) (p_x p2) (p_y p2) < minDist_d"
  shows "resolvePlayerCollision p1 p2 =
     Some (p1\<lparr> p_x := fl (p_x p1 - push_d (p_x p2 - p_x p1) (distance_d (p_x p1) (p_y p1) (p_x p2) (p_y p2))),
               p_y := fl (p_y p1 - push_d (p_y p2 - p_y p1) (distance_d (p_x p1) (p_y p1) (p_x p2) (p_y p2))) \<rparr>,
           p2\<lparr> p_x := fl (p_x p2 + push_d (p_x p2 - p_x p1) (distance_d (p_x p1) (p_y p1) (p_x p2) (p_y p2))),
               p_y := fl (p_y p2 + push_d (p_y p2 - p_y p1) (distance_d (p_x p1) (p_y p1) (p_x p2) (p_y p2))) \<rparr>)"
  using assms by (simp add: resolvePlayerCollision_def Let_def js_div_def push_d_def minDist_d_def)

subsection \<open>The claim\<close>

text \<open>
  C9 (as stated: when \<open>0 < distance < 2 * radius\<close> the players are pushed apart so that
  afterwards their distance is exactly \<open>2 * radius\<close> and their midpoint is unchanged).
  The positions are binary64 values and each step of the computation is rounded.  For
  the players at \<open>(3.75, 5)\<close> and \<open>(4, 5)\<close>, the computed distance is \<open>0.25\<close> and the
  function stores \<open>x = 7937594343240499 / 2 ^ 51\<close> and \<open>x = 4756927106410086 / 2 ^ 50\<close>:
  the distance afterwards is \<open>2 ^ (- 52)\<close> below the program's \<open>minDist\<close> (and below
  \<open>0.7\<close>), so the players still overlap, and the midpoint has moved by \<open>2 ^ (- 52)\<close>.
\<close>

theorem C9_counterexample:
  "resolvePlayerCollision c9_p1 c9_p2 =
     Some (c9_p1\<lparr> p_x := 7937594343240499 / 2 ^ 51 \<rparr>, c9_p2\<lparr> p_x := 4756927106410086 / 2 ^ 50 \<rparr>)
   \<and> 0 < distance_d (p_x c9_p1) (p_y c9_p1) (p_x c9_p2) (p_y c9_p2)
   \<and> distance_d (p_x c9_p1) (p_y c9_p1) (p_x c9_p2) (p_y c9_p2) < minDist_d
   \<and> distance (7937594343240499 / 2 ^ 51) 5 (4756927106410086 / 2 ^ 50) 5 < minDist_d
   \<and> distance (7937594343240499 / 2 ^ 51) 5 (4756927106410086 / 2 ^ 50) 5 < PLAYER_RADIUS * 2
   \<and> (7937594343240499 / 2 ^ 51 + 4756927106410086 / 2 ^ 50) / 2 < (p_x c9_p1 + p_x c9_p2) / 2"
  by (simp add: resolve_c9 minDist_d_value PLAYER_RADIUS_def distance_same_y)
     (simp add: c9_p1_def c9_p2_def Player_new_def dist_c9)

text \<open>
  C9 (amended): \<open>resolvePlayerCollision\<close> always produces a result without dividing by
  zero.  With \<open>d\<close> the distance it computes and \<open>minDist_d\<close> its \<open>minDist\<close> (the binary64
  value of \<open>2 * radius\<close>, within \<open>2 ^ (- 54)\<close> of \<open>0.7\<close>): unless \<open>0 < d < minDist_d\<close> it
  changes nothing, in particular at distance 0; otherwise it changes only the
  coordinates, subtracting from the first player the rounded push that it adds to the
  second.  For players whose coordinates are representable and in \<open>[1/4, 16]\<close>, the
  distance afterwards is within \<open>2 ^ (- 45)\<close> of \<open>minDist_d\<close> and each coordinate of the
  midpoint is within \<open>2 ^ (- 48)\<close> of its value before.
\<close>

theorem C9_resolvePlayerCollision:
  "\<exists>q1 q2. resolvePlayerCollision p1 p2 = Some (q1, q2)
     \<and> \<bar>minDist_d - PLAYER_RADIUS * 2\<bar> \<le> 1 / 2 ^ 54
     \<and> (let d = distance_d (p_x p1) (p_y p1) (p_x p2) (p_y p2);
             pushX = push_d (p_x p2 - p_x p1) d; pushY = push_d (p_y p2 - p_y p1) d
         in (\<not> (0 < d \<and> d < minDist_d) \<longrightarrow> q1 = p1 \<and> q2 = p2)
          \<and> (0 < d \<and> d < minDist_d \<longrightarrow>
               q1 = p1\<lparr> p_x := fl (p_x p1 - pushX), p_y := fl (p_y p1 - pushY) \<rparr>
             \<and> q2 = p2\<lparr> p_x := fl (p_x p2 + pushX), p_y := fl (p_y p2 + pushY) \<rparr>)
          \<and> (0 < d \<and> d < minDist_d \<and> court_d p1 \<and> court_d p2 \<longrightarrow>
               \<bar>distance (p_x q1) (p_y q1) (p_x q2) (p_y q2) - minDist_d\<bar> \<le> 1 / 2 ^ 45
             \<and> \<bar>(p_x q1 + p_x q2) / 2 - (p_x p1 + p_x p2) / 2\<bar> \<le> 1 / 2 ^ 48
             \<and> \<bar>(p_y q1 + p_y q2) / 2 - (p_y p1 + p_y p2) / 2\<bar> \<le> 1 / 2 ^ 48))"
proof -
  let ?d = "distance_d (p_x p1) (p_y p1) (p_x p2) (p_y p2)"
  let ?pX = "push_d (p_x p2 - p_x p1) ?d"
  let ?pY = "push_d (p_y p2 - p_y p1) ?d"
  show ?thesis
  proof (cases "0 < ?d \<and> ?d < minDist_d")
    case False
    then have r: "resolvePlayerCollision p1 p2 = Some (p1, p2)" by (rule resolve_apart)
    show ?thesis unfolding Let_def using r False minDist_d_near by blast
  next
    case True
    let ?q1 = "p1\<lparr> p_x := fl (p_x p1 - ?pX), p_y := fl (p_y p1 - ?pY) \<rparr>"
    let ?q2 = "p2\<lparr> p_x := fl (p_x p2 + ?pX), p_y := fl (p_y p2 + ?pY) \<rparr>"
    have r: "resolvePlayerCollision p1 p2 = Some (?q1, ?q2)"
      using True by (intro resolve_overlap) simp_all
    have sel: "p_x ?q1 = fl (p_x p1 - ?pX)" "p_y ?q1 = fl (p_y p1 - ?pY)"
              "p_x ?q2 = fl (p_x p2 + ?pX)" "p_y ?q2 = fl (p_y p2 + ?pY)"
      by simp_all
    have b: "\<bar>distance (p_x ?q1) (p_y ?q1) (p_x ?q2) (p_y ?q2) - minDist_d\<bar> \<le> 1 / 2 ^ 45
           \<and> \<bar>(p_x ?q1 + p_x ?q2) / 2 - (p_x p1 + p_x p2) / 2\<bar> \<le> 1 / 2 ^ 48
           \<and> \<bar>(p_y ?q1 + p_y ?q2) / 2 - (p_y p1 + p_y p2) / 2\<bar> \<le> 1 / 2 ^ 48"
      if c: "court_d p1" "court_d p2"
      unfolding sel
      using resolve_bound[OF court_grid[OF c] refl conjunct1[OF True] conjunct2[OF True] refl refl]
      by (simp only:)
    show ?thesis unfolding Let_def using r True b minDist_d_near by blast
  qed
qed

theorem C9_witness:
  "court_d c9_p1 \<and> court_d c9_p2
   \<and> 0 < distance_d (p_x c9_p1) (p_y c9_p1) (p_x c9_p2) (p_y c9_p2)
   \<and> distance_d (p_x c9_p1) (p_y c9_p1) (p_x c9_p2) (p_y c9_p2) < minDist_d
   \<and> (\<exists>q1 q2. resolvePlayerCollision c9_p1 c9_p2 = Some (q1, q2)
        \<and> \<bar>distance (p_x q1) (p_y q1) (p_x q2) (p_y q2) - minDist_d\<bar> \<le> 1 / 2 ^ 45
        \<and> \<bar>(p_x q1 + p_x q2) / 2 - (p_x c9_p1 + p_x c9_p2) / 2\<bar> \<le> 1 / 2 ^ 48
        \<and> \<bar>(p_y q1 + p_y q2) / 2 - (p_y c9_p1 + p_y c9_p2) / 2\<bar> \<le> 1 / 2 ^ 48)"
proof -
  have g: "0 < distance_d (p_x c9_p1) (p_y c9_p1) (p_x c9_p2) (p_y c9_p2)"
          "distance_d (p_x c9_p1) (p_y c9_p1) (p_x c9_p2) (p_y c9_p2) < minDist_d"
    by (simp_all add: c9_p1_def c9_p2_def Player_new_def dist_c9 minDist_d_value)
  from C9_resolvePlayerCollision[of c9_p1 c9_p2] g court_c9 show ?thesis
    by (auto simp add: Let_def)
qed

section \<open>The orchestrator: who holds the ball\<close>

lemma hasBall_kept [simp]:
  "hasBall (applyMovement p dx dy) = hasBall p"
  "hasBall (updateStamina p dt) = hasBall p"
  "hasBall (updateState p dt) = hasBall p"
  "hasBall (startShot p a) = hasBall p"
  "hasBall (chargeShot p dt) = hasBall p"
  "hasBall (fst (performStepBack p)) = hasBall p"
  "hasBall (fst (attemptSteal roll p t)) = hasBall p"
  "hasBall (clampToCourtBounds p) = hasBall p"
  by (simp_all add: applyMovement_def updateStamina_def updateState_def startShot_def
        chargeShot_def performStepBack_def attemptSteal_def clampToCourtBounds_def Let_def)

lemma hasBall_Player_update [simp]: "hasBall (Player_update p dt) = hasBall p"
  by (simp add: Player_update_def Let_def)

lemma hasBall_executeShot: "hasBall (fst (executeShot p)) \<Longrightarrow> hasBall p"
  by (simp add: executeShot_def Let_def split: if_splits)

lemma hasBall_moveToTarget [simp]: "hasBall (moveToTarget c p) = hasBall p"
  by (simp add: moveToTarget_def Let_def)

lemma hasBall_executeShoot: "hasBall (fst (snd (executeShoot c p b))) \<Longrightarrow> hasBall p"
  by (auto simp add: executeShoot_def Let_def executeShot_def split: if_splits)

lemma hasBall_executeLayup: "hasBall (fst (snd (executeLayup c p b))) \<Longrightarrow> hasBall p"
  by (auto simp add: executeLayup_def Let_def executeShot_def split: if_splits)

lemma hasBall_executeState: "hasBall (fst (snd (executeState c p b))) \<Longrightarrow> hasBall p"
  by (cases "c_state c")
     (auto simp add: executeState_def dest: hasBall_executeShoot hasBall_executeLayup)

lemma hasBall_AIController_update:
  "hasBall (fst (snd (AIController_update c p b opp clk rnd dt))) \<Longrightarrow> hasBall p"
  unfolding AIController_update_def Let_def by (rule hasBall_executeState)

lemma run_ai_player [simp]: "player (run_ai sc rnd dt) = player sc"
  by (simp add: run_ai_def split: prod.splits)

lemma run_ai_rules [simp]: "rules (run_ai sc rnd dt) = rules sc"
  by (simp add: run_ai_def split: prod.splits)

lemma run_ai_hasBall: "hasBall (ai (run_ai sc rnd dt)) \<Longrightarrow> hasBall (ai sc)"
  using hasBall_AIController_update
    [of "aiController sc" "ai sc" "ball sc" "player sc" "shotClock (rules sc)" rnd dt]
  by (simp add: run_ai_def split: prod.splits)

lemma oneHolder_run_ai: "oneHolder sc \<Longrightarrow> oneHolder (run_ai sc rnd dt)"
  unfolding oneHolder_def using run_ai_hasBall[of sc rnd dt] by auto

lemma oneHolder_input_movement: "oneHolder (input_movement sc inp dt) = oneHolder sc"
  by (simp add: oneHolder_def input_movement_def Let_def)

lemma oneHolder_input_sprint: "oneHolder (input_sprint sc inp) = oneHolder sc"
  by (simp add: oneHolder_def input_sprint_def)

lemma input_shot_ai [simp]: "ai (input_shot sc inp dt) = ai sc"
  by (simp add: input_shot_def Let_def split: prod.splits option.splits)

lemma input_shot_hasBall: "hasBall (player (input_shot sc inp dt)) \<Longrightarrow> hasBall (player sc)"
  by (simp add: input_shot_def split: if_splits)

lemma oneHolder_input_shot: "oneHolder sc \<Longrightarrow> oneHolder (input_shot sc inp dt)"
  unfolding oneHolder_def using input_shot_hasBall[of sc inp dt] by auto

lemma oneHolder_input_special: "oneHolder sc \<Longrightarrow> oneHolder (input_special sc inp rnd)"
proof -
  have f: "hasBall p = hasBall q" if "attemptSteal r q t = (p, b)" for p q r t b
    using hasBall_kept(7)[of r q t] that by simp
  show "oneHolder sc \<Longrightarrow> oneHolder (input_special sc inp rnd)"
    by (auto simp add: oneHolder_def input_special_def split: prod.splits bool.splits dest: f)
qed

lemma oneHolder_handlePlayerInput:
  "oneHolder sc \<Longrightarrow> oneHolder (handlePlayerInput sc inp rnd dt)"
  by (simp add: handlePlayerInput_def oneHolder_input_special oneHolder_input_shot
        oneHolder_input_sprint oneHolder_input_movement)

lemma oneHolder_checkBall_ai: "oneHolder sc \<Longrightarrow> oneHolder (checkBall_ai sc rnd dt)"
  by (simp add: checkBall_ai_def Let_def oneHolder_run_ai) (simp add: oneHolder_def)

lemma oneHolder_update_players: "oneHolder (update_players sc dt) = oneHolder sc"
  by (simp add: oneHolder_def update_players_def)

lemma resolve_hasBall:
  "resolvePlayerCollision p1 p2 = Some (q1, q2) \<Longrightarrow> hasBall q1 = hasBall p1 \<and> hasBall q2 = hasBall p2"
  by (auto simp add: resolvePlayerCollision_def Let_def split: if_splits option.splits)

lemma oneHolder_collide_players: "oneHolder (collide_players sc) = oneHolder sc"
  by (auto simp add: oneHolder_def collide_players_def split: option.splits dest: resolve_hasBall)

lemma oneHolder_clamp_players: "oneHolder (clamp_players sc) = oneHolder sc"
  by (simp add: oneHolder_def clamp_players_def)

lemma oneHolder_checkBall_start: "oneHolder (checkBall_start sc dt) = oneHolder sc"
  by (simp add: oneHolder_def checkBall_start_def Let_def)

lemma oneHolder_update_ball: "oneHolder (update_ball sc dt) = oneHolder sc"
  by (simp add: oneHolder_def update_ball_def updateBallPosition_def getBallPosition_def Let_def)

lemma oneHolder_handleBallPickup: "oneHolder sc \<Longrightarrow> oneHolder (handleBallPickup sc)"
  by (simp add: oneHolder_def handleBallPickup_def Let_def)

lemma oneHolder_pickup_if_free: "oneHolder sc \<Longrightarrow> oneHolder (pickup_if_free sc)"
  by (simp add: pickup_if_free_def oneHolder_handleBallPickup)

lemma setup_holders:
  "hasBall (player (setupInitialPositions sc)) = (possession (rules sc) = SidePlayer)"
  "hasBall (ai (setupInitialPositions sc)) = (possession (rules sc) \<noteq> SidePlayer)"
  by (simp_all add: setupInitialPositions_def getBallPosition_def Let_def)

lemma oneHolder_setup: "oneHolder (setupInitialPositions sc)"
  by (simp add: oneHolder_def setup_holders)

lemma oneHolder_handleCheckBall:
  "oneHolder sc \<Longrightarrow> oneHolder (handleCheckBall sc inp rnd dt)"
  by (simp add: handleCheckBall_def oneHolder_pickup_if_free oneHolder_update_ball
        oneHolder_checkBall_start oneHolder_clamp_players oneHolder_update_players
        oneHolder_checkBall_ai oneHolder_handlePlayerInput)

lemma oneHolder_liveBall_advance:
  "oneHolder sc \<Longrightarrow> oneHolder (liveBall_advance sc inp rnd dt)"
  by (simp add: liveBall_advance_def oneHolder_update_ball oneHolder_clamp_players
        oneHolder_collide_players oneHolder_update_players oneHolder_run_ai
        oneHolder_handlePlayerInput)

lemma oneHolder_timer [simp]: "oneHolder (sc\<lparr> outOfBoundsTimer := t \<rparr>) = oneHolder sc"
  by (simp add: oneHolder_def)

lemma oneHolder_rules [simp]: "oneHolder (sc\<lparr> rules := r \<rparr>) = oneHolder sc"
  by (simp add: oneHolder_def)

lemma oneHolder_score_and_pickup: "oneHolder sc \<Longrightarrow> oneHolder (score_and_pickup sc)"
  by (simp add: score_and_pickup_def Let_def oneHolder_setup oneHolder_pickup_if_free)

lemma oneHolder_expired: "oneHolder (outOfBounds_expired sc)"
  by (simp add: outOfBounds_expired_def Let_def oneHolder_setup)

lemma oneHolder_liveBall_referee: "oneHolder sc \<Longrightarrow> oneHolder (liveBall_referee sc dt)"
  by (simp add: liveBall_referee_def Let_def oneHolder_score_and_pickup oneHolder_expired
        split: option.splits)

lemma oneHolder_handleLiveBall:
  "oneHolder sc \<Longrightarrow> oneHolder (handleLiveBall sc inp rnd dt)"
  by (simp add: handleLiveBall_def oneHolder_liveBall_referee oneHolder_liveBall_advance)

lemma oneHolder_update: "oneHolder sc \<Longrightarrow> oneHolder (GameScene_update sc inp rnd dt)"
  by (simp add: GameScene_update_def Let_def oneHolder_handleCheckBall
        oneHolder_handleLiveBall oneHolder_setup)

lemma oneHolder_handlePause: "oneHolder sc \<Longrightarrow> oneHolder (handlePause sc e)"
  by (simp add: handlePause_def Let_def getBallPosition_def) (simp add: oneHolder_def)

lemma oneHolder_enter: "oneHolder (GameScene_enter st)"
  by (simp add: GameScene_enter_def Let_def oneHolder_setup)

lemma setup_exactly_one:
  "hasBall (player (setupInitialPositions sc)) \<noteq> hasBall (ai (setupInitialPositions sc))"
  by (simp add: setup_holders)

lemma steal_hands_over:
  assumes "rightJustPressed inp" "\<not> hasBall (player sc)"
    and "snd (attemptSteal (steal_roll rnd) (player sc) (ai sc))"
  shows "hasBall (player (input_special sc inp rnd)) \<and> \<not> hasBall (ai (input_special sc inp rnd))"
proof -
  obtain pl where "attemptSteal (steal_roll rnd) (player sc) (ai sc) = (pl, True)"
    using assms(3) by (cases "attemptSteal (steal_roll rnd) (player sc) (ai sc)") simp
  then show ?thesis
    using assms(1,2) by (simp add: input_special_def)
qed

lemma pickup_exactly_one:
  assumes "distance (b_x (ball sc)) (b_y (ball sc)) (p_x (player sc)) (p_y (player sc))
             < PLAYER_RADIUS * 3
           \<or> distance (b_x (ball sc)) (b_y (ball sc)) (p_x (ai sc)) (p_y (ai sc))
             < PLAYER_RADIUS * 3"
  shows "hasBall (player (handleBallPickup sc)) \<noteq> hasBall (ai (handleBallPickup sc))"
  using assms by (auto simp add: handleBallPickup_def Let_def)

lemma score_exactly_one:
  "isScore (ball sc) \<Longrightarrow>
     hasBall (player (score_and_pickup sc)) \<noteq> hasBall (ai (score_and_pickup sc))"
  by (simp add: score_and_pickup_def Let_def setup_exactly_one)

text \<open>
  C1: in every state the scene can reach (from \<open>enter\<close>, by ticks with any input, random
  draws and step, and by key presses) the two players never both have \<open>hasBall\<close> set.
  Each operation that hands the ball over leaves exactly one holder: the check-ball
  setup, a pickup by a player within reach, a successful steal, and the reset after a
  score.
\<close>

theorem C1_one_holder:
  "(reachable sc \<longrightarrow> \<not> (hasBall (player sc) \<and> hasBall (ai sc)))
   \<and> hasBall (player (setupInitialPositions s)) \<noteq> hasBall (ai (setupInitialPositions s))
   \<and> (distance (b_x (ball s)) (b_y (ball s)) (p_x (player s)) (p_y (player s))
          < PLAYER_RADIUS * 3
        \<or> distance (b_x (ball s)) (b_y (ball s)) (p_x (ai s)) (p_y (ai s))
          < PLAYER_RADIUS * 3
        \<longrightarrow> hasBall (player (handleBallPickup s)) \<noteq> hasBall (ai (handleBallPickup s)))
   \<and> (rightJustPressed inp \<and> \<not> hasBall (player s)
        \<and> snd (attemptSteal (steal_roll rnd) (player s) (ai s))
        \<longrightarrow> hasBall (player (input_special s inp rnd)) \<and> \<not> hasBall (ai (input_special s inp rnd)))
   \<and> (isScore (ball s)
        \<longrightarrow> hasBall (player (score_and_pickup s)) \<noteq> hasBall (ai (score_and_pickup s)))"
proof -
  have "oneHolder sc" if "reachable sc"
    using that
    by (induction rule: reachable.induct)
       (simp_all add: oneHolder_enter oneHolder_update oneHolder_handlePause)
  then have inv: "reachable sc \<longrightarrow> \<not> (hasBall (player sc) \<and> hasBall (ai sc))"
    by (simp add: oneHolder_def)
  show ?thesis
    using inv setup_exactly_one [of s] pickup_exactly_one [of s]
      steal_hands_over [of inp s rnd] score_exactly_one [of s]
    by blast
qed

theorem C1_witness:
  "reachable (GameScene_update (GameScene_enter settings_default) input_idle draws_zero (1 / 60))
   \<and> \<not> (hasBall (player (GameScene_update (GameScene_enter settings_default)
                             input_idle draws_zero (1 / 60)))
        \<and> hasBall (ai (GameScene_update (GameScene_enter settings_default)
                             input_idle draws_zero (1 / 60))))
   \<and> hasBall (player (setupInitialPositions (GameScene_enter settings_default)))
   \<and> \<not> hasBall (ai (setupInitialPositions (GameScene_enter settings_default)))
   \<and> \<not> hasBall (player (handleBallPickup scene_pickup))
   \<and> hasBall (ai (handleBallPickup scene_pickup))
   \<and> hasBall (player (input_special scene_steal input_right draws_zero))
   \<and> \<not> hasBall (ai (input_special scene_steal input_right draws_zero))
   \<and> \<not> hasBall (player (score_and_pickup scene_scored))
   \<and> hasBall (ai (score_and_pickup scene_scored))"
proof -
  let ?s = "GameScene_update (GameScene_enter settings_default) input_idle draws_zero (1 / 60)"
  have r: "reachable ?s"
    by (intro reachable.tick reachable.enter)
  have d: "distance (b_x (ball scene_pickup)) (b_y (ball scene_pickup))
             (p_x (player scene_pickup)) (p_y (player scene_pickup)) < PLAYER_RADIUS * 3"
    by (simp add: scene_pickup_def Player_new_def distance_same_x PLAYER_RADIUS_def)
  have p: "hasBall (ai (handleBallPickup scene_pickup))"
    by (simp add: handleBallPickup_def Let_def scene_pickup_def Player_new_def
          distance_same_x PLAYER_RADIUS_def)
  have q: "hasBall (player (setupInitialPositions (GameScene_enter settings_default)))"
    by (simp add: setup_holders GameScene_enter_def setupInitialPositions_def
          getBallPosition_def Rules_new_def Let_def)
  have st: "rightJustPressed input_right" "\<not> hasBall (player scene_steal)"
    "snd (attemptSteal (steal_roll draws_zero) (player scene_steal) (ai scene_steal))"
    by (simp_all add: input_right_def input_idle_def draws_zero_def scene_steal_def
          Player_new_def attemptSteal_def stealChance_def distance_same_x PLAYER_RADIUS_def
          Let_def)
  have sc: "isScore (ball scene_scored)"
    by (simp add: isScore_def scene_scored_def scene_pickup_def Ball_new_def RIM_HEIGHT_def)
  have sa: "hasBall (ai (score_and_pickup scene_scored))"
    using sc
    by (simp add: score_and_pickup_def Let_def setup_holders scene_scored_def
          scorePoints_def changePossession_def resetShotClock_def)
  from C1_one_holder [of ?s "GameScene_enter settings_default"]
       C1_one_holder [of ?s scene_pickup]
       C1_one_holder [of ?s scene_steal input_right draws_zero]
       C1_one_holder [of ?s scene_scored] r d p q st sc sa
  show ?thesis by simp
qed

text \<open>
  C10: when both players are within the pickup radius (three player radii) of the ball,
  \<open>handleBallPickup\<close> ends with the AI holding it: the AI's test runs second and
  overwrites the human's pickup of the same call.
\<close>

theorem C10_both_in_reach:
  "distance (b_x (ball sc)) (b_y (ball sc)) (p_x (player sc)) (p_y (player sc)) < PLAYER_RADIUS * 3
   \<Longrightarrow> distance (b_x (ball sc)) (b_y (ball sc)) (p_x (ai sc)) (p_y (ai sc)) < PLAYER_RADIUS * 3
   \<Longrightarrow> hasBall (ai (handleBallPickup sc)) \<and> \<not> hasBall (player (handleBallPickup sc))
       \<and> b_state (ball (handleBallPickup sc)) = Held
       \<and> holderId (ball (handleBallPickup sc)) = Some SideAI
       \<and> possession (rules (handleBallPickup sc)) = SideAI"
  by (simp add: handleBallPickup_def Let_def changePossession_def resetShotClock_def)

theorem C10_witness:
  "b_state (ball scene_pickup) = Free
   \<and> hasBall (ai (handleBallPickup scene_pickup)) \<and> \<not> hasBall (player (handleBallPickup scene_pickup))
   \<and> b_state (ball (handleBallPickup scene_pickup)) = Held
   \<and> holderId (ball (handleBallPickup scene_pickup)) = Some SideAI"
proof -
  have a: "distance (b_x (ball scene_pickup)) (b_y (ball scene_pickup))
             (p_x (player scene_pickup)) (p_y (player scene_pickup)) < PLAYER_RADIUS * 3"
    by (simp add: scene_pickup_def Player_new_def distance_same_x PLAYER_RADIUS_def)
  have b: "distance (b_x (ball scene_pickup)) (b_y (ball scene_pickup))
             (p_x (ai scene_pickup)) (p_y (ai scene_pickup)) < PLAYER_RADIUS * 3"
    by (simp add: scene_pickup_def Player_new_def distance_same_x PLAYER_RADIUS_def)
  have c: "b_state (ball scene_pickup) = Free"
    by (simp add: scene_pickup_def Ball_new_def)
  from C10_both_in_reach [OF a b] c show ?thesis by simp
qed

section \<open>Out-of-bounds recovery\<close>

lemma advance_rules_state [simp]:
  "gameState (rules (input_movement sc inp dt)) = gameState (rules sc)"
  "gameState (rules (input_sprint sc inp)) = gameState (rules sc)"
  "gameState (rules (input_shot sc inp dt)) = gameState (rules sc)"
  "gameState (rules (input_special sc inp rnd)) = gameState (rules sc)"
  "gameState (rules (update_players sc dt)) = gameState (rules sc)"
  "gameState (rules (collide_players sc)) = gameState (rules sc)"
  "gameState (rules (clamp_players sc)) = gameState (rules sc)"
  "gameState (rules (update_ball sc dt)) = gameState (rules sc)"
  by (simp_all add: input_movement_def input_sprint_def input_shot_def input_special_def
        update_players_def collide_players_def clamp_players_def update_ball_def
        updateBallPosition_def getBallPosition_def registerShotAttempt_def Let_def
        split: prod.splits option.splits bool.splits)

lemma advance_gameState:
  "gameState (rules (liveBall_advance sc inp rnd dt)) = gameState (rules sc)"
  by (simp add: liveBall_advance_def handlePlayerInput_def)

lemma advance_clockActive_aux [simp]:
  "shotClockActive (rules (input_movement sc inp dt)) = shotClockActive (rules sc)"
  "shotClockActive (rules (input_sprint sc inp)) = shotClockActive (rules sc)"
  "shotClockActive (rules (input_shot sc inp dt)) = shotClockActive (rules sc)"
  "shotClockActive (rules (input_special sc inp rnd)) = shotClockActive (rules sc)"
  "shotClockActive (rules (update_players sc dt)) = shotClockActive (rules sc)"
  "shotClockActive (rules (collide_players sc)) = shotClockActive (rules sc)"
  "shotClockActive (rules (clamp_players sc)) = shotClockActive (rules sc)"
  "shotClockActive (rules (update_ball sc dt)) = shotClockActive (rules sc)"
  by (simp_all add: input_movement_def input_sprint_def input_shot_def input_special_def
        update_players_def collide_players_def clamp_players_def update_ball_def
        updateBallPosition_def getBallPosition_def registerShotAttempt_def Let_def
        split: prod.splits option.splits bool.splits)

lemma advance_clockActive:
  "shotClockActive (rules (liveBall_advance sc inp rnd dt)) = shotClockActive (rules sc)"
  by (simp add: liveBall_advance_def handlePlayerInput_def)

lemma expired_rules:
  "gameState (rules (outOfBounds_expired sc)) = gameState (rules sc)"
  "shotClockActive (rules (outOfBounds_expired sc)) = shotClockActive (rules sc)"
  "possession (rules (outOfBounds_expired sc)) =
     other_side (case holderId (ball sc) of Some h \<Rightarrow> h | None \<Rightarrow> possession (rules sc))"
  "outOfBoundsTimer (outOfBounds_expired sc) = None"
  "hasBall (player (outOfBounds_expired sc)) = (possession (rules (outOfBounds_expired sc)) = SidePlayer)"
  "hasBall (ai (outOfBounds_expired sc)) = (possession (rules (outOfBounds_expired sc)) = SideAI)"
  by (simp_all add: outOfBounds_expired_def setupInitialPositions_def getBallPosition_def
        changePossession_def resetShotClock_def other_side_def Let_def)

lemma timer_blocks [simp]:
  "outOfBoundsTimer (input_movement sc inp dt) = outOfBoundsTimer sc"
  "outOfBoundsTimer (input_sprint sc inp) = outOfBoundsTimer sc"
  "outOfBoundsTimer (input_shot sc inp dt) = outOfBoundsTimer sc"
  "outOfBoundsTimer (input_special sc inp rnd) = outOfBoundsTimer sc"
  "outOfBoundsTimer (run_ai sc rnd dt) = outOfBoundsTimer sc"
  "outOfBoundsTimer (update_players sc dt) = outOfBoundsTimer sc"
  "outOfBoundsTimer (collide_players sc) = outOfBoundsTimer sc"
  "outOfBoundsTimer (clamp_players sc) = outOfBoundsTimer sc"
  "outOfBoundsTimer (update_ball sc dt) = outOfBoundsTimer sc"
  by (simp_all add: input_movement_def input_sprint_def input_shot_def input_special_def
        run_ai_def update_players_def collide_players_def clamp_players_def update_ball_def
        updateBallPosition_def getBallPosition_def Let_def
        split: prod.splits option.splits bool.splits)

lemma advance_timer:
  "outOfBoundsTimer (liveBall_advance sc inp rnd dt) = outOfBoundsTimer sc"
  by (simp add: liveBall_advance_def handlePlayerInput_def)

lemma ball_blocks [simp]:
  "ball (input_movement sc inp dt) = ball sc"
  "ball (input_sprint sc inp) = ball sc"
  "ball (update_players sc dt) = ball sc"
  "ball (collide_players sc) = ball sc"
  "ball (clamp_players sc) = ball sc"
  by (simp_all add: input_movement_def input_sprint_def update_players_def
        collide_players_def clamp_players_def Let_def split: option.splits)

lemma input_shot_idle:
  "\<not> hasBall (player sc) \<Longrightarrow> input_shot sc inp dt = sc"
  by (simp add: input_shot_def)

lemma input_special_idle:
  "\<not> rightJustPressed inp \<Longrightarrow> input_special sc inp rnd = sc"
  by (simp add: input_special_def)

lemma executeShoot_no_ball:
  "\<not> hasBall p \<Longrightarrow> snd (executeShoot c p b) = (p, b)"
  by (simp add: executeShoot_def)

lemma executeLayup_no_ball:
  "\<not> hasBall p \<Longrightarrow> snd (executeLayup c p b) = (p, b)"
  by (simp add: executeLayup_def)

lemma executeState_ball:
  "\<not> hasBall p \<Longrightarrow> snd (snd (executeState c p b)) = b"
  by (cases "c_state c") (simp_all add: executeState_def executeShoot_no_ball executeLayup_no_ball)

lemma run_ai_ball: "\<not> hasBall (ai sc) \<Longrightarrow> ball (run_ai sc rnd dt) = ball sc"
  using executeState_ball [of "ai sc" _ "ball sc"]
  by (simp add: run_ai_def AIController_update_def Let_def split: prod.splits)
     (metis snd_conv)

lemma updateBallPosition_nobody:
  "\<not> hasBall (player sc) \<Longrightarrow> \<not> hasBall (ai sc) \<Longrightarrow> updateBallPosition sc = sc"
  by (simp add: updateBallPosition_def)

lemma holderId_steps [simp]:
  "holderId (ball_dribble b dt) = holderId b"
  "holderId (ball_integrate b dt) = holderId b"
  "holderId (ball_ground b) = holderId b"
  "holderId (ball_rim b) = holderId b"
  "holderId (ball_backboard b) = holderId b"
  "holderId (checkBounds b) = holderId b"
  by (simp_all add: ball_dribble_def ball_integrate_def ball_ground_def ball_rim_def
        ball_backboard_def checkBounds_def reflectFromBackboard_def Let_def)

lemma holderId_Ball_update [simp]: "holderId (Ball_update b dt) = holderId b"
  by (simp add: Ball_update_def)

lemma isOutOfBounds_steps [simp]:
  "isOutOfBounds (ball_dribble b dt) = isOutOfBounds b"
  "isOutOfBounds (ball_integrate b dt) = isOutOfBounds b"
  "isOutOfBounds (ball_ground b) = isOutOfBounds b"
  "isOutOfBounds (ball_rim b) = isOutOfBounds b"
  "isOutOfBounds (ball_backboard b) = isOutOfBounds b"
  by (simp_all add: ball_dribble_def ball_integrate_def ball_ground_def ball_rim_def
        ball_backboard_def reflectFromBackboard_def Let_def)

lemma isOutOfBounds_checkBounds: "isOutOfBounds b \<Longrightarrow> isOutOfBounds (checkBounds b)"
  by (simp add: checkBounds_def Let_def)

lemma isOutOfBounds_Ball_update: "isOutOfBounds b \<Longrightarrow> isOutOfBounds (Ball_update b dt)"
  by (simp add: Ball_update_def isOutOfBounds_checkBounds)

lemma advance_loose_ball:
  assumes "\<not> hasBall (player sc)" "\<not> hasBall (ai sc)" "\<not> rightJustPressed inp"
    and "isOutOfBounds (ball sc)"
  shows "isOutOfBounds (ball (liveBall_advance sc inp rnd dt))"
    and "holderId (ball (liveBall_advance sc inp rnd dt)) = holderId (ball sc)"
proof -
  define s1 where "s1 = handlePlayerInput sc inp rnd dt"
  have p1: "\<not> hasBall (player s1)" "\<not> hasBall (ai s1)" "ball s1 = ball sc"
    using assms
    by (simp_all add: s1_def handlePlayerInput_def input_special_idle input_shot_idle
          input_movement_def input_sprint_def Let_def)
  define s2 where "s2 = clamp_players (collide_players (update_players (run_ai s1 rnd dt) dt))"
  have a: "\<not> hasBall (ai (run_ai s1 rnd dt))" "\<not> hasBall (player (run_ai s1 rnd dt))"
    using p1 run_ai_hasBall[of s1 rnd dt] by auto
  have h2: "\<not> hasBall (player s2)" "\<not> hasBall (ai s2)"
    using a
    by (auto simp add: s2_def clamp_players_def collide_players_def update_players_def
          split: option.splits dest: resolve_hasBall)
  have b2: "ball s2 = ball sc"
    using p1 by (simp add: s2_def run_ai_ball)
  have adv: "liveBall_advance sc inp rnd dt = update_ball s2 dt"
    by (simp add: liveBall_advance_def s2_def s1_def)
  have ub: "ball (update_ball s2 dt) = Ball_update (ball sc) dt"
    using h2 b2 by (simp add: update_ball_def updateBallPosition_nobody Let_def)
  show "isOutOfBounds (ball (liveBall_advance sc inp rnd dt))"
    using assms(4) by (simp add: adv ub isOutOfBounds_Ball_update)
  show "holderId (ball (liveBall_advance sc inp rnd dt)) = holderId (ball sc)"
    by (simp add: adv ub)
qed

lemma scene_ball_out_facts:
  "\<not> hasBall (player scene_ball_out)" "\<not> hasBall (ai scene_ball_out)"
  "isOutOfBounds (ball scene_ball_out)" "holderId (ball scene_ball_out) = Some SidePlayer"
  "outOfBoundsTimer scene_ball_out = Some 0.01"
  "gameState (rules scene_ball_out) = LiveBall"
  "possession (rules scene_ball_out) = SidePlayer"
  "shotClockActive (rules scene_ball_out)"
  by (simp_all add: scene_ball_out_def Player_new_def Ball_new_def Rules_new_def)

text \<open>
  C2 (what the code does on expiry): when, after the world has been advanced in a
  \<open>liveBall\<close> tick, the ball is flagged out of bounds and the recovery countdown runs
  out, \<open>handleLiveBall\<close> gives possession to the side opposite to \<open>ball.holderId\<close>
  (opposite to the current possession when \<open>holderId\<close> is \<open>null\<close>) and clears the
  countdown, but the game state is left as it was: the game stays in \<open>liveBall\<close> with
  the shot clock armed instead of going to \<open>checkBall\<close>.
\<close>

theorem C2_expiry_stays_live:
  "isOutOfBounds (ball (liveBall_advance sc inp rnd dt))
   \<Longrightarrow> outOfBoundsTimer (liveBall_advance sc inp rnd dt) = Some t
   \<Longrightarrow> t - dt \<le> 0
   \<Longrightarrow> possession (rules (handleLiveBall sc inp rnd dt)) =
         other_side (case holderId (ball (liveBall_advance sc inp rnd dt)) of
                       Some h \<Rightarrow> h
                     | None \<Rightarrow> possession (rules (liveBall_advance sc inp rnd dt)))
       \<and> outOfBoundsTimer (handleLiveBall sc inp rnd dt) = None
       \<and> gameState (rules (handleLiveBall sc inp rnd dt)) = gameState (rules sc)
       \<and> shotClockActive (rules (handleLiveBall sc inp rnd dt)) = shotClockActive (rules sc)"
  by (simp add: handleLiveBall_def liveBall_referee_def Let_def expired_rules
        advance_gameState advance_clockActive split: option.splits)

theorem C2_witness:
  "gameState (rules scene_ball_out) = LiveBall
   \<and> possession (rules scene_ball_out) = SidePlayer
   \<and> possession (rules (handleLiveBall scene_ball_out input_idle draws_zero (1 / 60))) = SideAI
   \<and> outOfBoundsTimer (handleLiveBall scene_ball_out input_idle draws_zero (1 / 60)) = None
   \<and> gameState (rules (handleLiveBall scene_ball_out input_idle draws_zero (1 / 60))) = LiveBall
   \<and> shotClockActive (rules (handleLiveBall scene_ball_out input_idle draws_zero (1 / 60)))"
proof -
  have nr: "\<not> rightJustPressed input_idle" by (simp add: input_idle_def)
  note f = scene_ball_out_facts
  have a: "isOutOfBounds (ball (liveBall_advance scene_ball_out input_idle draws_zero (1 / 60)))"
    by (rule advance_loose_ball(1) [OF f(1) f(2) nr f(3)])
  have h: "holderId (ball (liveBall_advance scene_ball_out input_idle draws_zero (1 / 60)))
             = Some SidePlayer"
    using advance_loose_ball(2) [OF f(1) f(2) nr f(3)] f(4) by simp
  have t: "outOfBoundsTimer (liveBall_advance scene_ball_out input_idle draws_zero (1 / 60))
             = Some 0.01"
    by (simp add: advance_timer f(5))
  have e: "(0.01::real) - 1 / 60 \<le> 0" by simp
  from C2_expiry_stays_live [OF a t e] h f show ?thesis
    by (simp add: other_side_def)
qed

section \<open>Charging without the ball\<close>

lemma shotCharging_kept [simp]:
  "shotCharging (applyMovement p dx dy) = shotCharging p"
  "shotCharging (updateStamina p dt) = shotCharging p"
  "shotCharging (updateState p dt) = shotCharging p"
  "shotCharging (chargeShot p dt) = shotCharging p"
  "shotCharging (fst (performStepBack p)) = shotCharging p"
  "shotCharging (fst (attemptSteal roll p t)) = shotCharging p"
  "shotCharging (clampToCourtBounds p) = shotCharging p"
  by (simp_all add: applyMovement_def updateStamina_def updateState_def
        chargeShot_def performStepBack_def attemptSteal_def clampToCourtBounds_def Let_def)

lemma shotCharging_Player_update [simp]: "shotCharging (Player_update p dt) = shotCharging p"
  by (simp add: Player_update_def Let_def)

lemma shotCharging_moveToTarget [simp]: "shotCharging (moveToTarget c p) = shotCharging p"
  by (simp add: moveToTarget_def Let_def)

lemma resolve_shotCharging:
  "resolvePlayerCollision p1 p2 = Some (q1, q2)
     \<Longrightarrow> shotCharging q1 = shotCharging p1 \<and> shotCharging q2 = shotCharging p2"
  by (auto simp add: resolvePlayerCollision_def Let_def split: if_splits option.splits)

lemma b_state_dribble [simp]: "b_state (ball_dribble b dt) = b_state b"
  by (simp add: ball_dribble_def Let_def)

lemma Ball_update_held: "b_state b = Held \<Longrightarrow> b_state (Ball_update b dt) = Held"
  by (simp add: Ball_update_def)

lemma hasScored_Ball_update_held:
  "b_state b = Held \<Longrightarrow> hasScored (Ball_update b dt) = hasScored b"
  by (simp add: Ball_update_def)

lemma isOutOfBounds_Ball_update_held:
  "b_state b = Held \<Longrightarrow> isOutOfBounds (Ball_update b dt) = isOutOfBounds b"
  by (simp add: Ball_update_def)

lemma update_ball_players [simp]:
  "player (update_ball sc dt) = player sc" "ai (update_ball sc dt) = ai sc"
  by (simp_all add: update_ball_def updateBallPosition_def getBallPosition_def Let_def)

lemma update_ball_held:
  assumes "hasBall (player sc)" "b_state (ball sc) = Held"
  shows "b_state (ball (update_ball sc dt)) = Held"
    and "hasScored (ball (update_ball sc dt)) = hasScored (ball sc)"
    and "isOutOfBounds (ball (update_ball sc dt)) = isOutOfBounds (ball sc)"
  using assms
  by (simp_all add: update_ball_def updateBallPosition_def getBallPosition_def Let_def
        Ball_update_held hasScored_Ball_update_held isOutOfBounds_Ball_update_held)

subsection \<open>First trace: charge during check ball, then the manual reset\<close>

lemma input_charging:
  assumes "hasBall (player sc)" "b_state (ball sc) = Held" "pointerIsDown inp"
          "\<not> rightJustPressed inp"
  shows "charging_with_ball (handlePlayerInput sc inp rnd dt)"
proof -
  define s where "s = input_sprint (input_movement sc inp dt) inp"
  have s: "hasBall (player s)" "b_state (ball s) = Held"
    using assms(1,2) by (simp_all add: s_def input_sprint_def input_movement_def Let_def)
  have "charging_with_ball (input_shot s inp dt)"
    using s assms(3)
    by (simp add: charging_with_ball_def input_shot_def startShot_def Let_def)
  then show ?thesis
    using assms(4) by (simp add: handlePlayerInput_def s_def input_special_idle)
qed

lemma charging_blocks:
  "possession (rules sc) = SidePlayer \<Longrightarrow>
     charging_with_ball (checkBall_ai sc rnd dt) = charging_with_ball sc"
  "charging_with_ball (update_players sc dt) = charging_with_ball sc"
  "charging_with_ball (clamp_players sc) = charging_with_ball sc"
  "charging_with_ball (checkBall_start sc dt) = charging_with_ball sc"
  by (simp_all add: charging_with_ball_def checkBall_ai_def update_players_def
        clamp_players_def checkBall_start_def Let_def)

lemma charging_update_ball:
  "charging_with_ball sc \<Longrightarrow> charging_with_ball (update_ball sc dt)"
  by (simp add: charging_with_ball_def update_ball_held)

lemma charging_pickup: "charging_with_ball sc \<Longrightarrow> pickup_if_free sc = sc"
  by (simp add: charging_with_ball_def pickup_if_free_def)

lemma possession_blocks [simp]:
  "possession (rules (input_movement sc inp dt)) = possession (rules sc)"
  "possession (rules (input_sprint sc inp)) = possession (rules sc)"
  "possession (rules (input_shot sc inp dt)) = possession (rules sc)"
  "possession (rules (input_special sc inp rnd)) = possession (rules sc)"
  by (simp_all add: input_movement_def input_sprint_def input_shot_def input_special_def
        registerShotAttempt_def Let_def split: prod.splits option.splits bool.splits)

lemma checkBall_tick_charging:
  assumes "gameState (rules sc) = CheckBall" "possession (rules sc) = SidePlayer"
          "hasBall (player sc)" "b_state (ball sc) = Held"
          "pointerIsDown inp" "\<not> rightJustPressed inp"
  shows "charging_with_ball (GameScene_update sc inp rnd dt)"
proof -
  have r: "Rules_update (rules sc) dt = rules sc"
    using assms(1) by (simp add: Rules_update_def)
  have u: "GameScene_update sc inp rnd dt = handleCheckBall sc inp rnd dt"
    using assms(1) by (simp add: GameScene_update_def r Let_def)
  have p: "possession (rules (handlePlayerInput sc inp rnd dt)) = SidePlayer"
    using assms(2) by (simp add: handlePlayerInput_def)
  have c: "charging_with_ball (handlePlayerInput sc inp rnd dt)"
    by (rule input_charging [OF assms(3-6)])
  have "charging_with_ball
          (update_ball (checkBall_start (clamp_players (update_players
             (checkBall_ai (handlePlayerInput sc inp rnd dt) rnd dt) dt)) dt) dt)"
    by (intro charging_update_ball) (simp add: charging_blocks p c)
  then show ?thesis
    by (simp add: u handleCheckBall_def charging_pickup)
qed

lemma reset_leaves_flag:
  "hasBall (player sc) \<Longrightarrow>
     shotCharging (player (handlePause sc KeyR)) = shotCharging (player sc)
     \<and> \<not> hasBall (player (handlePause sc KeyR))
     \<and> hasBall (ai (handlePause sc KeyR))"
  by (simp add: handlePause_def getBallPosition_def Let_def)

lemma enter_facts:
  "gameState (rules (GameScene_enter st)) = CheckBall"
  "possession (rules (GameScene_enter st)) = SidePlayer"
  "hasBall (player (GameScene_enter st))"
  "b_state (ball (GameScene_enter st)) = Held"
  "\<not> shotCharging (player (GameScene_enter st))"
  "\<not> shotCharging (ai (GameScene_enter st))"
  by (simp_all add: GameScene_enter_def setupInitialPositions_def getBallPosition_def
        Rules_new_def Player_new_def attachTo_def Let_def)

lemma scene_after_reset_stale:
  "reachable scene_after_reset" "stale (player scene_after_reset)"
proof -
  let ?s = "GameScene_update (GameScene_enter settings_default) input_hold draws_zero (1 / 60)"
  show "reachable scene_after_reset"
    unfolding scene_after_reset_def by (intro reachable.keydown reachable.tick reachable.enter)
  have "charging_with_ball ?s"
    by (rule checkBall_tick_charging [OF enter_facts(1-4)])
       (simp_all add: input_hold_def input_idle_def)
  then show "stale (player scene_after_reset)"
    using reset_leaves_flag [of ?s]
    by (simp add: scene_after_reset_def stale_def charging_with_ball_def)
qed

subsection \<open>Second trace: a steal against a player who is charging a shot\<close>

lemma steal_succeeds:
  assumes "stealCooldown p \<le> 0" "hasBall t" "invulnerableTime t \<le> 0"
    and "distance (p_x p) (p_y p) (p_x t) (p_y t) \<le> PLAYER_RADIUS * 3"
    and "roll < stealChance (distance (p_x p) (p_y p) (p_x t) (p_y t))"
  shows "snd (attemptSteal roll p t)"
  using assms by (simp add: attemptSteal_def Let_def)

lemma applyMovement_place [simp]:
  "p_x (applyMovement p dx dy) = p_x p" "p_y (applyMovement p dx dy) = p_y p"
  "stealCooldown (applyMovement p dx dy) = stealCooldown p"
  by (simp_all add: applyMovement_def Let_def)

lemma input_steal:
  assumes nb: "\<not> hasBall (player sc)" and h: "holds (ai sc)"
    and rc: "rightJustPressed inp"
    and cd: "stealCooldown (player sc) \<le> 0" and iv: "invulnerableTime (ai sc) \<le> 0"
    and near: "distance (p_x (player sc)) (p_y (player sc)) (p_x (ai sc)) (p_y (ai sc))
                 \<le> PLAYER_RADIUS * 3"
    and luck: "steal_roll rnd
                 < stealChance (distance (p_x (player sc)) (p_y (player sc))
                                         (p_x (ai sc)) (p_y (ai sc)))"
    and fl: "\<not> hasScored (ball sc)" "\<not> isOutOfBounds (ball sc)"
  shows "after_steal (handlePlayerInput sc inp rnd dt)"
proof -
  define s where "s = input_sprint (input_movement sc inp dt) inp"
  have s: "\<not> hasBall (player s)" "ai s = ai sc" "ball s = ball sc"
    "p_x (player s) = p_x (player sc)" "p_y (player s) = p_y (player sc)"
    "stealCooldown (player s) = stealCooldown (player sc)"
    using nb by (simp_all add: s_def input_sprint_def input_movement_def Let_def)
  have shot: "input_shot s inp dt = s"
    using s(1) by (rule input_shot_idle)
  have ok: "snd (attemptSteal (steal_roll rnd) (player s) (ai s))"
    using h cd iv near luck by (intro steal_succeeds) (simp_all add: s holds_def)
  obtain pl where st: "attemptSteal (steal_roll rnd) (player s) (ai s) = (pl, True)"
    using ok by (cases "attemptSteal (steal_roll rnd) (player s) (ai s)") simp
  then have st': "attemptSteal (steal_roll rnd) (player s) (ai sc) = (pl, True)"
    by (simp add: s(2))
  have "after_steal (input_special s inp rnd)"
    using rc s(1) h fl
    by (simp add: after_steal_def input_special_def stale_def holds_def st' s(2,3))
  then show ?thesis
    by (simp add: handlePlayerInput_def s_def[symmetric] shot)
qed

lemma executeState_stale:
  assumes "\<not> hasBall p"
  shows "shotCharging (fst (snd (executeState c p b))) = shotCharging p"
  using assms
  by (cases "c_state c")
     (simp_all add: executeState_def executeShoot_no_ball executeLayup_no_ball)

lemma run_ai_stale: "stale (ai sc) \<Longrightarrow> stale (ai (run_ai sc rnd dt))"
proof -
  assume a: "stale (ai sc)"
  then have nb: "\<not> hasBall (ai sc)" by (simp add: stale_def)
  have "shotCharging (ai (run_ai sc rnd dt)) = shotCharging (ai sc)"
    using executeState_stale [OF nb]
    by (simp add: run_ai_def AIController_update_def Let_def split: prod.splits)
       (metis fst_conv snd_conv)
  moreover have "\<not> hasBall (ai (run_ai sc rnd dt))"
    using nb run_ai_hasBall by blast
  ultimately show ?thesis using a by (simp add: stale_def)
qed

lemma after_steal_run_ai: "after_steal sc \<Longrightarrow> after_steal (run_ai sc rnd dt)"
proof -
  assume a: "after_steal sc"
  then have st: "stale (ai sc)" by (simp add: after_steal_def)
  then have nb: "\<not> hasBall (ai sc)" by (simp add: stale_def)
  from a run_ai_stale [OF st] run_ai_ball [OF nb] show ?thesis
    by (simp add: after_steal_def)
qed

lemma after_steal_blocks:
  "after_steal (update_players sc dt) = after_steal sc"
  "after_steal (clamp_players sc) = after_steal sc"
  by (simp_all add: after_steal_def stale_def update_players_def clamp_players_def)

lemma after_steal_collide: "after_steal (collide_players sc) = after_steal sc"
  by (auto simp add: after_steal_def stale_def collide_players_def split: option.splits
        dest: resolve_hasBall resolve_shotCharging)

lemma after_steal_update_ball: "after_steal sc \<Longrightarrow> after_steal (update_ball sc dt)"
  by (simp add: after_steal_def update_ball_held)

lemma after_steal_referee: "after_steal sc \<Longrightarrow> after_steal (liveBall_referee sc dt)"
  by (simp add: after_steal_def liveBall_referee_def score_and_pickup_def isScore_def
        pickup_if_free_def)

lemma liveBall_tick_steal:
  assumes live: "gameState (rules sc) = LiveBall"
    and clk: "\<not> clock_le (clock_sub (shotClock (rules sc)) dt) 0"
    and nb: "\<not> hasBall (player sc)" and h: "holds (ai sc)"
    and rc: "rightJustPressed inp"
    and cd: "stealCooldown (player sc) \<le> 0" and iv: "invulnerableTime (ai sc) \<le> 0"
    and near: "distance (p_x (player sc)) (p_y (player sc)) (p_x (ai sc)) (p_y (ai sc))
                 \<le> PLAYER_RADIUS * 3"
    and luck: "steal_roll rnd
                 < stealChance (distance (p_x (player sc)) (p_y (player sc))
                                         (p_x (ai sc)) (p_y (ai sc)))"
    and fl: "\<not> hasScored (ball sc)" "\<not> isOutOfBounds (ball sc)"
  shows "after_steal (GameScene_update sc inp rnd dt)"
proof -
  define s where "s = sc\<lparr> rules := Rules_update (rules sc) dt \<rparr>"
  have g: "gameState (rules s) = LiveBall"
    using live clk by (simp add: s_def Rules_update_def Let_def)
  have u: "GameScene_update sc inp rnd dt = handleLiveBall s inp rnd dt"
    using live g by (simp add: GameScene_update_def Let_def s_def[symmetric])
  have "after_steal (handlePlayerInput s inp rnd dt)"
    using nb h rc cd iv near luck fl by (intro input_steal) (simp_all add: s_def)
  then have "after_steal (liveBall_advance s inp rnd dt)"
    by (simp add: liveBall_advance_def after_steal_update_ball after_steal_blocks
          after_steal_collide after_steal_run_ai)
  then show ?thesis
    by (simp add: u handleLiveBall_def after_steal_referee)
qed

lemma scene_steal_facts:
  "gameState (rules scene_steal) = LiveBall"
  "shotClock (rules scene_steal) = Fin 24"
  "\<not> hasBall (player scene_steal)" "\<not> shotCharging (player scene_steal)"
  "hasBall (ai scene_steal)" "shotCharging (ai scene_steal)"
  "stealCooldown (player scene_steal) = 0" "invulnerableTime (ai scene_steal) = 0"
  "p_x (player scene_steal) = 7.5" "p_y (player scene_steal) = 5.7"
  "p_x (ai scene_steal) = 7.5" "p_y (ai scene_steal) = 5"
  "\<not> hasScored (ball scene_steal)" "\<not> isOutOfBounds (ball scene_steal)"
  "b_state (ball scene_steal) = Held" "holderId (ball scene_steal) = Some SideAI"
  by (simp_all add: scene_steal_def Player_new_def Ball_new_def Rules_new_def attachTo_def
        settings_default_def)

text \<open>
  C8 (what the code does): \<open>shotCharging\<close> can stay set on a player who has lost the
  ball.  First trace, from \<open>enter\<close>: one tick with the shoot button held arms the human's
  charge, then the manual reset (key R) hands the ball to the AI and leaves the human's
  \<open>shotCharging\<close> set.  Second trace: the AI holds the ball and is charging, the human
  stands 0.7 m away and presses the steal button with a winning draw; after that tick
  the human has the ball and the AI still has \<open>shotCharging\<close> set.
\<close>

theorem C8_stale_charge:
  "reachable scene_after_reset
   \<and> shotCharging (player scene_after_reset) \<and> \<not> hasBall (player scene_after_reset)
   \<and> hasBall (ai scene_steal) \<and> shotCharging (ai scene_steal)
   \<and> \<not> hasBall (player scene_steal) \<and> \<not> shotCharging (player scene_steal)
   \<and> shotCharging (ai (GameScene_update scene_steal input_right draws_zero (1 / 60)))
   \<and> \<not> hasBall (ai (GameScene_update scene_steal input_right draws_zero (1 / 60)))
   \<and> hasBall (player (GameScene_update scene_steal input_right draws_zero (1 / 60)))"
proof -
  note f = scene_steal_facts
  have d: "distance (p_x (player scene_steal)) (p_y (player scene_steal))
             (p_x (ai scene_steal)) (p_y (ai scene_steal)) = 0.7"
    by (simp add: f distance_same_x)
  have near: "distance (p_x (player scene_steal)) (p_y (player scene_steal))
             (p_x (ai scene_steal)) (p_y (ai scene_steal)) \<le> PLAYER_RADIUS * 3"
    unfolding d by (simp add: PLAYER_RADIUS_def)
  have luck: "steal_roll draws_zero
                < stealChance (distance (p_x (player scene_steal)) (p_y (player scene_steal))
                                        (p_x (ai scene_steal)) (p_y (ai scene_steal)))"
    unfolding d by (simp add: draws_zero_def stealChance_def PLAYER_RADIUS_def)
  have "after_steal (GameScene_update scene_steal input_right draws_zero (1 / 60))"
    by (rule liveBall_tick_steal [OF _ _ _ _ _ _ _ near luck])
       (simp_all add: f holds_def input_right_def input_idle_def)
  then show ?thesis
    using scene_after_reset_stale f
    by (simp add: after_steal_def stale_def)
qed

end
